(* ===== verification/Prelude.thy ===== *)
theory Prelude
  imports Main "HOL-Library.Word" "HOL-Library.Sublist"
begin

unbundle bit_operations_syntax

section \<open>Prelude: machine integers, outcomes and the program monad\<close>

text \<open>
  What every other theory shares: the machine integers of the Rust code as words, the
  error values of \<^verbatim>\<open>src/src/model/error.rs\<close>, the outcome of a Rust
  computation (a value, an error returned with \<open>?\<close>, a panic, a loop that does not
  end), and the state-passing programs over it. Arithmetic follows the
  overflow-checked profile: an unsigned addition or subtraction that does not fit
  panics. Lengths and indices (\<open>usize\<close>, \<open>u64\<close>) are natural numbers; a subtraction of
  them that would go below zero panics.
\<close>

named_theorems prog_simps \<open>unfolding rules of the program monad\<close>
named_theorems enum_simps \<open>discriminants and conversions of the enums\<close>
named_theorems suffix_intros \<open>readers that only consume a prefix of their input\<close>

type_synonym u8 = "8 word"
type_synonym u16 = "16 word"
type_synonym u32 = "32 word"

subsection \<open>Errors\<close>

datatype rdp_error_kind =
    InvalidData | InvalidRespond | NotImplemented | ProtocolNegFailure | InvalidAutomata
  | InvalidProtocol | InvalidCast | InvalidConst | InvalidChecksum | InvalidOptionalField
  | InvalidSize | PossibleMITM | RejectedByServer | Disconnect | Unknown | UnexpectedType

text \<open>
  The standard library's I/O error kinds the code can meet. The message text that
  \<open>RdpError::new\<close> stores beside the kind is never read by the library and is left out.
\<close>

datatype io_error_kind = UnexpectedEof | OtherIo

datatype rdp_error = RdpErr rdp_error_kind

datatype error =
    RdpError rdp_error
  | Io io_error_kind
  | SslHandshakeError
  | SslError
  | ASN1Error
  | TryError

fun error_kind :: "rdp_error \<Rightarrow> rdp_error_kind" where
  "error_kind (RdpErr k) = k"

abbreviation rdp_err :: "rdp_error_kind \<Rightarrow> error" where
  "rdp_err k \<equiv> RdpError (RdpErr k)"

subsection \<open>Outcomes\<close>

datatype panic =
    ArithOverflow | OutOfBounds | MissingKey | UnwrapFailed | AssertFailed | ExplicitPanic

datatype 'a outcome = Ok 'a | Err error | Panic panic | Diverge

fun bindo :: "'a outcome \<Rightarrow> ('a \<Rightarrow> 'b outcome) \<Rightarrow> 'b outcome" where
  "bindo (Ok a) f = f a"
| "bindo (Err e) f = Err e"
| "bindo (Panic p) f = Panic p"
| "bindo Diverge f = Diverge"

fun unwrap :: "'a outcome \<Rightarrow> 'a outcome" where
  "unwrap (Err e) = Panic UnwrapFailed"
| "unwrap r = r"

definition unwrap_option :: "'a option \<Rightarrow> 'a outcome" where
  "unwrap_option x = (case x of None \<Rightarrow> Panic UnwrapFailed | Some a \<Rightarrow> Ok a)"

definition try_option :: "'a option \<Rightarrow> 'a outcome" where
  "try_option x = (case x of Some a \<Rightarrow> Ok a | None \<Rightarrow> Err (rdp_err InvalidOptionalField))"

lemma bindo_cong [fundef_cong]:
  "m = m' \<Longrightarrow> (\<And>a. m' = Ok a \<Longrightarrow> f a = f' a) \<Longrightarrow> bindo m f = bindo m' f'"
  by (cases m') auto

lemma bindo_eq_Ok: "bindo m f = Ok b \<longleftrightarrow> (\<exists>a. m = Ok a \<and> f a = Ok b)"
  by (cases m) auto

lemma bindo_assoc: "bindo (bindo m f) g = bindo m (\<lambda>a. bindo (f a) g)"
  by (cases m) auto

lemma bindo_Ok_right [simp]: "bindo m Ok = m"
  by (cases m) auto

lemma bindo_not_Diverge:
  "m \<noteq> Diverge \<Longrightarrow> (\<And>a. m = Ok a \<Longrightarrow> f a \<noteq> Diverge) \<Longrightarrow> bindo m f \<noteq> Diverge"
  by (cases m) auto

text \<open>An outcome that is a value or an error.\<close>

definition calm :: "'a outcome \<Rightarrow> bool" where
  "calm r = (case r of Ok a \<Rightarrow> True | Err e \<Rightarrow> True | _ \<Rightarrow> False)"

lemma calm_simps [simp]: "calm (Ok a)" "calm (Err e)" "\<not> calm (Panic p)" "\<not> calm Diverge"
  by (simp_all add: calm_def)

lemma calm_iff: "calm r \<longleftrightarrow> (\<exists>a. r = Ok a) \<or> (\<exists>e. r = Err e)"
  by (cases r) auto

lemma calm_bindo [intro]: "calm m \<Longrightarrow> (\<And>a. m = Ok a \<Longrightarrow> calm (f a)) \<Longrightarrow> calm (bindo m f)"
  by (cases m) auto

subsection \<open>Checked arithmetic\<close>

definition addw :: "'w::len word \<Rightarrow> 'w word \<Rightarrow> 'w word outcome" where
  "addw a b = (if unat a + unat b < 2 ^ LENGTH('w) then Ok (a + b) else Panic ArithOverflow)"

definition subw :: "'w::len word \<Rightarrow> 'w word \<Rightarrow> 'w word outcome" where
  "subw a b = (if b \<le> a then Ok (a - b) else Panic ArithOverflow)"

definition subn :: "nat \<Rightarrow> nat \<Rightarrow> nat outcome" where
  "subn a b = (if b \<le> a then Ok (a - b) else Panic ArithOverflow)"

lemma addw_Ok: "addw a b = Ok c \<Longrightarrow> unat c = unat a + unat b"
  by (auto simp: addw_def unat_word_ariths split: if_splits)

lemma subw_Ok: "subw a b = Ok c \<Longrightarrow> unat c = unat a - unat b"
  by (auto simp: subw_def word_le_nat_alt unat_sub split: if_splits)

lemma addw_disjoint:
  fixes a b :: "'a::len word"
  assumes "a AND b = 0" shows "addw a b = Ok (a OR b)"
proof -
  have "unat a AND unat b = 0" using assms by (metis unsigned_0 unsigned_and_eq)
  then have "unat a + unat b = unat a OR unat b" by (simp add: disjunctive_add_eq_or)
  also have "\<dots> = unat (a OR b)" by (simp add: unsigned_or_eq)
  finally have "unat a + unat b = unat (a OR b)" .
  moreover have "a + b = a OR b" using assms by (rule disjunctive_add_eq_or)
  ultimately show ?thesis by (simp add: addw_def)
qed

lemma subn_Ok [simp]: "b \<le> a \<Longrightarrow> subn a b = Ok (a - b)"
  by (simp add: subn_def)

lemma subn_eq_Ok: "subn a b = Ok c \<longleftrightarrow> b \<le> a \<and> c = a - b"
  by (auto simp: subn_def)

subsection \<open>State-passing programs\<close>

text \<open>
  A program takes a state (the unread bytes of a cursor, the link, a client) and returns
  the outcome with the state it leaves. An error leaves a state too: what a failed read
  consumed stays consumed.
\<close>

type_synonym ('s, 'a) prog = "'s \<Rightarrow> 'a outcome \<times> 's"

definition retp :: "'a \<Rightarrow> ('s, 'a) prog" where
  "retp a s = (Ok a, s)"

definition liftp :: "'a outcome \<Rightarrow> ('s, 'a) prog" where
  "liftp r s = (r, s)"

definition failp :: "rdp_error_kind \<Rightarrow> ('s, 'a) prog" where
  "failp k s = (Err (rdp_err k), s)"

definition bindp :: "('s, 'a) prog \<Rightarrow> ('a \<Rightarrow> ('s, 'b) prog) \<Rightarrow> ('s, 'b) prog" where
  "bindp m f s = (case m s of
       (Ok a, s') \<Rightarrow> f a s'
     | (Err e, s') \<Rightarrow> (Err e, s')
     | (Panic p, s') \<Rightarrow> (Panic p, s')
     | (Diverge, s') \<Rightarrow> (Diverge, s'))"

text \<open>Run a program on a part of the state.\<close>

definition zoom :: "('s \<Rightarrow> 't) \<Rightarrow> ('t \<Rightarrow> 's \<Rightarrow> 's) \<Rightarrow> ('t, 'a) prog \<Rightarrow> ('s, 'a) prog" where
  "zoom get put m s = (case m (get s) of (r, t) \<Rightarrow> (r, put t s))"

text \<open>Run a reader on a separate buffer: what it leaves unread is dropped.\<close>

definition on_buffer :: "(u8 list, 'a) prog \<Rightarrow> u8 list \<Rightarrow> 'a outcome" where
  "on_buffer m bs = fst (m bs)"

text \<open>The same, keeping the unread rest for the next read of the buffer.\<close>

definition cursor :: "('s, 'a) prog \<Rightarrow> 's \<Rightarrow> ('a \<times> 's) outcome" where
  "cursor m bs = (case m bs of (Ok a, r) \<Rightarrow> Ok (a, r) | (Err e, r) \<Rightarrow> Err e
     | (Panic p, r) \<Rightarrow> Panic p | (Diverge, r) \<Rightarrow> Diverge)"

declare retp_def [prog_simps] liftp_def [prog_simps] failp_def [prog_simps]

lemma bindp_Ok [simp]: "m s = (Ok a, s') \<Longrightarrow> bindp m f s = f a s'"
  and bindp_Err [simp]: "m s = (Err e, s') \<Longrightarrow> bindp m f s = (Err e, s')"
  and bindp_Panic [simp]: "m s = (Panic p, s') \<Longrightarrow> bindp m f s = (Panic p, s')"
  and bindp_Diverge [simp]: "m s = (Diverge, s') \<Longrightarrow> bindp m f s = (Diverge, s')"
  by (simp_all add: bindp_def)

lemma bindp_retp [simp]: "bindp (retp a) f = f a"
  by (rule ext) (simp add: bindp_def retp_def)

lemma bindp_liftp: "bindp (liftp r) f s = (case r of Ok a \<Rightarrow> f a s | Err e \<Rightarrow> (Err e, s)
    | Panic p \<Rightarrow> (Panic p, s) | Diverge \<Rightarrow> (Diverge, s))"
  by (simp add: bindp_def liftp_def split: outcome.split)

lemma bindp_liftp_Ok [simp]: "bindp (liftp (Ok a)) f = f a"
  by (rule ext) (simp add: bindp_def liftp_def)

lemma bindp_assoc: "bindp (bindp m f) g = bindp m (\<lambda>a. bindp (f a) g)"
  by (rule ext) (simp add: bindp_def split: prod.splits outcome.splits)

lemma bindp_eq_Ok:
  "bindp m f s = (Ok b, s'') \<longleftrightarrow> (\<exists>a s'. m s = (Ok a, s') \<and> f a s' = (Ok b, s''))"
  by (auto simp: bindp_def split: prod.splits outcome.splits)

lemma bindp_cong [fundef_cong]:
  "m s = m' s' \<Longrightarrow> s = s' \<Longrightarrow> (\<And>a t. m' s' = (Ok a, t) \<Longrightarrow> f a t = f' a t)
   \<Longrightarrow> bindp m f s = bindp m' f' s'"
  by (auto simp: bindp_def split: prod.splits outcome.splits)

lemma zoom_Ok: "zoom get put m s = (Ok a, s') \<longleftrightarrow> (\<exists>t. m (get s) = (Ok a, t) \<and> s' = put t s)"
  by (auto simp: zoom_def split: prod.splits)

lemma cursor_Ok: "cursor m bs = Ok (a, r) \<longleftrightarrow> m bs = (Ok a, r)"
  by (auto simp: cursor_def split: prod.splits outcome.splits)

lemma cursor_simps [simp]: "m bs = (Ok a, r) \<Longrightarrow> cursor m bs = Ok (a, r)" "m bs = (Err e, r) \<Longrightarrow> cursor m bs = Err e"
  by (simp_all add: cursor_def)

subsection \<open>Cursors\<close>

text \<open>
  A cursor over a byte buffer is the list of its unread bytes. \<open>read_exact\<close> fails on a
  short buffer with \<open>UnexpectedEof\<close> and leaves the cursor at its end.
\<close>

definition read_exact :: "nat \<Rightarrow> (u8 list, u8 list) prog" where
  "read_exact n s = (if n \<le> length s then (Ok (take n s), drop n s) else (Err (Io UnexpectedEof), []))"

definition read_to_end :: "(u8 list, u8 list) prog" where
  "read_to_end s = (Ok s, [])"

definition rd_u8 :: "(u8 list, u8) prog" where
  "rd_u8 = bindp (read_exact 1) (\<lambda>bs. retp (bs ! 0))"

lemma read_exact_append [simp]: "length bs = n \<Longrightarrow> read_exact n (bs @ rest) = (Ok bs, rest)"
  by (simp add: read_exact_def)

lemma rd_u8_Cons [simp]: "rd_u8 (b # s) = (Ok b, s)"
  by (simp add: rd_u8_def bindp_def read_exact_def retp_def)

lemma rd_u8_Nil [simp]: "rd_u8 [] = (Err (Io UnexpectedEof), [])"
  by (simp add: rd_u8_def bindp_def read_exact_def)

end
