(* ===== verification/Bytes.thy ===== *)
theory Bytes
  imports Prelude
begin

section \<open>Byte order and the codec interface\<close>

text \<open>
  The byte images of 16 and 32 bit integers in both byte orders, as \<open>to_be_bytes\<close>,
  \<open>from_le_bytes\<close> and their kin of the standard library give them, the readers over
  them, and the contract every encoder and decoder pair of the library is held to: the
  locale \<open>codec\<close>. The fixed-width integers are its first interpretations; the PER
  routines and the message trees follow in their own theories.
\<close>

subsection \<open>Byte images\<close>

definition u16_be :: "u16 \<Rightarrow> u8 list" where
  "u16_be w = [ucast (drop_bit 8 w), ucast w]"

definition u16_le :: "u16 \<Rightarrow> u8 list" where
  "u16_le w = [ucast w, ucast (drop_bit 8 w)]"

definition u32_be :: "u32 \<Rightarrow> u8 list" where
  "u32_be w = [ucast (drop_bit 24 w), ucast (drop_bit 16 w), ucast (drop_bit 8 w), ucast w]"

definition u32_le :: "u32 \<Rightarrow> u8 list" where
  "u32_le w = [ucast w, ucast (drop_bit 8 w), ucast (drop_bit 16 w), ucast (drop_bit 24 w)]"

definition be_u16 :: "u8 list \<Rightarrow> u16" where
  "be_u16 bs = push_bit 8 (ucast (bs ! 0)) OR ucast (bs ! 1)"

definition le_u16 :: "u8 list \<Rightarrow> u16" where
  "le_u16 bs = push_bit 8 (ucast (bs ! 1)) OR ucast (bs ! 0)"

definition be_u32 :: "u8 list \<Rightarrow> u32" where
  "be_u32 bs = push_bit 24 (ucast (bs ! 0)) OR push_bit 16 (ucast (bs ! 1))
     OR push_bit 8 (ucast (bs ! 2)) OR ucast (bs ! 3)"

definition le_u32 :: "u8 list \<Rightarrow> u32" where
  "le_u32 bs = push_bit 24 (ucast (bs ! 3)) OR push_bit 16 (ucast (bs ! 2))
     OR push_bit 8 (ucast (bs ! 1)) OR ucast (bs ! 0)"

definition rd_u16_be :: "(u8 list, u16) prog" where
  "rd_u16_be = bindp (read_exact 2) (\<lambda>bs. retp (be_u16 bs))"

definition rd_u16_le :: "(u8 list, u16) prog" where
  "rd_u16_le = bindp (read_exact 2) (\<lambda>bs. retp (le_u16 bs))"

definition rd_u32_be :: "(u8 list, u32) prog" where
  "rd_u32_be = bindp (read_exact 4) (\<lambda>bs. retp (be_u32 bs))"

definition rd_u32_le :: "(u8 list, u32) prog" where
  "rd_u32_le = bindp (read_exact 4) (\<lambda>bs. retp (le_u32 bs))"

lemma length_images [simp]:
  "length (u16_be w) = 2" "length (u16_le w) = 2" "length (u32_be v) = 4" "length (u32_le v) = 4"
  by (simp_all add: u16_be_def u16_le_def u32_be_def u32_le_def)

lemma image_neq_Nil [simp]:
  "u16_be w \<noteq> []" "u16_le w \<noteq> []" "u32_be v \<noteq> []" "u32_le v \<noteq> []"
  by (simp_all add: u16_be_def u16_le_def u32_be_def u32_le_def)

lemma be_u16_u16_be [simp]: "be_u16 (u16_be w) = w"
  by (intro bit_word_eqI) (auto simp: be_u16_def u16_be_def bit_simps)

lemma le_u16_u16_le [simp]: "le_u16 (u16_le w) = w"
  by (intro bit_word_eqI) (auto simp: le_u16_def u16_le_def bit_simps)

lemma byte_index_cases: "(n::nat) < 8 \<or> 8 \<le> n \<and> n < 16 \<or> 16 \<le> n \<and> n < 24 \<or> 24 \<le> n"
  by arith

lemma be_u32_u32_be [simp]: "be_u32 (u32_be w) = w"
proof (intro bit_word_eqI)
  fix n assume "n < LENGTH(32)"
  then show "bit (be_u32 (u32_be w)) n = bit w n"
    using byte_index_cases [of n] by (auto simp: be_u32_def u32_be_def bit_simps)
qed

lemma le_u32_u32_le [simp]: "le_u32 (u32_le w) = w"
proof (intro bit_word_eqI)
  fix n assume "n < LENGTH(32)"
  then show "bit (le_u32 (u32_le w)) n = bit w n"
    using byte_index_cases [of n] by (auto simp: le_u32_def u32_le_def bit_simps)
qed

lemma rd_image_append [simp]:
  "rd_u16_be (u16_be w @ rest) = (Ok w, rest)" "rd_u16_le (u16_le w @ rest) = (Ok w, rest)"
  "rd_u32_be (u32_be v @ rest) = (Ok v, rest)" "rd_u32_le (u32_le v @ rest) = (Ok v, rest)"
  by (simp_all add: rd_u16_be_def rd_u16_le_def rd_u32_be_def rd_u32_le_def retp_def)

lemma rd_bytes_Cons [simp]:
  "rd_u16_be (a # b # s) = (Ok (be_u16 [a, b]), s)"
  "rd_u16_le (a # b # s) = (Ok (le_u16 [a, b]), s)"
  "rd_u32_be (a # b # c # d # s) = (Ok (be_u32 [a, b, c, d]), s)"
  "rd_u32_le (a # b # c # d # s) = (Ok (le_u32 [a, b, c, d]), s)"
  by (simp_all add: rd_u16_be_def rd_u16_le_def rd_u32_be_def rd_u32_le_def retp_def
      bindp_def read_exact_def)

lemma rd_short:
  "length s < 2 \<Longrightarrow> rd_u16_be s = (Err (Io UnexpectedEof), [])"
  "length s < 2 \<Longrightarrow> rd_u16_le s = (Err (Io UnexpectedEof), [])"
  "length s < 4 \<Longrightarrow> rd_u32_be s = (Err (Io UnexpectedEof), [])"
  "length s < 4 \<Longrightarrow> rd_u32_le s = (Err (Io UnexpectedEof), [])"
  by (simp_all add: rd_u16_be_def rd_u16_le_def rd_u32_be_def rd_u32_le_def bindp_def read_exact_def)

subsection \<open>Readers that only move forward\<close>

text \<open>
  Every reader of the library leaves a suffix of its input, whatever its outcome: it never
  puts bytes back and never makes bytes up.
\<close>

definition forward :: "(u8 list, 'a) prog \<Rightarrow> bool" where
  "forward m \<longleftrightarrow> (\<forall>s r s'. m s = (r, s') \<longrightarrow> suffix s' s)"

text \<open>A reader that consumes at least \<open>n\<close> bytes whenever it succeeds.\<close>

definition consumes :: "nat \<Rightarrow> (u8 list, 'a) prog \<Rightarrow> bool" where
  "consumes n m \<longleftrightarrow> (\<forall>s a s'. m s = (Ok a, s') \<longrightarrow> length s' + n \<le> length s)"

definition terminates :: "('s, 'a) prog \<Rightarrow> bool" where
  "terminates m \<longleftrightarrow> (\<forall>s. fst (m s) \<noteq> Diverge)"

lemma forwardD: "forward m \<Longrightarrow> m s = (r, s') \<Longrightarrow> suffix s' s"
  by (auto simp: forward_def)

lemma forward_length: "forward m \<Longrightarrow> m s = (r, s') \<Longrightarrow> length s' \<le> length s"
  by (auto simp: forward_def dest!: suffix_length_le)

lemma consumesD: "consumes n m \<Longrightarrow> m s = (Ok a, s') \<Longrightarrow> length s' + n \<le> length s"
  by (auto simp: consumes_def)

lemma terminatesD: "terminates m \<Longrightarrow> m s \<noteq> (Diverge, s')"
  by (metis fst_conv terminates_def)

lemma forward_bindp [suffix_intros]:
  assumes "forward m" "\<And>a. forward (f a)"
  shows "forward (bindp m f)"
  using assms
  by (fastforce simp: forward_def bindp_def split: prod.splits outcome.splits
      intro: suffix_order.order_trans)

lemma forward_basic [suffix_intros]:
  "forward (retp a)" "forward (liftp r)" "forward (failp k)"
  "forward (read_exact n)" "forward read_to_end"
  by (auto simp: forward_def retp_def liftp_def failp_def read_exact_def read_to_end_def suffix_drop
      split: if_splits)

lemma forward_ints [suffix_intros]:
  "forward rd_u8" "forward rd_u16_be" "forward rd_u16_le" "forward rd_u32_be" "forward rd_u32_le"
  by (auto simp: rd_u8_def rd_u16_be_def rd_u16_le_def rd_u32_be_def rd_u32_le_def
      intro!: suffix_intros)

lemma forward_if [suffix_intros]: "(b \<Longrightarrow> forward m) \<Longrightarrow> (\<not> b \<Longrightarrow> forward m') \<Longrightarrow> forward (if b then m else m')"
  by auto

lemma forward_case_option [suffix_intros]:
  "forward m \<Longrightarrow> (\<And>x. forward (f x)) \<Longrightarrow> forward (case z of None \<Rightarrow> m | Some x \<Rightarrow> f x)"
  by (cases z) auto

lemma consumes_bindp:
  assumes "consumes n m" "\<And>a. consumes k (f a)"
  shows "consumes (n + k) (bindp m f)"
  using assms by (fastforce simp: consumes_def bindp_eq_Ok)

lemma consumes_bindp_left:
  assumes "consumes n m" "\<And>a. forward (f a)"
  shows "consumes n (bindp m f)"
  using assms by (fastforce simp: consumes_def bindp_eq_Ok dest: forward_length)

lemma consumes_read_exact: "consumes n (read_exact n)"
  by (auto simp: consumes_def read_exact_def split: if_splits)

lemma consumes_0 [simp]: "forward m \<Longrightarrow> consumes 0 m"
  by (auto simp: consumes_def dest: forward_length)

lemma consumes_ints:
  "consumes 1 rd_u8" "consumes 2 rd_u16_be" "consumes 2 rd_u16_le" "consumes 4 rd_u32_be"
  "consumes 4 rd_u32_le"
  unfolding rd_u8_def rd_u16_be_def rd_u16_le_def rd_u32_be_def rd_u32_le_def
  by (auto intro!: consumes_bindp_left consumes_read_exact suffix_intros)

lemma terminates_bindp:
  "terminates m \<Longrightarrow> (\<And>a. terminates (f a)) \<Longrightarrow> terminates (bindp m f)"
  by (auto simp: terminates_def bindp_def split: prod.splits outcome.splits) (metis fst_conv)

lemma terminates_basic [simp]:
  "terminates (retp a)" "terminates (failp k)" "terminates (read_exact n)" "terminates read_to_end"
  by (auto simp: terminates_def retp_def failp_def read_exact_def read_to_end_def)

lemma terminates_liftp: "r \<noteq> Diverge \<Longrightarrow> terminates (liftp r)"
  by (simp add: terminates_def liftp_def)

lemma terminates_ints [simp]:
  "terminates rd_u8" "terminates rd_u16_be" "terminates rd_u16_le" "terminates rd_u32_be"
  "terminates rd_u32_le"
  by (auto simp: rd_u8_def rd_u16_be_def rd_u16_le_def rd_u32_be_def rd_u32_le_def
      intro!: terminates_bindp)

subsection \<open>The codec contract\<close>

text \<open>
  What a client of an encoder and a decoder relies on: decoding what was encoded returns
  the value and leaves exactly the bytes that follow it. Encoders can panic (checked
  arithmetic), so the law speaks of the values whose encoding exists and that the format
  can carry (\<open>fit\<close>).
\<close>

locale codec =
  fixes enc :: "'a \<Rightarrow> u8 list outcome"
    and dec :: "(u8 list, 'a) prog"
    and fit :: "'a \<Rightarrow> bool"
  assumes dec_enc: "fit a \<Longrightarrow> enc a = Ok bs \<Longrightarrow> dec (bs @ rest) = (Ok a, rest)"
begin

lemma dec_enc_all: "fit a \<Longrightarrow> enc a = Ok bs \<Longrightarrow> dec bs = (Ok a, [])"
  using dec_enc [of a bs "[]"] by simp

lemma prefix_free:
  "fit a \<Longrightarrow> fit b \<Longrightarrow> enc a = Ok bs \<Longrightarrow> enc b = Ok cs \<Longrightarrow> bs @ r = cs @ r' \<Longrightarrow> a = b \<and> r = r'"
  using dec_enc [of a bs r] dec_enc [of b cs r'] by simp

lemma enc_injective: "fit a \<Longrightarrow> fit b \<Longrightarrow> enc a = Ok bs \<Longrightarrow> enc b = Ok bs \<Longrightarrow> a = b"
  using prefix_free [of a b bs bs "[]" "[]"] by simp

lemma dec_enc_then:
  "fit a \<Longrightarrow> enc a = Ok bs \<Longrightarrow> bindp dec f (bs @ rest) = f a rest"
  by (simp add: dec_enc)

end

locale fixed_codec = codec +
  fixes width :: nat
  assumes enc_width: "fit a \<Longrightarrow> enc a = Ok bs \<Longrightarrow> length bs = width"
begin

lemma dec_prefix: "fit a \<Longrightarrow> enc a = Ok bs \<Longrightarrow> take width s = bs \<Longrightarrow> dec s = (Ok a, drop width s)"
  using dec_enc [of a bs "drop width s"] by (metis append_take_drop_id)

end

interpretation be16: fixed_codec "\<lambda>w. Ok (u16_be w)" rd_u16_be "\<lambda>_. True" 2
  by unfold_locales auto

interpretation le16: fixed_codec "\<lambda>w. Ok (u16_le w)" rd_u16_le "\<lambda>_. True" 2
  by unfold_locales auto

interpretation be32: fixed_codec "\<lambda>w. Ok (u32_be w)" rd_u32_be "\<lambda>_. True" 4
  by unfold_locales auto

interpretation le32: fixed_codec "\<lambda>w. Ok (u32_le w)" rd_u32_le "\<lambda>_. True" 4
  by unfold_locales auto

end
