(* ===== verification/Message.thy ===== *)
theory Message
  imports Bytes
begin

section \<open>The message tree\<close>

text \<open>
  The data model of \<^verbatim>\<open>src/src/model/data.rs\<close>. Every packet is a tree of values that
  implement the trait \<open>Message\<close>; \<open>message\<close> has one constructor per implementation, and the
  trait's methods \<open>write\<close>, \<open>read\<close>, \<open>length\<close>, \<open>visit\<close> and \<open>options\<close> are the functions
  \<open>write_msg\<close>, \<open>read_msg\<close>, \<open>msg_length\<close>, \<open>visit\<close> and \<open>options\<close>, which dispatch to one
  definition per implementation as the vtable does. A component is its list of fields in
  insertion order: the keys of every component the library builds are distinct, so the
  index map of the source is this list. A \<open>DynOption\<close> holds its closure as a function of
  what the closure can see of the inner value.
\<close>

subsection \<open>Types\<close>

datatype 'a val = BE 'a | LE 'a

fun inner :: "'a val \<Rightarrow> 'a" where
  "inner (BE e) = e"
| "inner (LE e) = e"

definition val_eq :: "'a val \<Rightarrow> 'a val \<Rightarrow> bool" where
  "val_eq a b \<longleftrightarrow> inner a = inner b"

datatype message_option = SkipField string | Size string nat | NoOption

text \<open>What a closure reads of its argument: a number, or the number fields of a component.\<close>

datatype dyn_view = ViewU8 u8 | ViewU16 u16 | ViewU32 u32 | ViewFields "(string \<times> dyn_view) list" | ViewOther

datatype message =
    MU8 u8
  | MU16 "u16 val"
  | MU32 "u32 val"
  | MSlice "u8 list"
  | MTrame "message list"
  | MComponent "(string \<times> message) list"
  | MCheck message
  | MDyn message "dyn_view \<Rightarrow> message_option outcome"
  | MOpt "message option"
  | MArray "message list" "message option"

text \<open>
  \<open>MArray xs (Some t)\<close> is an array whose factory makes \<open>t\<close>; \<open>MArray xs None\<close> is one made
  by \<open>from_trame\<close>, whose factory panics.
\<close>

datatype data_type =
    DComponent "(string \<times> message) list"
  | DTrame "message list"
  | DU32 u32
  | DU16 u16
  | DU8 u8
  | DSlice "u8 list"
  | DNone

subsection \<open>visit, cast and indexing\<close>

fun visit :: "message \<Rightarrow> data_type" where
  "visit (MU8 b) = DU8 b"
| "visit (MU16 v) = DU16 (inner v)"
| "visit (MU32 v) = DU32 (inner v)"
| "visit (MSlice bs) = DSlice bs"
| "visit (MTrame ms) = DTrame ms"
| "visit (MComponent fs) = DComponent fs"
| "visit (MCheck m) = visit m"
| "visit (MDyn m _) = visit m"
| "visit (MOpt None) = DNone"
| "visit (MOpt (Some m)) = visit m"
| "visit (MArray ms _) = DTrame ms"

definition cast_u8 :: "message \<Rightarrow> u8 outcome" where
  "cast_u8 m = (case visit m of DU8 e \<Rightarrow> Ok e | _ \<Rightarrow> Err (rdp_err InvalidCast))"

definition cast_u16 :: "message \<Rightarrow> u16 outcome" where
  "cast_u16 m = (case visit m of DU16 e \<Rightarrow> Ok e | _ \<Rightarrow> Err (rdp_err InvalidCast))"

definition cast_u32 :: "message \<Rightarrow> u32 outcome" where
  "cast_u32 m = (case visit m of DU32 e \<Rightarrow> Ok e | _ \<Rightarrow> Err (rdp_err InvalidCast))"

definition cast_slice :: "message \<Rightarrow> u8 list outcome" where
  "cast_slice m = (case visit m of DSlice e \<Rightarrow> Ok e | _ \<Rightarrow> Err (rdp_err InvalidCast))"

definition cast_trame :: "message \<Rightarrow> message list outcome" where
  "cast_trame m = (case visit m of DTrame e \<Rightarrow> Ok e | _ \<Rightarrow> Err (rdp_err InvalidCast))"

definition cast_component :: "message \<Rightarrow> message outcome" where
  "cast_component m = (case visit m of DComponent e \<Rightarrow> Ok (MComponent e) | _ \<Rightarrow> Err (rdp_err InvalidCast))"

definition is_none :: "message \<Rightarrow> bool" where
  "is_none m = (case visit m of DNone \<Rightarrow> True | _ \<Rightarrow> False)"

text \<open>\<open>component["name"]\<close> and \<open>trame[i]\<close>: indexing panics where there is nothing.\<close>

fun field :: "message \<Rightarrow> string \<Rightarrow> message outcome" where
  "field (MComponent fs) name = (case map_of fs name of None \<Rightarrow> Panic MissingKey | Some m \<Rightarrow> Ok m)"
| "field _ _ = Panic MissingKey"

fun nth_msg :: "message \<Rightarrow> nat \<Rightarrow> message outcome" where
  "nth_msg (MTrame ms) i = (if i < length ms then Ok (ms ! i) else Panic OutOfBounds)"
| "nth_msg _ _ = Panic OutOfBounds"

subsection \<open>options\<close>

fun view_of :: "message \<Rightarrow> dyn_view" where
  "view_of (MU8 b) = ViewU8 b"
| "view_of (MU16 v) = ViewU16 (inner v)"
| "view_of (MU32 v) = ViewU32 (inner v)"
| "view_of (MCheck m) = view_of m"
| "view_of (MDyn m _) = view_of m"
| "view_of (MComponent fs) = ViewFields (map (\<lambda>(k, m). (k, view_of m)) fs)"
| "view_of _ = ViewOther"

definition view_u8 :: "dyn_view \<Rightarrow> u8" where
  "view_u8 v = (case v of ViewU8 b \<Rightarrow> b | _ \<Rightarrow> 0)"

definition view_u16 :: "dyn_view \<Rightarrow> u16" where
  "view_u16 v = (case v of ViewU16 w \<Rightarrow> w | _ \<Rightarrow> 0)"

definition view_u32 :: "dyn_view \<Rightarrow> u32" where
  "view_u32 v = (case v of ViewU32 w \<Rightarrow> w | _ \<Rightarrow> 0)"

fun view_field :: "dyn_view \<Rightarrow> string \<Rightarrow> dyn_view outcome" where
  "view_field (ViewFields fs) name = (case map_of fs name of None \<Rightarrow> Panic MissingKey | Some v \<Rightarrow> Ok v)"
| "view_field _ _ = Panic MissingKey"

lemma view_simps [simp]:
  "view_u8 (ViewU8 b) = b" "view_u16 (ViewU16 w) = w" "view_u32 (ViewU32 v) = v"
  by (simp_all add: view_u8_def view_u16_def view_u32_def)

definition dyn_options :: "message \<Rightarrow> (dyn_view \<Rightarrow> message_option outcome) \<Rightarrow> message_option outcome" where
  "dyn_options m f = f (view_of m)"

fun options :: "message \<Rightarrow> message_option outcome" where
  "options (MDyn m f) = dyn_options m f"
| "options _ = Ok NoOption"

subsection \<open>write\<close>

definition u8_write :: "u8 \<Rightarrow> u8 list outcome" where
  "u8_write b = Ok [b]"

definition u16_write :: "u16 val \<Rightarrow> u8 list outcome" where
  "u16_write v = (case v of BE x \<Rightarrow> Ok (u16_be x) | LE x \<Rightarrow> Ok (u16_le x))"

definition u32_write :: "u32 val \<Rightarrow> u8 list outcome" where
  "u32_write v = (case v of BE x \<Rightarrow> Ok (u32_be x) | LE x \<Rightarrow> Ok (u32_le x))"

definition slice_write :: "u8 list \<Rightarrow> u8 list outcome" where
  "slice_write bs = Ok bs"

primrec trame_write :: "u8 list outcome list \<Rightarrow> u8 list outcome" where
  "trame_write [] = Ok []"
| "trame_write (w # ws) = bindo w (\<lambda>bs. bindo (trame_write ws) (\<lambda>cs. Ok (bs @ cs)))"

text \<open>
  A component writes its fields in order, except those an earlier written field asked to
  skip. Each field comes as its name, its written bytes and its options.
\<close>

definition add_filter :: "message_option \<Rightarrow> string set \<Rightarrow> string set" where
  "add_filter opt filtering = (case opt of SkipField f \<Rightarrow> insert f filtering | _ \<Rightarrow> filtering)"

definition add_size :: "message_option \<Rightarrow> (string \<rightharpoonup> nat) \<Rightarrow> (string \<rightharpoonup> nat)" where
  "add_size opt sizes = (case opt of Size f n \<Rightarrow> sizes(f \<mapsto> n) | _ \<Rightarrow> sizes)"

primrec component_write ::
  "(string \<times> u8 list outcome \<times> message_option outcome) list \<Rightarrow> string set \<Rightarrow> u8 list outcome" where
  "component_write [] filtering = Ok []"
| "component_write (f # fs) filtering = (case f of (name, wr, opt) \<Rightarrow>
     if name \<in> filtering then component_write fs filtering
     else bindo wr (\<lambda>bs. bindo opt (\<lambda>o'. bindo (component_write fs (add_filter o' filtering))
       (\<lambda>cs. Ok (bs @ cs)))))"

definition option_write :: "u8 list outcome option \<Rightarrow> u8 list outcome" where
  "option_write x = (case x of Some wr \<Rightarrow> wr | None \<Rightarrow> Ok [])"

fun write_msg :: "message \<Rightarrow> u8 list outcome" where
  "write_msg (MU8 b) = u8_write b"
| "write_msg (MU16 v) = u16_write v"
| "write_msg (MU32 v) = u32_write v"
| "write_msg (MSlice bs) = slice_write bs"
| "write_msg (MTrame ms) = trame_write (map write_msg ms)"
| "write_msg (MComponent fs) = component_write (map (\<lambda>(k, m). (k, write_msg m, options m)) fs) {}"
| "write_msg (MCheck m) = write_msg m"
| "write_msg (MDyn m f) = write_msg m"
| "write_msg (MOpt x) = option_write (map_option write_msg x)"
| "write_msg (MArray ms t) = trame_write (map write_msg ms)"

text \<open>\<open>to_vec\<close> unwraps the result of the write.\<close>

definition to_vec :: "message \<Rightarrow> u8 list outcome" where
  "to_vec m = unwrap (write_msg m)"

subsection \<open>length\<close>

definition u8_length :: nat where "u8_length = 1"
definition u16_length :: nat where "u16_length = 2"
definition u32_length :: nat where "u32_length = 4"

definition slice_length :: "u8 list \<Rightarrow> nat" where
  "slice_length bs = length bs"

primrec trame_length :: "nat outcome list \<Rightarrow> nat outcome" where
  "trame_length [] = Ok 0"
| "trame_length (l # ls) = bindo l (\<lambda>n. bindo (trame_length ls) (\<lambda>k. Ok (n + k)))"

primrec component_length ::
  "(string \<times> nat outcome \<times> message_option outcome) list \<Rightarrow> string set \<Rightarrow> nat outcome" where
  "component_length [] filtering = Ok 0"
| "component_length (f # fs) filtering = (case f of (name, len, opt) \<Rightarrow>
     if name \<in> filtering then component_length fs filtering
     else bindo opt (\<lambda>o'. bindo len (\<lambda>n. bindo (component_length fs (add_filter o' filtering))
       (\<lambda>k. Ok (n + k)))))"

definition option_length :: "nat outcome option \<Rightarrow> nat outcome" where
  "option_length x = (case x of Some len \<Rightarrow> len | None \<Rightarrow> Ok 0)"

fun msg_length :: "message \<Rightarrow> nat outcome" where
  "msg_length (MU8 b) = Ok u8_length"
| "msg_length (MU16 v) = Ok u16_length"
| "msg_length (MU32 v) = Ok u32_length"
| "msg_length (MSlice bs) = Ok (slice_length bs)"
| "msg_length (MTrame ms) = trame_length (map msg_length ms)"
| "msg_length (MComponent fs) = component_length (map (\<lambda>(k, m). (k, msg_length m, options m)) fs) {}"
| "msg_length (MCheck m) = msg_length m"
| "msg_length (MDyn m f) = msg_length m"
| "msg_length (MOpt x) = option_length (map_option msg_length x)"
| "msg_length (MArray ms t) = trame_length (map msg_length ms)"

subsection \<open>read\<close>

definition u8_read :: "(u8 list, u8) prog" where
  "u8_read = rd_u8"

definition u16_read :: "u16 val \<Rightarrow> (u8 list, u16 val) prog" where
  "u16_read v = (case v of
       BE _ \<Rightarrow> bindp rd_u16_be (\<lambda>x. retp (BE x))
     | LE _ \<Rightarrow> bindp rd_u16_le (\<lambda>x. retp (LE x)))"

definition u32_read :: "u32 val \<Rightarrow> (u8 list, u32 val) prog" where
  "u32_read v = (case v of
       BE _ \<Rightarrow> bindp rd_u32_be (\<lambda>x. retp (BE x))
     | LE _ \<Rightarrow> bindp rd_u32_le (\<lambda>x. retp (LE x)))"

definition slice_read :: "u8 list \<Rightarrow> (u8 list, u8 list) prog" where
  "slice_read bs = (if length bs = 0 then read_to_end else read_exact (length bs))"

primrec trame_read :: "(u8 list, message) prog list \<Rightarrow> (u8 list, message list) prog" where
  "trame_read [] = retp []"
| "trame_read (r # rs) = bindp r (\<lambda>m. bindp (trame_read rs) (\<lambda>ms. retp (m # ms)))"

text \<open>The equality of the types that \<open>Check\<close> is used with: values compare without their byte order.\<close>

fun msg_eq :: "message \<Rightarrow> message \<Rightarrow> bool" where
  "msg_eq (MU8 a) (MU8 b) = (a = b)"
| "msg_eq (MU16 a) (MU16 b) = val_eq a b"
| "msg_eq (MU32 a) (MU32 b) = val_eq a b"
| "msg_eq (MSlice a) (MSlice b) = (a = b)"
| "msg_eq _ _ = False"

definition check_read :: "message \<Rightarrow> (u8 list, message) prog \<Rightarrow> (u8 list, message) prog" where
  "check_read old rd = bindp rd (\<lambda>new. if \<not> msg_eq old new then failp InvalidConst else retp new)"

text \<open>A field with a size is cut out of the stream first and read from a cursor of its own.\<close>

definition read_local :: "nat \<Rightarrow> (u8 list, message) prog \<Rightarrow> (u8 list, message) prog" where
  "read_local n rd = bindp (read_exact n) (\<lambda>buf. liftp (on_buffer rd buf))"

primrec component_read ::
  "(string \<times> message \<times> (u8 list, message) prog) list \<Rightarrow> string set \<Rightarrow> (string \<rightharpoonup> nat)
   \<Rightarrow> (u8 list, (string \<times> message) list) prog" where
  "component_read [] filtering sizes = retp []"
| "component_read (f # fs) filtering sizes = (case f of (name, old, rd) \<Rightarrow>
     if name \<in> filtering
     then bindp (component_read fs filtering sizes) (\<lambda>r. retp ((name, old) # r))
     else bindp (case sizes name of Some n \<Rightarrow> read_local n rd | None \<Rightarrow> rd) (\<lambda>m.
       bindp (liftp (options m)) (\<lambda>opt.
       bindp (component_read fs (add_filter opt filtering) (add_size opt sizes)) (\<lambda>r.
       retp ((name, m) # r)))))"

text \<open>An optional field turns every read error into \<open>None\<close>; panics go through.\<close>

definition option_read :: "(u8 list, message) prog \<Rightarrow> (u8 list, message option) prog" where
  "option_read rd s = (case rd s of
       (Ok m, s') \<Rightarrow> (Ok (Some m), s')
     | (Err e, s') \<Rightarrow> (Ok None, s')
     | (Panic p, s') \<Rightarrow> (Panic p, s')
     | (Diverge, s') \<Rightarrow> (Diverge, s'))"

text \<open>
  The loop of an array reads elements until one fails. It has one unit of fuel more than
  there are bytes: it runs out only if some element was read without consuming a byte,
  and then the loop of the source reads that same element forever.
\<close>

primrec array_loop :: "nat \<Rightarrow> (u8 list, message) prog \<Rightarrow> (u8 list, message list) prog" where
  "array_loop 0 rd = liftp Diverge"
| "array_loop (Suc fuel) rd = bindp (option_read rd) (\<lambda>e. case e of
       Some m \<Rightarrow> bindp (array_loop fuel rd) (\<lambda>ms. retp (m # ms))
     | None \<Rightarrow> retp [])"

definition array_read :: "(u8 list, message) prog \<Rightarrow> (u8 list, message list) prog" where
  "array_read rd s = array_loop (Suc (length s)) rd s"

fun read_msg :: "message \<Rightarrow> (u8 list, message) prog" where
  "read_msg (MU8 b) = bindp u8_read (\<lambda>x. retp (MU8 x))"
| "read_msg (MU16 v) = bindp (u16_read v) (\<lambda>x. retp (MU16 x))"
| "read_msg (MU32 v) = bindp (u32_read v) (\<lambda>x. retp (MU32 x))"
| "read_msg (MSlice bs) = bindp (slice_read bs) (\<lambda>x. retp (MSlice x))"
| "read_msg (MTrame ms) = bindp (trame_read (map read_msg ms)) (\<lambda>x. retp (MTrame x))"
| "read_msg (MComponent fs) =
     bindp (component_read (map (\<lambda>(k, m). (k, m, read_msg m)) fs) {} Map.empty) (\<lambda>x. retp (MComponent x))"
| "read_msg (MCheck m) = bindp (check_read m (read_msg m)) (\<lambda>x. retp (MCheck x))"
| "read_msg (MDyn m f) = bindp (read_msg m) (\<lambda>x. retp (MDyn x f))"
| "read_msg (MOpt None) = retp (MOpt None)"
| "read_msg (MOpt (Some m)) = bindp (option_read (read_msg m)) (\<lambda>x. retp (MOpt x))"
| "read_msg (MArray ms (Some t)) = bindp (array_read (read_msg t)) (\<lambda>x. retp (MArray (ms @ x) (Some t)))"
| "read_msg (MArray ms None) = liftp (Panic ExplicitPanic)"

end
