(* ===== verification/Loops.thy ===== *)
theory Loops
  imports Bytes
begin

section \<open>Loops, buffers and weakest preconditions\<close>

text \<open>
  The constructs of the imperative parts of the code: reading and changing the state,
  indexing a slice (a panic out of range), a \<open>while\<close> loop with a measure as fuel, and a
  loop whose count is known. \<open>wp\<close> is the total-correctness reading of a program: it ends,
  its result satisfies the postcondition, and it panics only in the ways that are listed.
  Errors returned with \<open>?\<close> are always allowed.
\<close>

subsection \<open>State and slices\<close>

definition getp :: "('s \<Rightarrow> 'a) \<Rightarrow> ('s, 'a) prog" where
  "getp f s = (Ok (f s), s)"

definition get_state :: "('s, 's) prog" where
  "get_state s = (Ok s, s)"

definition modp :: "('s \<Rightarrow> 's) \<Rightarrow> ('s, unit) prog" where
  "modp f s = (Ok (), f s)"

definition slice_get :: "'a list \<Rightarrow> nat \<Rightarrow> 'a outcome" where
  "slice_get xs i = (if i < length xs then Ok (xs ! i) else Panic OutOfBounds)"

definition slice_set :: "'a list \<Rightarrow> nat \<Rightarrow> 'a \<Rightarrow> 'a list outcome" where
  "slice_set xs i v = (if i < length xs then Ok (xs[i := v]) else Panic OutOfBounds)"

text \<open>\<open>xs[a..]\<close> and \<open>xs[a..b]\<close>: the bounds are checked.\<close>

definition slice_from :: "'a list \<Rightarrow> nat \<Rightarrow> 'a list outcome" where
  "slice_from xs a = (if a \<le> length xs then Ok (drop a xs) else Panic OutOfBounds)"

definition slice_range :: "'a list \<Rightarrow> nat \<Rightarrow> nat \<Rightarrow> 'a list outcome" where
  "slice_range xs a b = (if a \<le> b \<and> b \<le> length xs then Ok (take (b - a) (drop a xs)) else Panic OutOfBounds)"

definition mulw :: "'w::len word \<Rightarrow> 'w word \<Rightarrow> 'w word outcome" where
  "mulw a b = (if unat a * unat b < 2 ^ LENGTH('w) then Ok (a * b) else Panic ArithOverflow)"

lemma mulw_Ok: "mulw a b = Ok c \<Longrightarrow> unat c = unat a * unat b"
  by (auto simp: mulw_def unat_word_ariths split: if_splits)

lemma slice_set_Ok: "slice_set xs i v = Ok ys \<longleftrightarrow> i < length xs \<and> ys = xs[i := v]"
  by (auto simp: slice_set_def)

lemma slice_get_Ok: "slice_get xs i = Ok v \<longleftrightarrow> i < length xs \<and> v = xs ! i"
  by (auto simp: slice_get_def)

subsection \<open>Loops\<close>

primrec timesp :: "nat \<Rightarrow> ('s, unit) prog \<Rightarrow> ('s, unit) prog" where
  "timesp 0 m = retp ()"
| "timesp (Suc n) m = bindp m (\<lambda>_. timesp n m)"

primrec whilep :: "nat \<Rightarrow> ('s \<Rightarrow> bool) \<Rightarrow> ('s, unit) prog \<Rightarrow> ('s, unit) prog" where
  "whilep 0 c b s = (Diverge, s)"
| "whilep (Suc n) c b s = (if c s then bindp b (\<lambda>_. whilep n c b) s else (Ok (), s))"

text \<open>\<open>loop \<mu> c b\<close> is \<open>while c { b }\<close> with as much fuel as the measure \<open>\<mu>\<close> of its first state allows.\<close>

definition loop :: "('s \<Rightarrow> nat) \<Rightarrow> ('s \<Rightarrow> bool) \<Rightarrow> ('s, unit) prog \<Rightarrow> ('s, unit) prog" where
  "loop \<mu> c b s = whilep (Suc (\<mu> s)) c b s"

text \<open>\<open>for i in is { f i }\<close>.\<close>

primrec forp :: "nat list \<Rightarrow> (nat \<Rightarrow> ('s, unit) prog) \<Rightarrow> ('s, unit) prog" where
  "forp [] f = retp ()"
| "forp (i # is) f = bindp (f i) (\<lambda>_. forp is f)"

subsection \<open>Weakest preconditions\<close>

named_theorems wp_simps \<open>weakest preconditions of the basic programs\<close>

definition wp :: "('s, 'a) prog \<Rightarrow> ('a \<Rightarrow> 's \<Rightarrow> bool) \<Rightarrow> panic set \<Rightarrow> 's \<Rightarrow> bool" where
  "wp m Q P s = (case m s of (Ok a, s') \<Rightarrow> Q a s' | (Err e, s') \<Rightarrow> True
     | (Panic p, s') \<Rightarrow> p \<in> P | (Diverge, s') \<Rightarrow> False)"

lemma wp_retp [wp_simps]: "wp (retp a) Q P s = Q a s"
  by (simp add: wp_def retp_def)

lemma wp_getp [wp_simps]: "wp (getp f) Q P s = Q (f s) s"
  by (simp add: wp_def getp_def)

lemma wp_get_state [wp_simps]: "wp get_state Q P s = Q s s"
  by (simp add: wp_def get_state_def)

lemma wp_modp [wp_simps]: "wp (modp f) Q P s = Q () (f s)"
  by (simp add: wp_def modp_def)

lemma wp_failp [wp_simps]: "wp (failp k) Q P s"
  by (simp add: wp_def failp_def)

lemma wp_bindp [wp_simps]: "wp (bindp m f) Q P s = wp m (\<lambda>a. wp (f a) Q P) P s"
  by (simp add: wp_def bindp_def split: prod.splits outcome.splits)

lemma wp_liftp: "wp (liftp r) Q P s =
   (case r of Ok a \<Rightarrow> Q a s | Err e \<Rightarrow> True | Panic p \<Rightarrow> p \<in> P | Diverge \<Rightarrow> False)"
  by (simp add: wp_def liftp_def split: outcome.split)

lemma wp_panic [wp_simps]: "wp (liftp (Panic p)) Q P s = (p \<in> P)"
  by (simp add: wp_liftp)

lemma wp_liftp_Ok [wp_simps]: "wp (liftp (Ok a)) Q P s = Q a s"
  by (simp add: wp_liftp)

lemma wp_slice_get [wp_simps]:
  "wp (liftp (slice_get xs i)) Q P s = (if i < length xs then Q (xs ! i) s else OutOfBounds \<in> P)"
  by (simp add: wp_liftp slice_get_def)

lemma wp_slice_set [wp_simps]:
  "wp (liftp (slice_set xs i v)) Q P s = (if i < length xs then Q (xs[i := v]) s else OutOfBounds \<in> P)"
  by (simp add: wp_liftp slice_set_def)

lemma wp_unwrap_option [wp_simps]:
  "wp (liftp (unwrap_option x)) Q P s = (case x of None \<Rightarrow> UnwrapFailed \<in> P | Some a \<Rightarrow> Q a s)"
  by (simp add: wp_liftp unwrap_option_def split: option.split)

lemma wp_addw [wp_simps]:
  "wp (liftp (addw a (b :: 'w::len word))) Q P s =
   (if unat a + unat b < 2 ^ LENGTH('w) then Q (a + b) s else ArithOverflow \<in> P)"
  by (simp add: wp_liftp addw_def)

lemma wp_mulw [wp_simps]:
  "wp (liftp (mulw a (b :: 'w::len word))) Q P s =
   (if unat a * unat b < 2 ^ LENGTH('w) then Q (a * b) s else ArithOverflow \<in> P)"
  by (simp add: wp_liftp mulw_def)

lemma wp_subw [wp_simps]: "wp (liftp (subw a b)) Q P s = (if b \<le> a then Q (a - b) s else ArithOverflow \<in> P)"
  by (simp add: wp_liftp subw_def)

lemma wp_subn [wp_simps]: "wp (liftp (subn a b)) Q P s = (if b \<le> a then Q (a - b) s else ArithOverflow \<in> P)"
  by (simp add: wp_liftp subn_def)

lemma wp_read_exact [wp_simps]:
  "wp (read_exact n) Q P bs = (n \<le> length bs \<longrightarrow> Q (take n bs) (drop n bs))"
  by (simp add: wp_def read_exact_def)

lemma wp_zoom [wp_simps]: "wp (zoom get put m) Q P s = wp m (\<lambda>a t. Q a (put t s)) P (get s)"
  by (simp add: wp_def zoom_def split: prod.splits outcome.splits)

lemma wp_mono:
  "wp m Q P s \<Longrightarrow> (\<And>a s'. Q a s' \<Longrightarrow> Q' a s') \<Longrightarrow> P \<subseteq> P' \<Longrightarrow> wp m Q' P' s"
  by (auto simp: wp_def split: prod.splits outcome.splits)

lemma wp_conj: "wp m Q P s \<Longrightarrow> wp m Q' P s \<Longrightarrow> wp m (\<lambda>a s'. Q a s' \<and> Q' a s') P s"
  by (auto simp: wp_def split: prod.splits outcome.splits)

lemma wp_timesp:
  assumes "I s" "\<And>t. I t \<Longrightarrow> wp m (\<lambda>_. I) P t" "\<And>t. I t \<Longrightarrow> Q () t"
  shows "wp (timesp n m) Q P s"
  using assms(1)
proof (induction n arbitrary: s)
  case (Suc n)
  show ?case unfolding timesp.simps wp_bindp
    by (rule wp_mono [OF assms(2) [OF Suc.prems]]) (auto intro: Suc.IH)
qed (simp add: assms wp_retp)

lemma wp_whilep:
  assumes "I s" "\<mu> s < n"
    and body: "\<And>t. I t \<Longrightarrow> c t \<Longrightarrow> wp b (\<lambda>_ t'. I t' \<and> \<mu> t' < \<mu> t) P t"
    and post: "\<And>t. I t \<Longrightarrow> \<not> c t \<Longrightarrow> Q () t"
  shows "wp (whilep n c b) Q P s"
  using assms(1,2)
proof (induction n arbitrary: s)
  case 0
  then show ?case by simp
next
  case (Suc n)
  show ?case
  proof (cases "c s")
    case True
    have "wp b (\<lambda>_ t'. I t' \<and> \<mu> t' < \<mu> s) P s" using body Suc.prems True by blast
    then have "wp b (\<lambda>_. wp (whilep n c b) Q P) P s"
      by (rule wp_mono) (use Suc in auto)
    then have "wp (bindp b (\<lambda>_. whilep n c b)) Q P s" by (simp add: wp_bindp)
    then show ?thesis using True by (simp add: wp_def)
  next
    case False
    then show ?thesis using post Suc.prems by (simp add: wp_def)
  qed
qed

lemma wp_loop:
  assumes "I s"
    and "\<And>t. I t \<Longrightarrow> c t \<Longrightarrow> wp b (\<lambda>_ t'. I t' \<and> \<mu> t' < \<mu> t) P t"
    and "\<And>t. I t \<Longrightarrow> \<not> c t \<Longrightarrow> Q () t"
  shows "wp (loop \<mu> c b) Q P s"
proof -
  have "wp (whilep (Suc (\<mu> s)) c b) Q P s"
    by (rule wp_whilep [where I = I and \<mu> = \<mu>]) (use assms in auto)
  then show ?thesis by (simp add: wp_def loop_def)
qed

lemma wp_forp:
  assumes "I s" "\<And>t i. i \<in> set is \<Longrightarrow> I t \<Longrightarrow> wp (f i) (\<lambda>_. I) P t" "\<And>t. I t \<Longrightarrow> Q () t"
  shows "wp (forp is f) Q P s"
  using assms(1,2)
proof (induction "is" arbitrary: s)
  case (Cons i "is")
  have "wp (f i) (\<lambda>_. wp (forp is f) Q P) P s"
    by (rule wp_mono [of _ "\<lambda>_. I"]) (use Cons in auto)
  then show ?case by (simp add: wp_bindp)
qed (simp add: assms wp_retp)

lemma wp_for_upt:
  assumes "I 0 s" "\<And>t i. i < n \<Longrightarrow> I i t \<Longrightarrow> wp (f i) (\<lambda>_. I (Suc i)) P t"
  shows "wp (forp [0..<n] f) (\<lambda>_. I n) P s"
proof -
  have "wp (forp [i..<n] f) (\<lambda>_. I n) P t" if "I i t" "i \<le> n" for i t
    using that
  proof (induction "n - i" arbitrary: i t)
    case 0
    then show ?case by (simp add: wp_retp)
  next
    case (Suc k)
    then have "[i..<n] = i # [Suc i..<n]" by (simp add: upt_conv_Cons)
    moreover have "wp (f i) (\<lambda>_. wp (forp [Suc i..<n] f) (\<lambda>_. I n) P) P t"
      by (rule wp_mono [OF assms(2)]) (use Suc in auto)
    ultimately show ?case by (simp add: wp_bindp)
  qed
  then show ?thesis using assms(1) by blast
qed

lemma wp_outcome:
  "wp m Q P s \<Longrightarrow> m s = (r, s') \<Longrightarrow>
   (\<exists>a. r = Ok a \<and> Q a s') \<or> (\<exists>e. r = Err e) \<or> (\<exists>p \<in> P. r = Panic p)"
  by (auto simp: wp_def split: outcome.splits)

lemma wp_terminates: "(\<And>s. wp m Q P s) \<Longrightarrow> terminates m"
  unfolding terminates_def by (metis eq_fst_iff outcome.distinct(5,9,11) wp_outcome)

lemma loop_unfold:
  assumes "\<And>s s'. c s \<Longrightarrow> b s = (Ok (), s') \<Longrightarrow> \<mu> s' < \<mu> s"
  shows "loop \<mu> c b s = (if c s then bindp b (\<lambda>_. loop \<mu> c b) s else (Ok (), s))"
proof -
  have fuel: "\<mu> s < n \<Longrightarrow> \<mu> s < k \<Longrightarrow> whilep n c b s = whilep k c b s" for n k s
  proof (induction n arbitrary: k s)
    case (Suc n)
    then obtain k' where k: "k = Suc k'" by (cases k) auto
    show ?case
    proof (cases "c s")
      case True
      have "bindp b (\<lambda>_. whilep n c b) s = bindp b (\<lambda>_. whilep k' c b) s"
      proof (rule bindp_cong)
        fix a :: unit and t assume "b s = (Ok a, t)"
        then have "\<mu> t < \<mu> s" using assms True by simp
        then show "whilep n c b t = whilep k' c b t" by (intro Suc.IH) (use Suc.prems k in auto)
      qed auto
      then show ?thesis by (simp add: k True)
    qed (simp add: k)
  qed simp
  have "bindp b (\<lambda>_. whilep (\<mu> s) c b) s = bindp b (\<lambda>_. loop \<mu> c b) s" if "c s"
  proof (rule bindp_cong)
    fix a :: unit and t assume "b s = (Ok a, t)"
    then have "\<mu> t < \<mu> s" using assms that by simp
    then show "whilep (\<mu> s) c b t = loop \<mu> c b t" unfolding loop_def by (intro fuel) auto
  qed auto
  then show ?thesis by (simp add: loop_def)
qed

subsection \<open>Programs without errors\<close>

definition infallible :: "('s, 'a) prog \<Rightarrow> bool" where
  "infallible m \<longleftrightarrow> (\<forall>s e. fst (m s) \<noteq> Err e)"

lemma infallibleD: "infallible m \<Longrightarrow> m s \<noteq> (Err e, t)"
  by (metis fst_conv infallible_def)

lemma infallible_bindp: "infallible m \<Longrightarrow> (\<And>a. infallible (f a)) \<Longrightarrow> infallible (bindp m f)"
  unfolding infallible_def bindp_def
  by (auto split: prod.splits outcome.splits) (metis fst_conv)

lemma infallible_liftp: "(\<And>e. r \<noteq> Err e) \<Longrightarrow> infallible (liftp r)"
  by (simp add: infallible_def liftp_def)

lemma infallible_state: "infallible (retp a)" "infallible get_state" "infallible (getp f)" "infallible (modp g)"
  by (simp_all add: infallible_def retp_def get_state_def getp_def modp_def)

lemma infallible_forp: "(\<And>i. infallible (f i)) \<Longrightarrow> infallible (forp is f)"
  by (induction "is") (simp_all add: infallible_bindp infallible_state)

lemma no_Err [simp]:
  "mulw a b \<noteq> Err e" "addw a b \<noteq> Err e" "subw a b \<noteq> Err e" "subn i j \<noteq> Err e"
  "slice_get xs i \<noteq> Err e" "slice_set xs i v \<noteq> Err e" "unwrap_option x \<noteq> Err e"
  by (simp_all add: mulw_def addw_def subw_def subn_def slice_get_def slice_set_def unwrap_option_def
      split: option.split)

lemmas infallible = infallible_bindp infallible_forp infallible_liftp infallible_state

subsection \<open>What a program leaves alone\<close>

named_theorems keeps_intros \<open>programs that leave a view of the state alone\<close>

definition keeps :: "('s \<Rightarrow> 'v) \<Rightarrow> ('s, 'a) prog \<Rightarrow> bool" where
  "keeps f m \<longleftrightarrow> (\<forall>s. f (snd (m s)) = f s)"

lemma keepsD: "keeps f m \<Longrightarrow> m s = (r, t) \<Longrightarrow> f t = f s"
  by (metis keeps_def snd_conv)

lemma keeps_bindp [keeps_intros]: "keeps f m \<Longrightarrow> (\<And>a. keeps f (k a)) \<Longrightarrow> keeps f (bindp m k)"
  unfolding keeps_def bindp_def
  by (auto split: prod.splits outcome.splits) (metis snd_conv)+

lemma keeps_basic [keeps_intros]:
  "keeps f (retp a)" "keeps f (liftp r)" "keeps f (failp k)" "keeps f get_state" "keeps f (getp g)"
  by (simp_all add: keeps_def retp_def liftp_def failp_def get_state_def getp_def)

lemma keeps_if [keeps_intros]: "(b \<Longrightarrow> keeps f m) \<Longrightarrow> (\<not> b \<Longrightarrow> keeps f k) \<Longrightarrow> keeps f (if b then m else k)"
  by simp

lemma keeps_modp: "(\<And>s. f (g s) = f s) \<Longrightarrow> keeps f (modp g)"
  by (simp add: keeps_def modp_def)

lemma keeps_zoom: "(\<And>s t. f (put t s) = f s) \<Longrightarrow> keeps f (zoom get put m)"
  by (simp add: keeps_def zoom_def case_prod_beta)

lemma keeps_zoom_part: "keeps g m \<Longrightarrow> (\<And>s t. g t = g (get s) \<Longrightarrow> f (put t s) = f s) \<Longrightarrow> keeps f (zoom get put m)"
  by (simp add: keeps_def zoom_def case_prod_beta)

subsection \<open>The same for outcomes\<close>

definition wpo :: "'a outcome \<Rightarrow> ('a \<Rightarrow> bool) \<Rightarrow> panic set \<Rightarrow> bool" where
  "wpo r Q P = (case r of Ok a \<Rightarrow> Q a | Err e \<Rightarrow> True | Panic p \<Rightarrow> p \<in> P | Diverge \<Rightarrow> False)"

lemma wpo_simps [simp]:
  "wpo (Ok a) Q P = Q a" "wpo (Err e) Q P" "wpo (Panic p) Q P = (p \<in> P)" "\<not> wpo Diverge Q P"
  by (simp_all add: wpo_def)

lemma wpo_bindo: "wpo (bindo r f) Q P = wpo r (\<lambda>a. wpo (f a) Q P) P"
  by (cases r) auto

lemma wpo_mono: "wpo r Q P \<Longrightarrow> (\<And>a. r = Ok a \<Longrightarrow> Q a \<Longrightarrow> Q' a) \<Longrightarrow> P \<subseteq> P' \<Longrightarrow> wpo r Q' P'"
  by (cases r) auto

lemma wpo_calm: "calm r \<Longrightarrow> (\<And>a. r = Ok a \<Longrightarrow> Q a) \<Longrightarrow> wpo r Q P"
  by (cases r) auto

lemma wp_liftp_wpo: "wp (liftp r) Q P s = wpo r (\<lambda>a. Q a s) P"
  by (simp add: wp_liftp wpo_def)

lemma wpo_cursor: "wpo (cursor m bs) Q P = wp m (\<lambda>a r. Q (a, r)) P bs"
  by (simp add: cursor_def wpo_def wp_def split: prod.splits outcome.splits)

lemma wpo_on_buffer: "wpo (on_buffer m bs) Q P = wp m (\<lambda>a r. Q a) P bs"
  by (simp add: on_buffer_def wpo_def wp_def split: prod.splits outcome.splits)

lemma wpo_outcome:
  "wpo r Q P \<Longrightarrow> (\<exists>a. r = Ok a \<and> Q a) \<or> (\<exists>e. r = Err e) \<or> (\<exists>p \<in> P. r = Panic p)"
  by (cases r) auto

lemma wpo_arith [simp]:
  "wpo (addw a (b :: 'w::len word)) Q P = (if unat a + unat b < 2 ^ LENGTH('w) then Q (a + b) else ArithOverflow \<in> P)"
  "wpo (subw a b) Q P = (if b \<le> a then Q (a - b) else ArithOverflow \<in> P)"
  "wpo (subn i j) Q' P = (if j \<le> i then Q' (i - j) else ArithOverflow \<in> P)"
  by (simp_all add: addw_def subw_def subn_def)

subsection \<open>What holds when a program succeeds\<close>

definition post :: "('s, 'a) prog \<Rightarrow> ('a \<Rightarrow> 's \<Rightarrow> bool) \<Rightarrow> 's \<Rightarrow> bool" where
  "post m Q s \<longleftrightarrow> (\<forall>a t. m s = (Ok a, t) \<longrightarrow> Q a t)"

named_theorems post_simps \<open>postconditions of the basic programs\<close>

lemma postD: "post m Q s \<Longrightarrow> m s = (Ok a, t) \<Longrightarrow> Q a t"
  by (simp add: post_def)

lemma post_bindp [post_simps]: "post (bindp m f) Q s = post m (\<lambda>a. post (f a) Q) s"
  by (auto simp: post_def bindp_eq_Ok)

lemma post_basic [post_simps]:
  "post (retp a) Q s = Q a s" "post get_state Q' s = Q' s s" "post (getp f) Q'' s = Q'' (f s) s"
  "post (modp g) R s = R () (g s)" "post (failp k) Q s" "post (liftp (Ok a)) Q s = Q a s"
  "post (liftp (Err e)) Q s" "post (liftp (Panic p)) Q s"
  by (simp_all add: post_def retp_def get_state_def getp_def modp_def failp_def liftp_def)

lemma post_liftp: "post (liftp r) Q s = (\<forall>a. r = Ok a \<longrightarrow> Q a s)"
  by (auto simp: post_def liftp_def)

lemma post_zoom [post_simps]: "post (zoom get put m) Q s = post m (\<lambda>a t. Q a (put t s)) (get s)"
  by (auto simp: post_def zoom_def split: prod.splits)

lemma post_mono: "post m Q s \<Longrightarrow> (\<And>a t. Q a t \<Longrightarrow> Q' a t) \<Longrightarrow> post m Q' s"
  by (auto simp: post_def)

lemma post_all: "(\<And>a t. Q a t) \<Longrightarrow> post m Q s"
  by (simp add: post_def)

lemma post_keeps: "keeps f m \<Longrightarrow> (\<And>a t. f t = f s \<Longrightarrow> Q a t) \<Longrightarrow> post m Q s"
  by (auto simp: post_def dest: keepsD)

end
