(* ===== verification/Message_Laws.thy ===== *)
theory Message_Laws
  imports Message Loops
begin

section \<open>Laws of the message tree\<close>

text \<open>
  What holds for every message, whatever packet it is: a read only moves forward, the
  announced length is the number of bytes written, reads of the library's arrays come to
  an end, and a message written out and read with a template of its shape comes back.
\<close>

subsection \<open>Reads move forward\<close>

lemma forward_vals [suffix_intros]:
  "forward u8_read" "forward (u16_read v)" "forward (u32_read w)" "forward (slice_read bs)"
  by (cases v; cases w; auto simp: u8_read_def u16_read_def u32_read_def slice_read_def
      intro!: suffix_intros)+

lemma forward_trame_read: "\<forall>r \<in> set rs. forward r \<Longrightarrow> forward (trame_read rs)"
  by (induction rs) (auto intro!: suffix_intros)

lemma forward_read_local [suffix_intros]: "forward (read_local n rd)"
  by (auto simp: read_local_def intro!: suffix_intros)

lemma forward_component_read:
  "\<forall>(k, old, r) \<in> set fs. forward r \<Longrightarrow> forward (component_read fs filtering sizes)"
proof (induction fs arbitrary: filtering sizes)
  case Nil
  then show ?case by (simp add: suffix_intros)
next
  case (Cons f fs)
  obtain k old r where "f = (k, old, r)" by (cases f)
  with Cons show ?case by (auto intro!: suffix_intros)
qed

lemma forward_option_read [suffix_intros]: "forward rd \<Longrightarrow> forward (option_read rd)"
  by (auto simp: forward_def option_read_def split: prod.splits outcome.splits)

lemma forward_array_loop: "forward rd \<Longrightarrow> forward (array_loop fuel rd)"
  by (induction fuel) (auto intro!: suffix_intros split: option.split)

lemma forward_array_read [suffix_intros]: "forward rd \<Longrightarrow> forward (array_read rd)"
  using forward_array_loop unfolding forward_def array_read_def by blast

lemma forward_check_read [suffix_intros]: "forward rd \<Longrightarrow> forward (check_read old rd)"
  by (auto simp: check_read_def intro!: suffix_intros)

lemma forward_read_msg [suffix_intros]: "forward (read_msg m)"
proof (induction m rule: read_msg.induct)
  case (5 ms)
  then have "forward (trame_read (map read_msg ms))"
    by (intro forward_trame_read) auto
  then show ?case by (auto intro!: suffix_intros)
next
  case (6 fs)
  then have "forward (component_read (map (\<lambda>(k, m). (k, m, read_msg m)) fs) {} Map.empty)"
    by (intro forward_component_read) fastforce
  then show ?case by (auto intro!: suffix_intros)
qed (auto intro!: suffix_intros)

subsection \<open>The announced length is the written length\<close>

lemma trame_length_written:
  "(\<And>m bs. m \<in> set ms \<Longrightarrow> write_msg m = Ok bs \<Longrightarrow> msg_length m = Ok (length bs))
   \<Longrightarrow> trame_write (map write_msg ms) = Ok bs \<Longrightarrow> trame_length (map msg_length ms) = Ok (length bs)"
  by (induction ms arbitrary: bs) (fastforce simp: bindo_eq_Ok)+

lemma component_length_written:
  "(\<And>k m bs. (k, m) \<in> set fs \<Longrightarrow> write_msg m = Ok bs \<Longrightarrow> msg_length m = Ok (length bs))
   \<Longrightarrow> component_write (map (\<lambda>(k, m). (k, write_msg m, options m)) fs) F = Ok bs
   \<Longrightarrow> component_length (map (\<lambda>(k, m). (k, msg_length m, options m)) fs) F = Ok (length bs)"
proof (induction fs arbitrary: bs F)
  case Nil
  then show ?case by simp
next
  case (Cons f fs)
  obtain k m where f: "f = (k, m)" by (cases f)
  have IH: "component_write (map (\<lambda>(k, m). (k, write_msg m, options m)) fs) G = Ok cs
      \<Longrightarrow> component_length (map (\<lambda>(k, m). (k, msg_length m, options m)) fs) G = Ok (length cs)" for G cs
    using Cons.IH Cons.prems(1) by (meson list.set_intros(2))
  have m: "write_msg m = Ok as \<Longrightarrow> msg_length m = Ok (length as)" for as
    using Cons.prems(1) f by auto
  show ?case
  proof (cases "k \<in> F")
    case True
    with Cons.prems(2) IH f show ?thesis by simp
  next
    case False
    with Cons.prems(2) f obtain as opt cs where
      "write_msg m = Ok as" "options m = Ok opt" "bs = as @ cs"
      "component_write (map (\<lambda>(k, m). (k, write_msg m, options m)) fs) (add_filter opt F) = Ok cs"
      by (auto simp: bindo_eq_Ok)
    with IH m f False show ?thesis by simp
  qed
qed

lemma msg_length_written: "write_msg m = Ok bs \<Longrightarrow> msg_length m = Ok (length bs)"
proof (induction m arbitrary: bs rule: write_msg.induct)
  case (5 ms)
  then show ?case by (auto intro!: trame_length_written)
next
  case (6 fs)
  show ?case
    using 6(1) component_length_written [of fs "{}" bs] 6(2) by auto
next
  case (9 x)
  then show ?case by (cases x) (auto simp: option_write_def option_length_def)
next
  case (10 ms t)
  then show ?case by (auto intro!: trame_length_written)
qed (auto simp: u8_write_def u8_length_def u16_write_def u16_length_def u32_write_def u32_length_def
    slice_write_def slice_length_def split: val.splits)

text \<open>Writing never fails with an error: it succeeds or a closure panics.\<close>

lemma to_vec_Ok [simp]: "to_vec m = Ok bs \<longleftrightarrow> write_msg m = Ok bs"
  by (cases "write_msg m") (auto simp: to_vec_def)

subsection \<open>Reading back what was written\<close>

text \<open>
  \<open>reads_as fin t m r\<close>: reading the bytes of \<open>m\<close> with the template \<open>t\<close> gives \<open>r\<close>. With
  \<open>fin\<close> the bytes of \<open>m\<close> are all there is (the end of a packet, or a field cut out by
  its size); without it other bytes may follow. A field that is skipped keeps the
  template's value, whatever \<open>m\<close> holds there; an array is read into the template's own
  array; everything else comes back as it was.
\<close>

inductive reads_as :: "bool \<Rightarrow> message \<Rightarrow> message \<Rightarrow> message \<Rightarrow> bool"
  and reads_list :: "bool \<Rightarrow> message list \<Rightarrow> message list \<Rightarrow> message list \<Rightarrow> bool"
  and reads_elems :: "message \<Rightarrow> message list \<Rightarrow> message list \<Rightarrow> bool"
  and reads_fields :: "bool \<Rightarrow> string set \<Rightarrow> (string \<rightharpoonup> nat) \<Rightarrow> (string \<times> message) list
    \<Rightarrow> (string \<times> message) list \<Rightarrow> (string \<times> message) list \<Rightarrow> bool"
where
  ra_u8: "reads_as fin (MU8 a) (MU8 b) (MU8 b)"
| ra_u16_be: "reads_as fin (MU16 (BE a)) (MU16 (BE b)) (MU16 (BE b))"
| ra_u16_le: "reads_as fin (MU16 (LE a)) (MU16 (LE b)) (MU16 (LE b))"
| ra_u32_be: "reads_as fin (MU32 (BE c)) (MU32 (BE d)) (MU32 (BE d))"
| ra_u32_le: "reads_as fin (MU32 (LE c)) (MU32 (LE d)) (MU32 (LE d))"
| ra_slice: "as \<noteq> [] \<Longrightarrow> length as = length bs \<Longrightarrow> reads_as fin (MSlice as) (MSlice bs) (MSlice bs)"
| ra_rest: "reads_as True (MSlice []) (MSlice bs) (MSlice bs)"
| ra_trame: "reads_list fin ts ms rs \<Longrightarrow> reads_as fin (MTrame ts) (MTrame ms) (MTrame rs)"
| ra_component: "reads_fields fin {} Map.empty ts' ms' rs'
    \<Longrightarrow> reads_as fin (MComponent ts') (MComponent ms') (MComponent rs')"
| ra_check: "reads_as fin t m r \<Longrightarrow> msg_eq t r \<Longrightarrow> reads_as fin (MCheck t) (MCheck m) (MCheck r)"
| ra_dyn: "reads_as fin t m r \<Longrightarrow> reads_as fin (MDyn t f) (MDyn m g) (MDyn r f)"
| ra_none: "reads_as fin (MOpt None) (MOpt None) (MOpt None)"
| ra_some: "reads_as fin t m r \<Longrightarrow> reads_as fin (MOpt (Some t)) (MOpt (Some m)) (MOpt (Some r))"
| ra_absent: "fst (read_msg t []) = Err e \<Longrightarrow> reads_as True (MOpt (Some t)) (MOpt None) (MOpt None)"
| ra_array: "reads_elems t ms rs \<Longrightarrow> fst (read_msg t []) = Err e
    \<Longrightarrow> reads_as True (MArray [] (Some t)) (MArray ms u) (MArray rs (Some t))"
| rl_nil: "reads_list fin [] [] []"
| rl_cons: "reads_as (fin \<and> ts = []) t m r \<Longrightarrow> reads_list fin ts ms rs
    \<Longrightarrow> reads_list fin (t # ts) (m # ms) (r # rs)"
| re_nil: "reads_elems t [] []"
| re_cons: "reads_as False t m r \<Longrightarrow> write_msg m \<noteq> Ok [] \<Longrightarrow> reads_elems t ms rs
    \<Longrightarrow> reads_elems t (m # ms) (r # rs)"
| rf_nil: "reads_fields fin F S [] [] []"
| rf_skip: "name \<in> F \<Longrightarrow> reads_fields fin F S ts' ms' rs'
    \<Longrightarrow> reads_fields fin F S ((name, t) # ts') ((name, m) # ms') ((name, t) # rs')"
| rf_plain: "name \<notin> F \<Longrightarrow> S name = None \<Longrightarrow> reads_as (fin \<and> ts' = []) t m r
    \<Longrightarrow> options m = Ok opt \<Longrightarrow> options r = Ok opt
    \<Longrightarrow> reads_fields fin (add_filter opt F) (add_size opt S) ts' ms' rs'
    \<Longrightarrow> reads_fields fin F S ((name, t) # ts') ((name, m) # ms') ((name, r) # rs')"
| rf_sized: "name \<notin> F \<Longrightarrow> S name = Some n \<Longrightarrow> reads_as True t m r
    \<Longrightarrow> write_msg m = Ok bs \<Longrightarrow> length bs = n
    \<Longrightarrow> options m = Ok opt \<Longrightarrow> options r = Ok opt
    \<Longrightarrow> reads_fields fin (add_filter opt F) (add_size opt S) ts' ms' rs'
    \<Longrightarrow> reads_fields fin F S ((name, t) # ts') ((name, m) # ms') ((name, r) # rs')"

lemma reads_fields_Nil: "reads_fields fin F S [] ms rs \<Longrightarrow> ms = [] \<and> rs = []"
  by (auto elim: reads_fields.cases)

lemma reads_list_Nil: "reads_list fin [] ms rs \<Longrightarrow> ms = [] \<and> rs = []"
  by (auto elim: reads_list.cases)

lemma val_write_read [simp]:
  "u16_read (BE a) (u16_be b @ rest) = (Ok (BE b), rest)"
  "u16_read (LE a) (u16_le b @ rest) = (Ok (LE b), rest)"
  "u32_read (BE c) (u32_be d @ rest) = (Ok (BE d), rest)"
  "u32_read (LE c) (u32_le d @ rest) = (Ok (LE d), rest)"
  by (simp_all add: u16_read_def u32_read_def retp_def)

lemma read_local_append:
  "rd bs = (Ok m, s') \<Longrightarrow> length bs = n \<Longrightarrow> read_local n rd (bs @ rest) = (Ok m, rest)"
  by (simp add: read_local_def on_buffer_def liftp_def)

lemma array_loop_end: "fst (rd []) = Err e \<Longrightarrow> forward rd \<Longrightarrow> array_loop (Suc fuel) rd [] = (Ok [], [])"
  by (cases "rd []") (auto simp: option_read_def retp_def bindp_def dest: forwardD)

lemma array_loop_concat:
  assumes "\<And>x rest. x \<in> set xs \<Longrightarrow> f x \<noteq> [] \<and> rd (f x @ rest) = (Ok (g x), rest)" "rd [] = (Err e, [])"
  shows "length (concat (map f xs)) < fuel \<Longrightarrow> array_loop fuel rd (concat (map f xs)) = (Ok (map g xs), [])"
  using assms(1)
proof (induction xs arbitrary: fuel)
  case Nil
  then show ?case using assms(2) by (cases fuel) (auto simp: option_read_def bindp_def retp_def)
next
  case (Cons x xs)
  obtain n where n: "fuel = Suc n" using Cons.prems(1) by (cases fuel) auto
  have "f x \<noteq> []" "rd (f x @ concat (map f xs)) = (Ok (g x), concat (map f xs))" using Cons.prems(2) by auto
  moreover have "array_loop n rd (concat (map f xs)) = (Ok (map g xs), [])"
    using Cons.prems n calculation(1) by (intro Cons.IH) (cases "f x", auto)
  ultimately show ?case by (simp add: n option_read_def bindp_def retp_def)
qed

text \<open>An array of encoded elements is read element by element, to the end of its bytes.\<close>

lemma array_read_concat:
  "(\<And>x rest. x \<in> set xs \<Longrightarrow> f x \<noteq> [] \<and> rd (f x @ rest) = (Ok (g x), rest)) \<Longrightarrow> rd [] = (Err e, [])
   \<Longrightarrow> array_read rd (concat (map f xs)) = (Ok (map g xs), [])"
  unfolding array_read_def by (rule array_loop_concat) auto

lemma read_written_aux:
  "(reads_as fin t m r \<longrightarrow> (\<forall>bs rest. write_msg m = Ok bs \<longrightarrow> (fin \<longrightarrow> rest = []) \<longrightarrow>
      read_msg t (bs @ rest) = (Ok r, rest))) \<and>
   (reads_list fin' ts ms rs \<longrightarrow> (\<forall>bs rest. trame_write (map write_msg ms) = Ok bs \<longrightarrow> (fin' \<longrightarrow> rest = []) \<longrightarrow>
      trame_read (map read_msg ts) (bs @ rest) = (Ok rs, rest))) \<and>
   (reads_elems t' ms' rs' \<longrightarrow> (\<forall>bs e fuel. trame_write (map write_msg ms') = Ok bs \<longrightarrow>
      fst (read_msg t' []) = Err e \<longrightarrow> length bs < fuel \<longrightarrow>
      array_loop fuel (read_msg t') bs = (Ok rs', []))) \<and>
   (reads_fields fin'' F S tf mf rf \<longrightarrow> (\<forall>bs rest.
      component_write (map (\<lambda>(k, m). (k, write_msg m, options m)) mf) F = Ok bs \<longrightarrow> (fin'' \<longrightarrow> rest = []) \<longrightarrow>
      component_read (map (\<lambda>(k, m). (k, m, read_msg m)) tf) F S (bs @ rest) = (Ok rf, rest)))"
proof (induction rule: reads_as_reads_list_reads_elems_reads_fields.induct)
  case (ra_slice as bs fin)
  then show ?case by (auto simp: slice_write_def slice_read_def retp_def)
next
  case (ra_rest bs)
  then show ?case by (simp add: slice_write_def slice_read_def retp_def read_to_end_def)
next
  case (ra_check fin t m r)
  then show ?case by (simp add: check_read_def retp_def)
next
  case (ra_some fin t m r)
  then show ?case by (simp add: option_write_def option_read_def retp_def)
next
  case (ra_absent t e)
  have "forward (read_msg t)" by (rule forward_read_msg)
  with ra_absent show ?case
    by (cases "read_msg t []")
      (auto simp: option_write_def option_read_def retp_def bindp_def dest: forwardD)
next
  case (ra_array t ms rs e u)
  then have "array_read (read_msg t) bs = (Ok rs, [])" if "trame_write (map write_msg ms) = Ok bs" for bs
    using that by (simp add: array_read_def del: array_loop.simps)
  then show ?case by (auto simp: retp_def)
next
  case (re_nil t)
  have "array_loop fuel (read_msg t) [] = (Ok [], [])" if "fst (read_msg t []) = Err e" "0 < fuel" for e fuel
    using that array_loop_end [of "read_msg t" e] forward_read_msg by (metis gr0_conv_Suc)
  then show ?case by auto
next
  case (re_cons t m r ms rs)
  show ?case
  proof (intro allI impI)
    fix bs e fuel
    assume w: "trame_write (map write_msg (m # ms)) = Ok bs"
      and e: "fst (read_msg t []) = Err e" and fuel: "length bs < fuel"
    from w obtain as cs where as: "write_msg m = Ok as" and cs: "trame_write (map write_msg ms) = Ok cs"
      and bs: "bs = as @ cs" by (auto simp: bindo_eq_Ok)
    have ne: "as \<noteq> []" using re_cons as by auto
    from fuel obtain k where k: "fuel = Suc k" by (cases fuel) auto
    have "length cs < k" using ne fuel bs k by (cases as) auto
    then have "array_loop k (read_msg t) cs = (Ok rs, [])"
      using re_cons cs e by blast
    moreover have "read_msg t (as @ cs) = (Ok r, cs)" using re_cons as by auto
    ultimately show "array_loop fuel (read_msg t) bs = (Ok (r # rs), [])"
      by (simp add: k bs bindp_def option_read_def retp_def)
  qed
next
  case (rl_cons fin ts t m r ms rs)
  have nil: "ts = [] \<Longrightarrow> ms = [] \<and> rs = []" using rl_cons.hyps(2) reads_list_Nil by blast
  show ?case
  proof (cases "ts = []")
    case True
    with rl_cons nil show ?thesis by (auto simp: bindo_eq_Ok retp_def)
  next
    case False
    with rl_cons show ?thesis by (fastforce simp: bindo_eq_Ok retp_def)
  qed
next
  case (rf_skip name F fin S ts' ms' rs' t m)
  then show ?case by (auto simp: retp_def)
next
  case (rf_plain name F S fin ts' t m r opt ms' rs')
  have nil: "ts' = [] \<Longrightarrow> ms' = [] \<and> rs' = []" using rf_plain.hyps(6) reads_fields_Nil by blast
  show ?case
  proof (cases "ts' = []")
    case True
    with rf_plain nil show ?thesis by (auto simp: bindo_eq_Ok retp_def)
  next
    case False
    with rf_plain show ?thesis by (fastforce simp: bindo_eq_Ok retp_def)
  qed
next
  case (rf_sized name F S n t m r bs opt fin ts' ms' rs')
  have "read_local n (read_msg t) (bs @ rest) = (Ok r, rest)" for rest
    using rf_sized by (intro read_local_append [where s' = "[]"]) force+
  with rf_sized show ?case by (cases fin) (auto simp: bindo_eq_Ok retp_def)
qed (simp_all add: u8_write_def u16_write_def u32_write_def option_write_def u8_read_def retp_def)

lemma read_written:
  "reads_as fin t m r \<Longrightarrow> write_msg m = Ok bs \<Longrightarrow> (fin \<Longrightarrow> rest = []) \<Longrightarrow>
   read_msg t (bs @ rest) = (Ok r, rest)"
  using read_written_aux [of fin t m r, THEN conjunct1] by blast

text \<open>Every template gives a codec for the messages of its shape.\<close>

interpretation msg: codec write_msg "read_msg t" "\<lambda>m. reads_as False t m m" for t
  by unfold_locales (auto intro: read_written)

subsection \<open>Reads end\<close>

text \<open>
  The bytes a successful read of a template takes at least: those of its fields up to the
  first that may change how the later ones are read.
\<close>

fun is_dyn :: "message \<Rightarrow> bool" where
  "is_dyn (MDyn m f) = True"
| "is_dyn _ = False"

fun min_size :: "message \<Rightarrow> nat" where
  "min_size (MU8 b) = 1"
| "min_size (MU16 v) = 2"
| "min_size (MU32 v) = 4"
| "min_size (MSlice bs) = length bs"
| "min_size (MTrame ms) = sum_list (map min_size ms)"
| "min_size (MComponent []) = 0"
| "min_size (MComponent ((k, m) # fs)) = min_size m + (if is_dyn m then 0 else min_size (MComponent fs))"
| "min_size (MCheck m) = min_size m"
| "min_size (MDyn m f) = min_size m"
| "min_size (MOpt x) = 0"
| "min_size (MArray ms t) = 0"

text \<open>
  The arrays of a template end: what their factories make takes at least one byte, and no
  closure loops.
\<close>

fun arrays_end :: "message \<Rightarrow> bool" where
  "arrays_end (MTrame ms) = (\<forall>m \<in> set ms. arrays_end m)"
| "arrays_end (MComponent fs) = (\<forall>(k, m) \<in> set fs. arrays_end m)"
| "arrays_end (MCheck m) = arrays_end m"
| "arrays_end (MDyn m f) = (arrays_end m \<and> (\<forall>v. f v \<noteq> Diverge))"
| "arrays_end (MOpt (Some m)) = arrays_end m"
| "arrays_end (MArray ms (Some t)) = (0 < min_size t \<and> arrays_end t)"
| "arrays_end _ = True"

lemma consumes_trame_read:
  "(\<And>m. m \<in> set ms \<Longrightarrow> consumes (min_size m) (read_msg m))
   \<Longrightarrow> consumes (sum_list (map min_size ms)) (trame_read (map read_msg ms))"
proof (induction ms)
  case Nil
  show ?case by (simp add: suffix_intros)
next
  case (Cons m ms)
  have "consumes (min_size m + sum_list (map min_size ms)) (bindp (read_msg m)
      (\<lambda>m'. bindp (trame_read (map read_msg ms)) (\<lambda>ms'. retp (m' # ms'))))"
    using Cons by (intro consumes_bindp consumes_bindp_left) (auto intro: suffix_intros)
  then show ?case by simp
qed

lemma forward_component_read_msg [suffix_intros]:
  "forward (component_read (map (\<lambda>(k, m). (k, m, read_msg m)) fs) F S)"
  by (rule forward_component_read) (auto intro: forward_read_msg)

lemma fst_bindp_Ok: "fst (bindp m f s) = Ok b \<Longrightarrow> \<exists>a s'. m s = (Ok a, s') \<and> fst (f a s') = Ok b"
  by (auto simp: bindp_def split: prod.splits outcome.splits)

lemma options_of_read:
  assumes "fst (read_msg t s) = Ok m"
  shows "is_dyn m = is_dyn t" and "\<not> is_dyn t \<Longrightarrow> options m = Ok NoOption"
    and "t = MDyn u f \<Longrightarrow> \<exists>v. options m = f v"
proof -
  have "is_dyn m = is_dyn t \<and> (\<not> is_dyn t \<longrightarrow> options m = Ok NoOption) \<and> (t = MDyn u f \<longrightarrow> (\<exists>v. options m = f v))"
  proof (cases t)
    case (MDyn x g)
    with assms obtain a where "m = MDyn a g" by (auto simp: retp_def dest!: fst_bindp_Ok)
    with MDyn show ?thesis by (simp add: dyn_options_def) blast
  next
    case (MOpt x)
    with assms show ?thesis by (cases x) (auto simp: retp_def dest!: fst_bindp_Ok)
  next
    case (MArray ms x)
    with assms show ?thesis by (cases x) (auto simp: retp_def liftp_def dest!: fst_bindp_Ok)
  qed (use assms in \<open>auto simp: retp_def dest!: fst_bindp_Ok\<close>)
  then show "is_dyn m = is_dyn t" "\<not> is_dyn t \<Longrightarrow> options m = Ok NoOption"
    "t = MDyn u f \<Longrightarrow> \<exists>v. options m = f v" by auto
qed

lemma consumes_fields:
  assumes "consumes n (read_msg m)"
    and "\<not> is_dyn m \<Longrightarrow> consumes k (component_read (map (\<lambda>(k, m). (k, m, read_msg m)) fs) {} Map.empty)"
  shows "consumes (n + (if is_dyn m then 0 else k))
    (component_read (map (\<lambda>(k, m). (k, m, read_msg m)) ((name, m) # fs)) {} Map.empty)"
proof (cases "is_dyn m")
  case True
  then show ?thesis using assms(1) by (auto intro!: consumes_bindp_left suffix_intros)
next
  case False
  have "length s' + (n + k) \<le> length s"
    if "component_read (map (\<lambda>(k, m). (k, m, read_msg m)) ((name, m) # fs)) {} Map.empty s = (Ok r, s')" for s r s'
  proof -
    from that obtain x t where x: "read_msg m s = (Ok x, t)"
      and rest: "bindp (liftp (options x)) (\<lambda>opt. bindp (component_read (map (\<lambda>(k, m). (k, m, read_msg m)) fs)
          (add_filter opt {}) (add_size opt Map.empty)) (\<lambda>r. retp ((name, x) # r))) t = (Ok r, s')"
      by (auto simp: bindp_eq_Ok [of "read_msg m"])
    have "options x = Ok NoOption" using options_of_read(2) [of m s x] x False by simp
    with rest obtain q where "component_read (map (\<lambda>(k, m). (k, m, read_msg m)) fs) {} Map.empty t = (Ok q, s')"
      by (auto simp: bindp_eq_Ok retp_def add_filter_def add_size_def)
    then show ?thesis using consumesD [OF assms(1) x] consumesD [OF assms(2) [OF False]] by fastforce
  qed
  then show ?thesis using False by (auto simp: consumes_def)
qed

lemma consumes_read_msg: "consumes (min_size m) (read_msg m)"
proof (induction m rule: min_size.induct)
  case (5 ms)
  then show ?case by (auto intro!: consumes_bindp_left consumes_trame_read suffix_intros)
next
  case (7 k m fs)
  have rest: "consumes (min_size (MComponent fs)) (component_read (map (\<lambda>(k, m). (k, m, read_msg m)) fs) {} Map.empty)"
    if "\<not> is_dyn m"
    using 7(2) [OF that] by (auto simp: consumes_def bindp_eq_Ok retp_def)
  show ?case
    unfolding read_msg.simps min_size.simps
    by (rule consumes_bindp_left, rule consumes_fields [OF 7(1) rest]) (auto intro: suffix_intros)
next
  case (10 x)
  show ?case by (simp add: forward_read_msg)
next
  case (11 ms t)
  show ?case by (simp add: forward_read_msg)
qed (auto intro!: consumes_bindp_left suffix_intros forward_read_msg consumes_ints [simplified]
    consumes_read_exact consumes_0
    simp: u8_read_def u16_read_def u32_read_def slice_read_def check_read_def
    split: val.split)

lemma terminates_trame_read: "\<forall>r \<in> set rs. terminates r \<Longrightarrow> terminates (trame_read rs)"
  by (induction rs) (auto intro!: terminates_bindp)

lemma terminates_option_read: "terminates rd \<Longrightarrow> terminates (option_read rd)"
  by (auto simp: terminates_def option_read_def split: prod.splits outcome.splits) (metis fst_conv)

lemma array_loop_ends:
  assumes "terminates rd" "consumes (Suc n) rd" "length s < fuel"
  shows "fst (array_loop fuel rd s) \<noteq> Diverge"
  using assms(3)
proof (induction fuel arbitrary: s)
  case 0
  then show ?case by simp
next
  case (Suc fuel)
  show ?case
  proof (cases "rd s")
    case (Pair r s')
    show ?thesis
    proof (cases r)
      case (Ok m)
      with Pair assms(2) have "length s' + Suc n \<le> length s" by (auto dest: consumesD)
      with Suc have "fst (array_loop fuel rd s') \<noteq> Diverge" by auto
      with Ok Pair show ?thesis
        by (auto simp: bindp_def option_read_def retp_def split: prod.splits outcome.splits)
    next
      case Diverge
      with Pair assms(1) show ?thesis by (auto dest: terminatesD)
    qed (use Pair in \<open>auto simp: bindp_def option_read_def retp_def\<close>)
  qed
qed

lemma terminates_array_read:
  "terminates rd \<Longrightarrow> consumes n rd \<Longrightarrow> 0 < n \<Longrightarrow> terminates (array_read rd)"
proof (cases n)
  case (Suc k)
  assume "terminates rd" "consumes n rd"
  with Suc have "fst (array_loop (Suc (length s)) rd s) \<noteq> Diverge" for s
    by (intro array_loop_ends [where n = k]) auto
  then show ?thesis by (simp add: terminates_def array_read_def del: array_loop.simps)
qed simp

lemma options_not_Diverge:
  assumes "arrays_end t" "fst (read_msg t s) = Ok m"
  shows "options m \<noteq> Diverge"
proof (cases t)
  case (MDyn u f)
  with assms show ?thesis by (auto simp: retp_def dyn_options_def dest!: fst_bindp_Ok)
next
  case (MOpt x)
  with assms show ?thesis by (cases x) (auto simp: retp_def dest!: fst_bindp_Ok)
next
  case (MArray ms x)
  with assms show ?thesis by (cases x) (auto simp: retp_def liftp_def dest!: fst_bindp_Ok)
qed (use assms in \<open>auto simp: retp_def dest!: fst_bindp_Ok\<close>)

lemma terminates_component_read:
  assumes "\<forall>(k, old, r) \<in> set fs. terminates r \<and> (\<forall>s m. fst (r s) = Ok m \<longrightarrow> options m \<noteq> Diverge)"
  shows "terminates (component_read fs F S)"
  using assms
proof (induction fs arbitrary: F S)
  case Nil
  then show ?case by simp
next
  case (Cons f fs)
  obtain k old r where f: "f = (k, old, r)" by (cases f)
  define rd where "rd = (case S k of Some n \<Rightarrow> read_local n r | None \<Rightarrow> r)"
  have r: "terminates r" "\<And>s m. fst (r s) = Ok m \<Longrightarrow> options m \<noteq> Diverge"
    using Cons.prems f by auto
  have rest: "terminates (component_read fs F' S')" for F' S'
    using Cons by auto
  have "fst (rd s) \<noteq> Diverge" for s
    using r(1) by (auto simp: rd_def terminates_def read_local_def on_buffer_def bindp_def liftp_def
        read_exact_def split: option.splits)
  moreover have "options m \<noteq> Diverge" if "rd s = (Ok m, s')" for s m s'
  proof -
    from that have "\<exists>u. fst (r u) = Ok m"
      by (auto simp: rd_def read_local_def on_buffer_def liftp_def bindp_eq_Ok split: option.splits)
        (metis fst_conv)
    then show ?thesis using r(2) by blast
  qed
  moreover have more: "terminates (bindp (component_read fs F' S') (\<lambda>q. retp (x # q)))" for F' S' x
    using rest by (intro terminates_bindp) auto
  ultimately have "fst (bindp rd (\<lambda>m. bindp (liftp (options m)) (\<lambda>opt.
      bindp (component_read fs (add_filter opt F) (add_size opt S)) (\<lambda>q. retp ((k, m) # q)))) s) \<noteq> Diverge" for s
    by (auto simp: bindp_def [of rd] bindp_def [of "liftp _"] liftp_def terminates_def
        split: prod.splits outcome.splits) (metis fst_conv)+
  moreover have "fst (bindp (component_read fs F S) (\<lambda>q. retp (x # q)) s) \<noteq> Diverge" for x s
    using more by (simp add: terminates_def)
  ultimately show ?case
    by (simp add: f rd_def [symmetric] terminates_def)
qed

text \<open>Reading with such a template always returns: no stream makes it loop.\<close>

lemma terminates_read_msg: "arrays_end t \<Longrightarrow> terminates (read_msg t)"
proof (induction t rule: read_msg.induct)
  case (5 ms)
  then show ?case by (auto intro!: terminates_bindp terminates_trame_read)
next
  case (6 fs)
  then have "terminates (component_read (map (\<lambda>(k, m). (k, m, read_msg m)) fs) {} Map.empty)"
    by (intro terminates_component_read) (fastforce dest: options_not_Diverge)
  then show ?case by (auto intro!: terminates_bindp)
next
  case (11 ms t)
  then have "terminates (array_read (read_msg t))"
    by (intro terminates_array_read [OF _ consumes_read_msg]) auto
  then show ?case by (auto intro!: terminates_bindp)
qed (auto intro!: terminates_bindp terminates_option_read terminates_liftp
    simp: u8_read_def u16_read_def u32_read_def slice_read_def check_read_def split: val.split)

subsection \<open>The shape of what was read\<close>

text \<open>A component read has the template's fields: each is its own read, or was skipped.\<close>

definition from_template :: "string \<times> message \<Rightarrow> string \<times> message \<Rightarrow> bool" where
  "from_template f r \<longleftrightarrow> fst r = fst f \<and> (snd r = snd f \<or> (\<exists>u. fst (read_msg (snd f) u) = Ok (snd r)))"

lemma read_local_Ok: "read_local n rd s = (Ok m, t) \<Longrightarrow> \<exists>u. fst (rd u) = Ok m"
  by (auto simp: read_local_def bindp_eq_Ok liftp_def on_buffer_def)

lemma component_read_shape:
  "component_read (map (\<lambda>(k, m). (k, m, read_msg m)) fs) F S s = (Ok rs, s') \<Longrightarrow> list_all2 from_template fs rs"
proof (induction fs arbitrary: F S s rs)
  case Nil
  then show ?case by (simp add: retp_def)
next
  case (Cons f fs)
  obtain k t where f: "f = (k, t)" by (cases f)
  let ?rest = "component_read (map (\<lambda>(k, m). (k, m, read_msg m)) fs)"
  show ?case
  proof (cases "k \<in> F")
    case True
    then obtain rs' where "?rest F S s = (Ok rs', s')" "rs = (k, t) # rs'"
      using Cons.prems by (auto simp: f bindp_eq_Ok retp_def)
    then show ?thesis using Cons.IH by (auto simp: f from_template_def)
  next
    case False
    with Cons.prems obtain x s1 where
      x: "(case S k of Some n \<Rightarrow> read_local n (read_msg t) | None \<Rightarrow> read_msg t) s = (Ok x, s1)"
      and rest: "bindp (liftp (options x)) (\<lambda>opt. bindp (?rest (add_filter opt F) (add_size opt S))
          (\<lambda>r. retp ((k, x) # r))) s1 = (Ok rs, s')"
      by (auto simp: f bindp_eq_Ok [of "case S k of Some n \<Rightarrow> read_local n (read_msg t) | None \<Rightarrow> read_msg t"])
    have "\<exists>u. fst (read_msg t u) = Ok x"
      using x read_local_Ok [of _ "read_msg t" s x s1] by (cases "S k") (auto intro: exI [of _ s])
    moreover obtain opt rs' where "?rest (add_filter opt F) (add_size opt S) s1 = (Ok rs', s')" "rs = (k, x) # rs'"
      using rest by (auto simp: bindp_eq_Ok retp_def liftp_def)
    ultimately show ?thesis using Cons.IH by (auto simp: f from_template_def)
  qed
qed

lemma read_component_shape:
  "fst (read_msg (MComponent fs) s) = Ok m \<Longrightarrow> \<exists>rs. m = MComponent rs \<and> list_all2 from_template fs rs"
  by (auto simp: retp_def dest!: fst_bindp_Ok component_read_shape)

lemma from_template_lookup:
  "list_all2 from_template fs rs \<Longrightarrow> map_of fs k = Some t \<Longrightarrow>
   \<exists>x. map_of rs k = Some x \<and> (x = t \<or> (\<exists>u. fst (read_msg t u) = Ok x))"
  by (induction rule: list_all2_induct) (auto simp: from_template_def split: if_splits)

lemma read_field_shape:
  assumes "fst (read_msg (MComponent fs) s) = Ok m" "map_of fs k = Some t"
  shows "\<exists>x. field m k = Ok x \<and> (x = t \<or> (\<exists>u. fst (read_msg t u) = Ok x))"
proof -
  obtain rs where "m = MComponent rs" "list_all2 from_template fs rs"
    using read_component_shape [OF assms(1)] by blast
  then show ?thesis using from_template_lookup [OF _ assms(2)] by fastforce
qed

text \<open>Every element of an array was read with its factory's template.\<close>

lemma array_loop_elements: "array_loop fuel rd s = (Ok xs, t) \<Longrightarrow> x \<in> set xs \<Longrightarrow> \<exists>u. fst (rd u) = Ok x"
proof (induction fuel arbitrary: s xs t)
  case (Suc fuel)
  obtain y u where y: "option_read rd s = (Ok y, u)"
    "(case y of Some m \<Rightarrow> bindp (array_loop fuel rd) (\<lambda>ms. retp (m # ms)) | None \<Rightarrow> retp []) u = (Ok xs, t)"
    using Suc.prems(1) by (auto simp: bindp_eq_Ok)
  show ?case
  proof (cases y)
    case (Some m)
    obtain ms v where m: "array_loop fuel rd u = (Ok ms, v)" "xs = m # ms"
      using y(2) Some by (auto simp: bindp_eq_Ok retp_def)
    have "rd s = (Ok m, u)" using y(1) Some by (auto simp: option_read_def split: prod.splits outcome.splits)
    then have "fst (rd s) = Ok m" by simp
    then show ?thesis using Suc.IH [OF m(1)] Suc.prems(2) m(2) by auto
  qed (use y(2) Suc.prems(2) in \<open>simp add: retp_def\<close>)
qed (simp add: liftp_def)

lemma trame_read_each: "trame_read (map read_msg ts) s = (Ok ms, s') \<Longrightarrow> list_all2 (\<lambda>t m. \<exists>u. fst (read_msg t u) = Ok m) ts ms"
  by (induction ts arbitrary: s ms) (auto simp: bindp_eq_Ok retp_def, metis fst_conv)

text \<open>What a closure over a component sees has the names of the template's fields.\<close>

fun view_fits :: "message \<Rightarrow> dyn_view \<Rightarrow> bool" where
  "view_fits (MComponent fs) v = (\<exists>vs. v = ViewFields vs \<and> map fst vs = map fst fs)"
| "view_fits _ v = True"

lemma view_fits_field: "view_fits (MComponent fs) v \<Longrightarrow> k \<in> fst ` set fs \<Longrightarrow> \<exists>w. view_field v k = Ok w"
  by (metis (no_types, lifting) domIff dom_map_of_conv_image_fst image_set option.case_eq_if view_field.simps(1) view_fits.simps(1))

lemma view_fits_read:
  assumes "fst (read_msg t s) = Ok m"
  shows "view_fits t (view_of m)"
proof (cases t)
  case (MComponent fs)
  then obtain rs where "m = MComponent rs" "list_all2 from_template fs rs"
    using read_component_shape assms by blast
  moreover from this(2) have "map fst rs = map fst fs"
    by (induction rule: list_all2_induct) (auto simp: from_template_def)
  ultimately show ?thesis by (simp add: MComponent comp_def case_prod_beta)
qed simp_all

subsection \<open>Reads that cannot panic\<close>

text \<open>
  A template whose closures answer or panic in one of the given ways, and whose arrays can
  make their elements: reading it returns a value or an error, or panics in one of these
  ways, on every stream. With no panic allowed the template is quiet and its read is safe.
\<close>

fun tame :: "panic set \<Rightarrow> message \<Rightarrow> bool" where
  "tame P (MTrame ms) = (\<forall>m \<in> set ms. tame P m)"
| "tame P (MComponent fs) = (\<forall>(k, m) \<in> set fs. tame P m)"
| "tame P (MCheck m) = tame P m"
| "tame P (MDyn m f) = (tame P m \<and> (\<forall>v. view_fits m v \<longrightarrow> wpo (f v) (\<lambda>_. True) P))"
| "tame P (MOpt (Some m)) = tame P m"
| "tame P (MArray ms (Some t)) = (0 < min_size t \<and> tame P t)"
| "tame P (MArray ms None) = False"
| "tame P _ = True"

abbreviation quiet :: "message \<Rightarrow> bool" where
  "quiet \<equiv> tame {}"

definition guarded :: "panic set \<Rightarrow> ('s, 'a) prog \<Rightarrow> bool" where
  "guarded P m \<longleftrightarrow> (\<forall>s. wp m (\<lambda>_ _. True) P s)"

abbreviation safe :: "('s, 'a) prog \<Rightarrow> bool" where
  "safe \<equiv> guarded {}"

lemma safe_at: "guarded P m \<Longrightarrow> wp m (\<lambda>_ _. True) P s"
  by (simp add: guarded_def)

lemma safeD: "guarded P m \<Longrightarrow> (\<And>a t. m s = (Ok a, t) \<Longrightarrow> Q a t) \<Longrightarrow> wp m Q P s"
  using safe_at [of P m s] by (cases "m s"; cases "fst (m s)") (auto simp: wp_def)

lemma guarded_outcome: "guarded P m \<Longrightarrow> fst (m s) \<noteq> Diverge \<and> (\<forall>p. fst (m s) = Panic p \<longrightarrow> p \<in> P)"
  using safe_at [of P m s] by (cases "m s"; cases "fst (m s)") (auto simp: wp_def)

lemma safe_outcome: "safe m \<Longrightarrow> fst (m s) \<noteq> Panic p \<and> fst (m s) \<noteq> Diverge"
  using guarded_outcome [of "{}" m s] by blast

lemma guardedI: "(\<And>s. fst (m s) \<noteq> Diverge \<and> (\<forall>p. fst (m s) = Panic p \<longrightarrow> p \<in> P)) \<Longrightarrow> guarded P m"
  unfolding guarded_def wp_def
proof
  fix s assume a: "\<And>s. fst (m s) \<noteq> Diverge \<and> (\<forall>p. fst (m s) = Panic p \<longrightarrow> p \<in> P)"
  show "case m s of (Ok a, s') \<Rightarrow> True | (Err e, s') \<Rightarrow> True | (Panic p, s') \<Rightarrow> p \<in> P | (Diverge, s') \<Rightarrow> False"
    using a [of s] by (cases "m s"; cases "fst (m s)") auto
qed

lemma safeI: "(\<And>s. fst (m s) \<noteq> Diverge \<and> (\<forall>p. fst (m s) \<noteq> Panic p)) \<Longrightarrow> guarded P m"
  by (rule guardedI) blast

lemma safe_bindp: "guarded P m \<Longrightarrow> (\<And>a. guarded P (f a)) \<Longrightarrow> guarded P (bindp m f)"
  unfolding guarded_def wp_bindp by (blast intro: wp_mono)

lemma safe_basic: "guarded P (retp a)" "guarded P (failp k)" "guarded P (read_exact n)" "guarded P read_to_end"
  by (rule safeI, simp add: retp_def failp_def read_exact_def read_to_end_def)+

lemma safe_if: "(b \<Longrightarrow> guarded P m) \<Longrightarrow> (\<not> b \<Longrightarrow> guarded P k) \<Longrightarrow> guarded P (if b then m else k)"
  by simp

lemma safe_ints: "guarded P rd_u8" "guarded P rd_u16_be" "guarded P rd_u16_le" "guarded P rd_u32_be" "guarded P rd_u32_le"
  unfolding rd_u8_def rd_u16_be_def rd_u16_le_def rd_u32_be_def rd_u32_le_def
  by (intro safe_bindp safe_basic)+

lemma safe_trame_read: "\<forall>r \<in> set rs. guarded P r \<Longrightarrow> guarded P (trame_read rs)"
  by (induction rs) (simp_all add: safe_basic safe_bindp)

lemma safe_option_read: "guarded P rd \<Longrightarrow> guarded P (option_read rd)"
proof (rule guardedI)
  fix s assume "guarded P rd"
  from guarded_outcome [OF this, of s]
  show "fst (option_read rd s) \<noteq> Diverge \<and> (\<forall>p. fst (option_read rd s) = Panic p \<longrightarrow> p \<in> P)"
    by (cases "rd s"; cases "fst (rd s)") (auto simp: option_read_def)
qed

lemmas safe_intros = safe_bindp safe_basic safe_if safe_ints safe_option_read

lemma wp_array_loop:
  assumes "guarded P rd" "consumes (Suc n) rd" "length s < fuel"
  shows "wp (array_loop fuel rd) (\<lambda>_ _. True) P s"
  using assms(3)
proof (induction fuel arbitrary: s)
  case (Suc fuel)
  show ?case
    unfolding array_loop.simps wp_bindp
  proof (rule safeD [OF safe_option_read [OF assms(1)]])
    fix e t assume e: "option_read rd s = (Ok e, t)"
    show "wp (case e of None \<Rightarrow> retp [] | Some m \<Rightarrow> bindp (array_loop fuel rd) (\<lambda>ms. retp (m # ms))) (\<lambda>_ _. True) P t"
    proof (cases e)
      case (Some m)
      then have "rd s = (Ok m, t)" using e by (auto simp: option_read_def split: prod.splits outcome.splits)
      then have "length t < fuel" using consumesD [OF assms(2)] Suc.prems by fastforce
      from Suc.IH [OF this] have "wp (array_loop fuel rd) (\<lambda>ms. wp (retp (m # ms)) (\<lambda>_ _. True) P) P t"
        by (rule wp_mono) (simp_all add: wp_retp)
      then show ?thesis by (simp add: Some wp_bindp)
    qed (simp add: wp_retp)
  qed
qed simp

lemma safe_array_read:
  assumes "guarded P rd" "consumes n rd" "0 < n"
  shows "guarded P (array_read rd)"
proof -
  obtain k where "n = Suc k" using assms(3) by (cases n) auto
  then have "wp (array_loop (Suc (length s)) rd) (\<lambda>_ _. True) P s" for s
    using wp_array_loop assms by blast
  then show ?thesis by (simp add: guarded_def wp_def array_read_def del: array_loop.simps)
qed

lemma safe_read_local: "guarded P rd \<Longrightarrow> guarded P (read_local n rd)"
proof (rule guardedI)
  fix s assume rd: "guarded P rd"
  show "fst (read_local n rd s) \<noteq> Diverge \<and> (\<forall>p. fst (read_local n rd s) = Panic p \<longrightarrow> p \<in> P)"
    using guarded_outcome [OF rd, of "take n s"]
    by (simp add: read_local_def bindp_def read_exact_def liftp_def on_buffer_def)
qed

lemma safe_component_read:
  assumes "\<forall>(k, old, r) \<in> set fs. guarded P r \<and> (\<forall>s m. fst (r s) = Ok m \<longrightarrow> wpo (options m) (\<lambda>_. True) P)"
  shows "guarded P (component_read fs F S)"
  using assms
proof (induction fs arbitrary: F S)
  case Nil
  then show ?case by (simp add: safe_basic)
next
  case (Cons f fs)
  obtain k old r where f: "f = (k, old, r)" by (cases f)
  define rd where "rd = (case S k of Some n \<Rightarrow> read_local n r | None \<Rightarrow> r)"
  have r: "guarded P r" "\<And>s m. fst (r s) = Ok m \<Longrightarrow> wpo (options m) (\<lambda>_. True) P" using Cons.prems f by auto
  have rest: "guarded P (bindp (component_read fs F' S') (\<lambda>q. retp (x # q)))" for F' S' x
    using Cons by (intro safe_intros) auto
  have rd: "guarded P rd" using r(1) safe_read_local by (auto simp: rd_def split: option.split)
  have opt: "wpo (options m) (\<lambda>_. True) P" if m: "rd s = (Ok m, t)" for s m t
  proof (cases "S k")
    case None
    then show ?thesis using r(2) [of s] m by (simp add: rd_def)
  next
    case (Some n)
    then show ?thesis using r(2) read_local_Ok [of n r s m t] m by (auto simp: rd_def)
  qed
  have "wp (bindp rd (\<lambda>m. bindp (liftp (options m)) (\<lambda>opt.
      bindp (component_read fs (add_filter opt F) (add_size opt S)) (\<lambda>q. retp ((k, m) # q))))) (\<lambda>_ _. True) P s" for s
    unfolding wp_bindp [of rd]
  proof (rule safeD [OF rd])
    fix m t assume "rd s = (Ok m, t)"
    then have "wpo (options m) (\<lambda>_. True) P" using opt by blast
    then show "wp (bindp (liftp (options m)) (\<lambda>opt.
      bindp (component_read fs (add_filter opt F) (add_size opt S)) (\<lambda>q. retp ((k, m) # q)))) (\<lambda>_ _. True) P t"
      using rest [of "add_filter _ F" "add_size _ S" "(k, m)"] by (cases "options m") (simp_all add: guarded_def wp_bindp wp_liftp)
  qed
  then show ?case using rest [of F S "(k, old)"] by (simp add: f rd_def [symmetric] guarded_def)
qed

lemma tame_options:
  assumes "tame P t" "fst (read_msg t s) = Ok m"
  shows "wpo (options m) (\<lambda>_. True) P"
proof (cases "is_dyn t")
  case True
  then obtain u f where t: "t = MDyn u f" by (cases t) auto
  then obtain w where "m = MDyn w f" "fst (read_msg u s) = Ok w"
    using assms(2) by (auto simp: retp_def dest!: fst_bindp_Ok)
  then show ?thesis using assms(1) t view_fits_read by (simp add: dyn_options_def)
qed (use options_of_read(2) [OF assms(2)] in simp)

lemma safe_read_msg: "tame P t \<Longrightarrow> guarded P (read_msg t)"
proof (induction t rule: read_msg.induct)
  case (5 ms)
  then show ?case by (auto intro!: safe_intros safe_trame_read)
next
  case (6 fs)
  then have "guarded P (component_read (map (\<lambda>(k, m). (k, m, read_msg m)) fs) {} Map.empty)"
    by (intro safe_component_read) (fastforce dest: tame_options)
  then show ?case by (auto intro!: safe_intros)
next
  case (11 ms t)
  then have "guarded P (array_read (read_msg t))"
    by (intro safe_array_read [OF _ consumes_read_msg]) auto
  then show ?case by (auto intro!: safe_intros)
qed (auto intro!: safe_intros
    simp: u8_read_def u16_read_def u32_read_def slice_read_def check_read_def split: val.split)

lemma short_read: "quiet t \<Longrightarrow> length bs < min_size t \<Longrightarrow> \<exists>e. fst (read_msg t bs) = Err e"
  using safe_outcome [OF safe_read_msg, of t bs] consumesD [OF consumes_read_msg, of t bs]
  by (cases "read_msg t bs"; cases "fst (read_msg t bs)") fastforce+

end
