(* ===== verification/Message_Types.thy ===== *)
theory Message_Types imports Message_Laws begin

section \<open>Types of the message model\<close>

text \<open>
  What a read may change of its template: a value has the layout of the template it was
  read into, so that the casts and field accesses of the callers find what the template announces.
\<close>

lemma size_field: "f \<in> set fs \<Longrightarrow> size (snd f) < Suc (size_list (size_prod (\<lambda>_. 0) size) fs)"
  using size_list_estimation' [of f fs "size (snd f)" "size_prod (\<lambda>_. 0) size"] by (cases f) (simp add: less_Suc_eq_le)

lemma size_part: "t \<in> set ts \<Longrightarrow> size t < Suc (size_list size ts)"
  using size_list_estimation' [of t ts "size t" size] by (simp add: less_Suc_eq_le)

text \<open>
  \<open>fits_template t m\<close>: \<open>m\<close> has the layout of \<open>t\<close>: its integers their width and byte order, its slices
  their length (an empty one takes the rest), its constants their value, its components their
  names in their order, where a skipped field still is the template's, and its arrays only elements
  of the template's array and of the layout of its factory.
\<close>

function fits_template :: "message \<Rightarrow> message \<Rightarrow> bool" where
  "fits_template (MU8 a) m = (\<exists>b. m = MU8 b)"
| "fits_template (MU16 v) m = (case v of BE a \<Rightarrow> (\<exists>b. m = MU16 (BE b)) | LE a \<Rightarrow> (\<exists>b. m = MU16 (LE b)))"
| "fits_template (MU32 v) m = (case v of BE a \<Rightarrow> (\<exists>b. m = MU32 (BE b)) | LE a \<Rightarrow> (\<exists>b. m = MU32 (LE b)))"
| "fits_template (MSlice as) m = (\<exists>bs. m = MSlice bs \<and> (as = [] \<or> length bs = length as))"
| "fits_template (MTrame ts) m = (\<exists>ms. m = MTrame ms \<and> length ms = length ts \<and> (\<forall>(t, x) \<in> set (zip ts ms). fits_template t x))"
| "fits_template (MComponent fs) m = (\<exists>rs. m = MComponent rs \<and> map fst rs = map fst fs
     \<and> (\<forall>(f, r) \<in> set (zip fs rs). snd r = snd f \<or> fits_template (snd f) (snd r)))"
| "fits_template (MCheck t) m = (\<exists>x. m = MCheck x \<and> fits_template t x \<and> msg_eq t x)"
| "fits_template (MDyn t f) m = (\<exists>x. m = MDyn x f \<and> fits_template t x)"
| "fits_template (MOpt None) m = (m = MOpt None)"
| "fits_template (MOpt (Some t)) m = (m = MOpt None \<or> (\<exists>x. m = MOpt (Some x) \<and> fits_template t x))"
| "fits_template (MArray ts None) m = False"
| "fits_template (MArray ts (Some t)) m = (\<exists>xs. m = MArray (ts @ xs) (Some t) \<and> (\<forall>x \<in> set xs. fits_template t x))"
  by pat_completeness auto
termination
  by (relation "measure (\<lambda>(t, m). size t)") (auto dest!: set_zip_leftD intro!: size_field size_part)

lemma list_all2_zip: "list_all2 P xs ys \<Longrightarrow> length ys = length xs \<and> (\<forall>(x, y) \<in> set (zip xs ys). P x y)"
  by (induction rule: list_all2_induct) auto

lemma read_fits_template: "fst (read_msg t s) = Ok m \<Longrightarrow> fits_template t m"
proof (induction t arbitrary: s m rule: read_msg.induct)
  case (5 ts)
  obtain ms u where m: "m = MTrame ms" "trame_read (map read_msg ts) s = (Ok ms, u)"
    using fst_bindp_Ok [OF "5.prems" [unfolded read_msg.simps]] by (auto simp: retp_def)
  have "length ms = length ts \<and> (\<forall>(t, x) \<in> set (zip ts ms). \<exists>u. fst (read_msg t u) = Ok x)"
    using list_all2_zip [OF trame_read_each [OF m(2)]] by simp
  then show ?case using "5.IH" m(1) by (fastforce dest: set_zip_leftD)
next
  case (6 fs)
  obtain rs where m: "m = MComponent rs" "list_all2 from_template fs rs" using read_component_shape "6.prems" by blast
  have names: "map fst rs = map fst fs"
    using m(2) by (induction rule: list_all2_induct) (auto simp: from_template_def)
  have "snd r = snd f \<or> fits_template (snd f) (snd r)" if "(f, r) \<in> set (zip fs rs)" for f r
  proof -
    have "from_template f r" "f \<in> set fs" using list_all2_zip [OF m(2)] that by (auto dest: set_zip_leftD)
    then show ?thesis using "6.IH" [of f "fst f" "snd f"] by (auto simp: from_template_def)
  qed
  then show ?case using m(1) names by auto
next
  case (7 t)
  obtain x u where x: "check_read t (read_msg t) s = (Ok x, u)" "m = MCheck x"
    using fst_bindp_Ok [OF "7.prems" [unfolded read_msg.simps]] by (auto simp: retp_def)
  then obtain v where "read_msg t s = (Ok x, v)" "msg_eq t x"
    by (auto simp: check_read_def bindp_eq_Ok failp_def retp_def split: if_splits)
  then show ?case using x(2) "7.IH" [of s x] by simp
next
  case (8 t f)
  obtain x u where "read_msg t s = (Ok x, u)" "m = MDyn x f"
    using fst_bindp_Ok [OF "8.prems" [unfolded read_msg.simps]] by (auto simp: retp_def)
  then show ?case using "8.IH" [of s x] by simp
next
  case (10 t)
  obtain x u where x: "option_read (read_msg t) s = (Ok x, u)" "m = MOpt x"
    using fst_bindp_Ok [OF "10.prems" [unfolded read_msg.simps]] by (auto simp: retp_def)
  show ?case
  proof (cases x)
    case (Some y)
    then have "fst (read_msg t s) = Ok y" using x(1) by (auto simp: option_read_def split: prod.splits outcome.splits)
    then show ?thesis using "10.IH" [of s y] x(2) Some by simp
  qed (simp add: x(2))
next
  case (11 ts t)
  obtain xs u where x: "array_read (read_msg t) s = (Ok xs, u)" "m = MArray (ts @ xs) (Some t)"
    using fst_bindp_Ok [OF "11.prems" [unfolded read_msg.simps]] by (auto simp: retp_def)
  have "fits_template t y" if "y \<in> set xs" for y
    using array_loop_elements [OF x(1) [unfolded array_read_def] that] "11.IH" by blast
  then show ?case using x(2) by simp
qed (auto simp: u8_read_def u16_read_def u32_read_def slice_read_def bindp_eq_Ok retp_def liftp_def read_to_end_def read_exact_def
  split: val.splits if_splits dest!: fst_bindp_Ok)

subsection \<open>Properties\<close>

text \<open>
  C40. A value that is read has the layout of its template: every integer its width and byte order,
  every slice its length, every constant its value, every component its fields, and every array
  elements of its factory's layout. What was not consumed is the end of the stream.
\<close>

theorem read_keeps_layout:
  assumes "read_msg t s = (Ok m, u)"
  shows "fits_template t m \<and> suffix u s"
  using read_fits_template [of t s m] forwardD [OF forward_read_msg assms] assms by simp

theorem read_keeps_layout_witness:
  "fits_template (MTrame [MU8 0, MSlice []]) (MTrame [MU8 7, MSlice [8, 9]]) \<and> suffix [] [7, 8, 9 :: u8]"
proof -
  have "read_msg (MTrame [MU8 0, MSlice []]) [7, 8, 9] = (Ok (MTrame [MU8 7, MSlice [8, 9]]), [])"
    by (simp add: u8_read_def slice_read_def bindp_def retp_def read_to_end_def)
  then show ?thesis by (rule read_keeps_layout)
qed

text \<open>
  C39. What a message writes, a template of its shape reads back, leaving the bytes behind it;
  the length a message announces is the number of bytes it writes. At the end of a packet
  the template may also have slices of any length, absent options and arrays.
\<close>

theorem message_round_trip:
  assumes "reads_as fin t m r" "write_msg m = Ok bs" "fin \<Longrightarrow> rest = []"
  shows "read_msg t (bs @ rest) = (Ok r, rest) \<and> msg_length m = Ok (length bs)"
  using read_written [OF assms] msg_length_written [OF assms(2)] by simp

theorem message_round_trip_witness:
  "read_msg (MTrame [MU16 (LE 0), MSlice []]) [0x34, 0x12, 5] = (Ok (MTrame [MU16 (LE 0x1234), MSlice [5]]), [])"
proof -
  have "reads_as True (MTrame [MU16 (LE 0), MSlice []]) (MTrame [MU16 (LE 0x1234), MSlice [5]]) (MTrame [MU16 (LE 0x1234), MSlice [5]])"
    by (rule ra_trame, rule rl_cons, rule ra_u16_le, rule rl_cons, simp add: ra_rest, rule rl_nil)
  moreover have "write_msg (MTrame [MU16 (LE 0x1234), MSlice [5]]) = Ok [0x34, 0x12, 5]"
    by (simp add: u16_write_def slice_write_def u16_le_def)
  ultimately have "read_msg (MTrame [MU16 (LE 0), MSlice []]) ([0x34, 0x12, 5] @ []) = (Ok (MTrame [MU16 (LE 0x1234), MSlice [5]]), [])"
    by (intro message_round_trip [THEN conjunct1]) auto
  then show ?thesis by (simp only: append_Nil2)
qed

end
