(* ===== verification/Per.thy ===== *)
theory Per
  imports Message_Laws
begin

section \<open>PER encoding\<close>

text \<open>
  The packed encoding rules of \<^verbatim>\<open>src/src/core/per.rs\<close>. Readers are programs over the
  unread bytes; writers give the bytes they append. The numbers keep their widths: a
  sum or difference that does not fit panics, a cast cuts.
\<close>

subsection \<open>Lengths, choices, integers\<close>

definition read_length :: "(u8 list, u16) prog" where
  "read_length = bindp u8_read (\<lambda>byte.
     if byte AND 0x80 \<noteq> 0
     then (let size = push_bit 8 (ucast (byte AND NOT 0x80)) :: u16 in
           bindp u8_read (\<lambda>byte'. bindp (liftp (addw size (ucast byte'))) (\<lambda>size'. retp size')))
     else retp (ucast byte))"

definition write_length :: "u16 \<Rightarrow> message" where
  "write_length len = (if 0x7f < len then MTrame [MU16 (BE (len OR 0x8000))] else MTrame [MU8 (ucast len)])"

definition read_choice :: "(u8 list, u8) prog" where
  "read_choice = u8_read"

definition write_choice :: "u8 \<Rightarrow> u8 list outcome" where
  "write_choice choice = u8_write choice"

definition read_selection :: "(u8 list, u8) prog" where
  "read_selection = u8_read"

definition write_selection :: "u8 \<Rightarrow> u8 list outcome" where
  "write_selection selection = u8_write selection"

definition read_number_of_set :: "(u8 list, u8) prog" where
  "read_number_of_set = u8_read"

definition write_number_of_set :: "u8 \<Rightarrow> u8 list outcome" where
  "write_number_of_set number_of_set = u8_write number_of_set"

definition read_enumerates :: "(u8 list, u8) prog" where
  "read_enumerates = u8_read"

definition write_enumerates :: "u8 \<Rightarrow> message" where
  "write_enumerates value = MU8 value"

definition read_integer :: "(u8 list, u32) prog" where
  "read_integer = bindp read_length (\<lambda>size.
     if size = 1 then bindp u8_read (\<lambda>r. retp (ucast r))
     else if size = 2 then bindp (u16_read (BE 0)) (\<lambda>r. retp (ucast (inner r)))
     else if size = 4 then bindp (u32_read (BE 0)) (\<lambda>r. retp (inner r))
     else failp InvalidSize)"

definition write_integer :: "u32 \<Rightarrow> u8 list outcome" where
  "write_integer i =
     (if i < 0xFF then trame_write [write_msg (write_length 1), u8_write (ucast i)]
      else if i < 0xFFFF then trame_write [write_msg (write_length 2), u16_write (BE (ucast i))]
      else trame_write [write_msg (write_length 4), u32_write (BE i)])"

definition read_integer_16 :: "u16 \<Rightarrow> (u8 list, u16) prog" where
  "read_integer_16 minimum = bindp (u16_read (BE 0)) (\<lambda>r. liftp (addw (inner r) minimum))"

definition write_integer_16 :: "u16 \<Rightarrow> u16 \<Rightarrow> u8 list outcome" where
  "write_integer_16 i minimum = bindo (subw i minimum) (\<lambda>d. u16_write (BE d))"

subsection \<open>Object identifiers, strings, padding\<close>

text \<open>
  The parsed identifier starts as six zeroes; the fourth and the fifth byte read after the
  first one both go to index 5, so index 4 stays zero.
\<close>

definition read_object_identifier :: "u8 list \<Rightarrow> (u8 list, bool) prog" where
  "read_object_identifier oid =
     (if length oid \<noteq> 6 then failp InvalidSize
      else bindp read_length (\<lambda>len.
        if len \<noteq> 5 then failp InvalidSize
        else bindp u8_read (\<lambda>tmp. let parsed = (replicate 6 0)[0 := drop_bit 4 tmp, 1 := tmp AND 0xf] in
          bindp u8_read (\<lambda>tmp. let parsed = parsed[2 := tmp] in
          bindp u8_read (\<lambda>tmp. let parsed = parsed[3 := tmp] in
          bindp u8_read (\<lambda>tmp. let parsed = parsed[5 := tmp] in
          bindp u8_read (\<lambda>tmp. let parsed = parsed[5 := tmp] in
          retp (parsed = oid))))))))"

definition write_object_identifier :: "u8 list \<Rightarrow> u8 list outcome" where
  "write_object_identifier oid =
     (if length oid \<noteq> 6 then Err (rdp_err InvalidSize)
      else write_msg (MTrame [MU8 5, MU8 (push_bit 4 (oid ! 0) OR (oid ! 1 AND 0xF)),
        MU8 (oid ! 2), MU8 (oid ! 3), MU8 (oid ! 4), MU8 (oid ! 5)]))"

definition read_numeric_string :: "nat \<Rightarrow> (u8 list, u8 list) prog" where
  "read_numeric_string minimum = bindp read_length (\<lambda>len.
     slice_read (replicate (unat len + minimum + 1) 0))"

fun numeric_chars :: "u8 list \<Rightarrow> u8 list outcome" where
  "numeric_chars [] = Ok []"
| "numeric_chars (c1 # cs) =
     (let c2 = (case cs of [] \<Rightarrow> 0x30 | c # _ \<Rightarrow> c) in
      bindo (subw c1 0x30) (\<lambda>d1. bindo (subw c2 0x30) (\<lambda>d2.
      bindo (u8_write (push_bit 4 (d1 mod 10) OR (d2 mod 10))) (\<lambda>bs.
      bindo (numeric_chars cs) (\<lambda>rest. Ok (bs @ rest))))))"

definition write_numeric_string :: "u8 list \<Rightarrow> nat \<Rightarrow> u8 list outcome" where
  "write_numeric_string string minimum =
     (let len = (if minimum \<le> length string then length string - minimum else length string) in
      trame_write [write_msg (write_length (of_nat len)), numeric_chars string])"

text \<open>\<open>read_padding\<close> calls \<open>Read::read\<close>: on a short buffer it takes what there is.\<close>

definition read_padding :: "nat \<Rightarrow> (u8 list, unit) prog" where
  "read_padding len s = (Ok (), drop len s)"

definition write_padding :: "nat \<Rightarrow> u8 list outcome" where
  "write_padding len = slice_write (replicate len 0)"

subsection \<open>Octet streams\<close>

fun expect_octets :: "u8 list \<Rightarrow> (u8 list, unit) prog" where
  "expect_octets [] = retp ()"
| "expect_octets (c' # cs) = bindp u8_read (\<lambda>c. if c \<noteq> c' then failp InvalidData else expect_octets cs)"

definition read_octet_stream :: "u8 list \<Rightarrow> nat \<Rightarrow> (u8 list, unit) prog" where
  "read_octet_stream octet_stream minimum = bindp read_length (\<lambda>l. let len = unat l + minimum in
     if len \<noteq> length octet_stream then failp InvalidSize
     else expect_octets octet_stream)"

definition write_octet_stream :: "u8 list \<Rightarrow> nat \<Rightarrow> u8 list outcome" where
  "write_octet_stream octet_string minimum =
     (let len = (if minimum \<le> length octet_string then length octet_string - minimum else minimum) in
      trame_write [write_msg (write_length (of_nat len)), slice_write octet_string])"

subsection \<open>Lengths come back modulo their flag bit\<close>

lemma per_forward [suffix_intros]:
  "forward read_length" "forward read_choice" "forward read_selection" "forward read_number_of_set"
  "forward read_enumerates" "forward read_integer" "forward (read_integer_16 m)"
  "forward (read_numeric_string n)"
  by (auto simp: read_length_def read_choice_def read_selection_def read_number_of_set_def
      read_enumerates_def read_integer_def read_integer_16_def read_numeric_string_def Let_def
      intro!: suffix_intros)

lemma forward_read_padding [suffix_intros]: "forward (read_padding n)"
  by (auto simp: forward_def read_padding_def suffix_drop)

lemma forward_expect_octets [suffix_intros]: "forward (expect_octets os)"
  by (induction os) (auto intro!: suffix_intros)

lemma forward_read_octet_stream [suffix_intros]: "forward (read_octet_stream os m)"
  by (auto simp: read_octet_stream_def Let_def intro!: suffix_intros)

lemma forward_read_object_identifier [suffix_intros]: "forward (read_object_identifier oid)"
  by (auto simp: read_object_identifier_def Let_def intro!: suffix_intros)

subsection \<open>Word facts\<close>

abbreviation len_hi :: "u8 \<Rightarrow> u16" where
  "len_hi b \<equiv> push_bit 8 (ucast (b AND NOT 0x80))"

lemma size_disjoint: "len_hi b AND (ucast (c :: u8)) = 0"
  by (intro bit_word_eqI) (auto simp: bit_simps dest: bit_imp_le_length)

lemma be_low7: "len_hi (ucast (drop_bit 8 (l OR 0x8000))) OR ucast (ucast (l OR 0x8000 :: u16) :: u8) = l AND 0x7fff"
proof (intro bit_word_eqI)
  fix n assume n: "n < LENGTH(16)"
  have "bit (0x7fff :: u16) n = (n < 15)" using n by (auto simp: bit_simps less_Suc_eq numeral_eq_Suc)
  moreover have "bit (0x8000 :: u16) n = (n = 15)" using n by (auto simp: bit_simps less_Suc_eq numeral_eq_Suc)
  moreover have "bit (0x80 :: u8) m = (m = 7)" if "m < 8" for m using that by (auto simp: bit_simps less_Suc_eq numeral_eq_Suc)
  ultimately show "bit (len_hi (ucast (drop_bit 8 (l OR 0x8000))) OR ucast (ucast (l OR 0x8000 :: u16) :: u8)) n = bit (l AND 0x7fff) n"
    using n by (auto simp: bit_simps)
qed

lemma flag_set: "ucast (drop_bit 8 (l OR 0x8000 :: u16)) AND (0x80 :: u8) \<noteq> 0"
proof -
  have "bit (ucast (drop_bit 8 (l OR 0x8000 :: u16)) AND (0x80 :: u8)) 7" by (simp add: bit_simps)
  then show ?thesis by (metis bit_0_eq bot_apply bot_bool_def)
qed
lemma bit_80: "n < 8 \<Longrightarrow> bit (0x80 :: u8) n = (n = 7)"
  by (auto simp: bit_simps less_Suc_eq numeral_eq_Suc)
lemma bit_7fff: "n < 16 \<Longrightarrow> bit (0x7fff :: u16) n = (n < 15)"
  by (auto simp: bit_simps less_Suc_eq numeral_eq_Suc)

lemma flag_clear: assumes "(l :: u16) \<le> 0x7f" shows "ucast l AND (0x80 :: u8) = 0" "(ucast (ucast l :: u8) :: u16) = l" "l AND 0x7fff = l"
proof -
  from assms have l: "unat l \<le> 127" by (simp add: word_le_nat_alt)
  have "unat (take_bit 7 l) = unat l" using l by (simp add: unsigned_take_bit_eq take_bit_nat_eq_self)
  then have "take_bit 7 l = l" by (rule word_unat_eq_iff [THEN iffD2])
  then have b: "\<And>n. bit l n \<Longrightarrow> n < 7" by (metis bit_take_bit_iff)
  show "ucast l AND (0x80 :: u8) = 0" 
  proof (intro bit_word_eqI)
    fix n assume "n < LENGTH(8)"
    then have n: "n < 8" by simp
    show "bit (ucast l AND (0x80 :: u8)) n = bit (0 :: u8) n"
      using b [of n] bit_80 [OF n] by (auto simp: bit_and_iff bit_unsigned_iff)
  qed
  show "(ucast (ucast l :: u8) :: u16) = l" by (intro bit_word_eqI) (auto simp: bit_simps dest: b)
  show "l AND 0x7fff = l" 
  proof (intro bit_word_eqI)
    fix n assume "n < LENGTH(16)"
    then have n: "n < 16" by simp
    show "bit (l AND 0x7fff) n = bit l n"
      using b [of n] bit_7fff [OF n] by (auto simp: bit_and_iff)
  qed
qed

subsection \<open>Round trips\<close>

lemma read_length_two: "b AND 0x80 \<noteq> 0 \<Longrightarrow> read_length (b # c # s) = (Ok (len_hi b OR ucast c), s)"
  using addw_disjoint [OF size_disjoint [of b c]]
  by (simp add: read_length_def u8_read_def bindp_def liftp_def retp_def)

lemma read_length_one: "b AND 0x80 = 0 \<Longrightarrow> read_length (b # s) = (Ok (ucast b), s)"
  by (simp add: read_length_def u8_read_def bindp_def retp_def)

lemma write_length_bytes:
  "write_msg (write_length l) = Ok (if 0x7f < l then u16_be (l OR 0x8000) else [ucast l])"
  by (simp add: write_length_def u16_write_def u8_write_def)

lemma read_length_written: "write_msg (write_length l) = Ok bs \<Longrightarrow> read_length (bs @ rest) = (Ok (l AND 0x7FFF), rest)"
  using flag_set [of l] be_low7 [of l] flag_clear [of l]
  by (cases "0x7f < l")
    (auto simp: write_length_bytes u16_be_def read_length_two read_length_one linorder_not_less)

lemma low_15: "(l :: u16) < 0x8000 \<Longrightarrow> l AND 0x7fff = l"
proof -
  assume "l < 0x8000"
  then have l: "unat l < 32768" by (simp add: word_less_nat_alt)
  have "unat (take_bit 15 l) = unat l" using l by (simp add: unsigned_take_bit_eq take_bit_nat_eq_self)
  then have e: "take_bit 15 l = l" by (rule word_unat_eq_iff [THEN iffD2])
  have "l AND 0x7fff = l AND mask 15" by (simp add: mask_eq_exp_minus_1)
  also have "\<dots> = l" using e by (simp add: take_bit_eq_mask)
  finally show ?thesis .
qed

interpretation per_length: codec "\<lambda>l. write_msg (write_length l)" read_length "\<lambda>l. l < 0x8000"
  by unfold_locales (simp add: read_length_written low_15)

lemma read_length_const [simp]:
  "read_length (1 # s) = (Ok 1, s)" "read_length (2 # s) = (Ok 2, s)" "read_length (4 # s) = (Ok 4, s)"
  "read_length (5 # s) = (Ok 5, s)"
  by (simp_all add: read_length_one)

lemma ucast_ucast_small:
  "i < 0xFF \<Longrightarrow> ucast (ucast i :: u8) = (i :: u32)" "i < 0xFFFF \<Longrightarrow> ucast (ucast i :: u16) = (i :: u32)"
  by (simp_all add: word_less_nat_alt word_unat_eq_iff unsigned_ucast_eq unsigned_take_bit_eq take_bit_nat_eq_self)

lemma write_integer_bytes:
  "write_integer i = Ok (if i < 0xFF then [1, ucast i] else if i < 0xFFFF then 2 # u16_be (ucast i) else 4 # u32_be i)"
  by (simp add: write_integer_def write_length_bytes u8_write_def u16_write_def u32_write_def)

lemma read_integer_written: "write_integer i = Ok bs \<Longrightarrow> read_integer (bs @ rest) = (Ok i, rest)"
  by (auto simp: write_integer_bytes read_integer_def bindp_def u8_read_def u16_read_def u32_read_def
      retp_def ucast_ucast_small split: if_splits)

interpretation per_integer: codec write_integer read_integer "\<lambda>_. True"
  by unfold_locales (rule read_integer_written)

lemma addw_subw: "subw i m = Ok d \<Longrightarrow> addw d m = Ok i"
proof -
  assume s: "subw i m = Ok d"
  then have d: "d = i - m" and le: "m \<le> i" by (auto simp: subw_def split: if_splits)
  have "unat d + unat m = unat i" using subw_Ok [OF s] le by (simp add: word_le_nat_alt)
  then show ?thesis using d unsigned_less [of i] by (simp add: addw_def)
qed

interpretation per_integer_16: codec "\<lambda>i. write_integer_16 i m" "read_integer_16 m" "\<lambda>_. True" for m
  by unfold_locales
    (auto simp: write_integer_16_def bindo_eq_Ok u16_write_def read_integer_16_def u16_read_def bindp_def
      retp_def liftp_def addw_subw)

lemma expect_octets_append: "expect_octets os (os @ rest) = (Ok (), rest)"
  by (induction os) (auto simp: retp_def bindp_def u8_read_def)

lemma expect_octets_Ok: "expect_octets os s = (Ok (), s') \<Longrightarrow> s = os @ s'"
proof (induction os arbitrary: s)
  case (Cons c os)
  then show ?case by (cases s) (auto simp: bindp_def u8_read_def failp_def split: if_splits)
qed (simp add: retp_def)

lemma of_nat_16: "n < 0x8000 \<Longrightarrow> unat (of_nat n :: u16) = n \<and> (of_nat n :: u16) < 0x8000"
  by (simp add: unat_of_nat take_bit_nat_eq_self word_less_nat_alt)

lemma write_octet_stream_Ok:
  "write_octet_stream os m = Ok bs \<longleftrightarrow>
   (\<exists>ls. write_msg (write_length (of_nat (if m \<le> length os then length os - m else m))) = Ok ls \<and> bs = ls @ os)"
  by (auto simp: write_octet_stream_def Let_def bindo_eq_Ok slice_write_def)

lemma octet_stream_written:
  assumes "m \<le> length os" "length os - m < 0x8000" "write_octet_stream os m = Ok bs"
  shows "read_octet_stream os m (bs @ rest) = (Ok (), rest)"
proof -
  obtain ls where ls: "write_msg (write_length (of_nat (length os - m))) = Ok ls" and bs: "bs = ls @ os"
    using assms by (auto simp: write_octet_stream_Ok)
  have "read_length (ls @ os @ rest) = (Ok (of_nat (length os - m)), os @ rest)"
    using of_nat_16 [OF assms(2)] per_length.dec_enc [OF _ ls] by blast
  then show ?thesis
    using of_nat_16 [OF assms(2)] assms(1) bs expect_octets_append by (simp add: read_octet_stream_def bindp_def)
qed

lemma oid_bytes:
  "length oid = 6 \<Longrightarrow> write_object_identifier oid =
     Ok [5, push_bit 4 (oid ! 0) OR (oid ! 1 AND 0xF), oid ! 2, oid ! 3, oid ! 4, oid ! 5]"
  by (simp add: write_object_identifier_def u8_write_def)

lemma nibbles:
  "drop_bit 4 (push_bit 4 a OR (b AND 0xF)) = a AND (0xF :: u8)"
  "(push_bit 4 a OR (b AND 0xF)) AND 0xF = b AND (0xF :: u8)"
proof -
  have f: "bit (0xF :: u8) n = (n < 4)" if "n < 8" for n
    using that by (auto simp: bit_simps less_Suc_eq numeral_eq_Suc)
  show "drop_bit 4 (push_bit 4 a OR (b AND 0xF)) = a AND (0xF :: u8)"
  proof (intro bit_word_eqI)
    fix n assume "n < LENGTH(8)"
    then show "bit (drop_bit 4 (push_bit 4 a OR (b AND 0xF))) n = bit (a AND (0xF :: u8)) n"
      using f [of n] f [of "n + 4"] by (auto simp: bit_simps dest: bit_imp_le_length)
  qed
  show "(push_bit 4 a OR (b AND 0xF)) AND 0xF = b AND (0xF :: u8)"
  proof (intro bit_word_eqI)
    fix n assume "n < LENGTH(8)"
    then show "bit ((push_bit 4 a OR (b AND 0xF)) AND 0xF) n = bit (b AND (0xF :: u8)) n"
      using f [of n] by (auto simp: bit_simps)
  qed
qed

lemma nibble_id: "a AND (0xF :: u8) = a \<longleftrightarrow> a < 16"
proof -
  have "a AND (0xF :: u8) = take_bit 4 a" by (simp add: take_bit_eq_mask mask_eq_exp_minus_1)
  then show ?thesis
    by (simp add: word_unat_eq_iff unsigned_take_bit_eq take_bit_nat_eq_self_iff word_less_nat_alt)
qed

lemma list6: "length xs = 6 \<Longrightarrow> xs = [xs ! 0, xs ! 1, xs ! 2, xs ! 3, xs ! 4, xs ! 5]"
  by (auto simp: length_Suc_conv eval_nat_numeral)

lemma read_oid:
  assumes "length oid = 6"
  shows "read_object_identifier oid (5 # b1 # b2 # b3 # b4 # b5 # rest)
     = (Ok (oid = [drop_bit 4 b1, b1 AND 0xF, b2, b3, 0, b5]), rest)"
  using assms by (simp add: read_object_identifier_def bindp_def u8_read_def retp_def eval_nat_numeral eq_commute)

lemma numeric_chars_length: "numeric_chars cs = Ok bs \<Longrightarrow> length bs = length cs"
  by (induction cs arbitrary: bs) (auto simp: Let_def bindo_eq_Ok u8_write_def)

lemma unat_take_bit_15: "unat (take_bit 15 (w :: u16)) < 2 ^ 15"
  by (subst unsigned_take_bit_eq) (rule take_bit_nat_less_exp)

lemma read_length_cases:
  "(\<exists>l s'. read_length s = (Ok l, s') \<and> l < 0x8000 \<and> suffix s' s \<and> length s' < length s) \<or>
   (\<exists>s'. read_length s = (Err (Io UnexpectedEof), s'))"
proof -
  have hi: "len_hi b OR ucast (c :: u8) < 0x8000" for b c
  proof -
    have "take_bit 15 (len_hi b OR ucast (c :: u8)) = len_hi b OR ucast c"
    proof (intro bit_word_eqI)
      fix n assume "n < LENGTH(16)"
      then show "bit (take_bit 15 (len_hi b OR ucast (c :: u8))) n = bit (len_hi b OR ucast c) n"
        using bit_80 [of "n - 8"] by (auto simp: bit_simps dest: bit_imp_le_length)
    qed
    then have "unat (len_hi b OR ucast (c :: u8)) < 2 ^ 15"
      using unat_take_bit_15 [of "len_hi b OR ucast c"] by simp
    then show ?thesis by (simp add: word_less_nat_alt)
  qed
  show ?thesis
  proof (cases s)
    case Nil
    then show ?thesis by (simp add: read_length_def u8_read_def bindp_def)
  next
    case (Cons b s1)
    show ?thesis
    proof (cases "b AND 0x80 = 0")
      case True
      have "unat b < 2 ^ LENGTH(8)" by (rule unsigned_less)
      then have "(ucast b :: u16) < 0x8000" by (simp add: word_less_nat_alt unsigned_ucast_eq take_bit_nat_eq_self)
      then show ?thesis using Cons True by (simp add: read_length_one suffix_ConsI)
    next
      case False
      then show ?thesis
      proof (cases s1)
        case Nil
        then show ?thesis using Cons False by (simp add: read_length_def u8_read_def bindp_def)
      next
        case (Cons c s2)
        then show ?thesis using False \<open>s = b # s1\<close> hi [of b c] by (simp add: read_length_two suffix_ConsI)
      qed
    qed
  qed
qed

lemma safe_read_length: "safe read_length"
proof (rule safeI)
  fix s
  show "fst (read_length s) \<noteq> Diverge \<and> (\<forall>p. fst (read_length s) \<noteq> Panic p)"
    using read_length_cases [of s] by auto
qed

lemma safe_vals: "safe u8_read" "safe (u16_read v)" "safe (u32_read w)" "safe (slice_read bs)"
  by (auto simp: u8_read_def u16_read_def u32_read_def slice_read_def intro!: safe_intros split: val.split)

lemma safe_expect_octets: "safe (expect_octets os)"
  by (induction os) (auto intro!: safe_intros safe_vals)

lemma safe_per:
  "safe read_choice" "safe read_selection" "safe read_number_of_set" "safe read_enumerates" "safe read_integer"
  "safe (read_object_identifier oid)" "safe (read_octet_stream os m)"
  unfolding read_choice_def read_selection_def read_number_of_set_def read_enumerates_def read_integer_def
    read_object_identifier_def read_octet_stream_def Let_def
  by (intro safe_intros safe_vals safe_read_length safe_expect_octets)+

lemma wp_read_integer_16: "wp (read_integer_16 m) (\<lambda>_ _. True) {ArithOverflow} s"
  unfolding read_integer_16_def wp_bindp
  by (rule wp_mono [OF safeD [OF safe_vals(2), where Q = "\<lambda>_ _. True"]]) (auto simp: wp_simps)

text \<open>Running on after a reader that cannot panic.\<close>

lemma wp_safe_bindp: "safe m \<Longrightarrow> (\<And>a t. wp (f a) Q P t) \<Longrightarrow> wp (bindp m f) Q P s"
  unfolding wp_bindp by (rule wp_mono [OF safeD [where Q = "\<lambda>_ _. True"]]) auto

subsection \<open>Properties\<close>

text \<open>
  The PER length: the writer takes two bytes above 0x7f and one byte below, and the
  reader gives back the low fifteen bits and leaves what follows. A length of 0x8000 or
  more is cut silently, since its top bit is the flag of the two-byte form.
\<close>

lemma per_length_round_trip:
  "\<exists>bs. write_msg (write_length l) = Ok bs \<and> length bs = (if 0x7f < l then 2 else 1) \<and>
     read_length (bs @ rest) = (Ok (l AND 0x7FFF), rest)"
  using read_length_written [of l _ rest] by (simp add: write_length_bytes)

text \<open>
  Reading a PER length never panics and never loops: on every input it is a
  length below 0x8000, or the buffer was too short.
\<close>

lemma per_length_total:
  "(\<exists>l s'. read_length s = (Ok l, s') \<and> l < 0x8000 \<and> suffix s' s \<and> length s' < length s) \<or>
   (\<exists>s'. read_length s = (Err (Io UnexpectedEof), s'))"
  by (rule read_length_cases)

text \<open>
  Every 32-bit integer survives the PER integer encoding, in one, two or four bytes
  after the length byte: the reader returns it and leaves exactly what follows.
\<close>

lemma per_integer_round_trip:
  "\<exists>bs. write_integer i = Ok bs \<and> length bs = (if i < 0xFF then 2 else if i < 0xFFFF then 3 else 5) \<and>
     read_integer (bs @ rest) = (Ok i, rest)"
  using per_integer.dec_enc [of i _ rest] by (simp add: write_integer_bytes)

text \<open>
  An integer written relative to a minimum: the subtraction panics exactly below the
  minimum, and otherwise the reader with the same minimum returns the integer.
\<close>

lemma per_integer_16_round_trip:
  "write_integer_16 i minimum =
     (if minimum \<le> i then Ok (u16_be (i - minimum)) else Panic ArithOverflow) \<and>
   (minimum \<le> i \<longrightarrow> read_integer_16 minimum (u16_be (i - minimum) @ rest) = (Ok i, rest))"
proof -
  have w: "write_integer_16 i minimum = (if minimum \<le> i then Ok (u16_be (i - minimum)) else Panic ArithOverflow)"
    by (simp add: write_integer_16_def subw_def u16_write_def)
  have "read_integer_16 minimum (u16_be (i - minimum) @ rest) = (Ok i, rest)" if "minimum \<le> i"
    by (rule per_integer_16.dec_enc [OF TrueI]) (simp only: w that if_True)
  then show ?thesis using w by blast
qed

lemma per_integer_16_round_trip_witness:
  "read_integer_16 1001 (u16_be (1004 - 1001) @ [7]) = (Ok 1004, [7])"
  using per_integer_16_round_trip [of 1004 1001 "[7]"] by simp

text \<open>
  C25. Reading back an object identifier that was written succeeds on the bytes but
  answers true only when the fifth component is zero (and the first two fit a nibble):
  the reader stores both the fourth and the fifth component byte at index 5, so index 4
  always compares against zero. The T.124 identifier of the code has a zero there.
\<close>

theorem per_object_identifier_round_trip:
  assumes "length oid = 6"
  shows "\<exists>bs. write_object_identifier oid = Ok bs \<and>
     read_object_identifier oid (bs @ rest) = (Ok (oid ! 0 < 16 \<and> oid ! 1 < 16 \<and> oid ! 4 = 0), rest)"
proof -
  have "(oid = [oid ! 0 AND 0xF, oid ! 1 AND 0xF, oid ! 2, oid ! 3, 0, oid ! 5])
      \<longleftrightarrow> oid ! 0 < 16 \<and> oid ! 1 < 16 \<and> oid ! 4 = 0"
  proof -
    obtain a b c d e f where o: "oid = [a, b, c, d, e, f]" using list6 [OF assms] by blast
    show ?thesis using nibble_id [of a] nibble_id [of b] by (auto simp: o)
  qed
  then have "read_object_identifier oid ([5, push_bit 4 (oid ! 0) OR (oid ! 1 AND 0xF), oid ! 2, oid ! 3,
      oid ! 4, oid ! 5] @ rest) = (Ok (oid ! 0 < 16 \<and> oid ! 1 < 16 \<and> oid ! 4 = 0), rest)"
    by (simp only: append.simps read_oid [OF assms] nibbles)
  then show ?thesis using oid_bytes [OF assms] by blast
qed

theorem per_object_identifier_round_trip_witness:
  "\<exists>bs. write_object_identifier [1, 2, 3, 4, 5, 6] = Ok bs \<and>
     read_object_identifier [1, 2, 3, 4, 5, 6] (bs @ [9]) = (Ok False, [9])"
  using per_object_identifier_round_trip [of "[1, 2, 3, 4, 5, 6]" "[9]"] by simp

text \<open>
  Checking an octet string accepts exactly its own encoding: the writer's bytes are
  accepted with the rest left over, and what is accepted is a length of the right value
  followed by the very octets.
\<close>

lemma per_octet_stream_exact:
  assumes "minimum \<le> length os" "length os - minimum < 0x8000"
  shows "(\<exists>bs. write_octet_stream os minimum = Ok bs \<and> read_octet_stream os minimum (bs @ rest) = (Ok (), rest))
     \<and> (\<forall>s s'. read_octet_stream os minimum s = (Ok (), s') \<longrightarrow>
          (\<exists>l. read_length s = (Ok l, os @ s') \<and> unat l = length os - minimum))"
proof (intro conjI allI impI)
  have "\<exists>bs. write_octet_stream os minimum = Ok bs"
    by (auto simp: write_octet_stream_Ok write_length_bytes)
  then show "\<exists>bs. write_octet_stream os minimum = Ok bs \<and> read_octet_stream os minimum (bs @ rest) = (Ok (), rest)"
    using octet_stream_written [OF assms] by blast
next
  fix s s' assume "read_octet_stream os minimum s = (Ok (), s')"
  then show "\<exists>l. read_length s = (Ok l, os @ s') \<and> unat l = length os - minimum"
    by (auto simp: read_octet_stream_def Let_def bindp_eq_Ok failp_def split: if_splits dest!: expect_octets_Ok)
qed

lemma per_octet_stream_exact_witness:
  "read_octet_stream [0x44, 0x75, 0x63, 0x61] 4 ([0, 0x44, 0x75, 0x63, 0x61] @ [1]) = (Ok (), [1])"
  using per_octet_stream_exact [of 4 "[0x44, 0x75, 0x63, 0x61]" "[1]"]
  by (simp add: write_octet_stream_Ok write_length_bytes)

end
