(* ===== verification/Rle.thy ===== *)
theory Rle
  imports Loops
begin

section \<open>Run-length decoding of bitmaps\<close>

text \<open>
  The decoders of \<^verbatim>\<open>src/src/codec/rle.rs\<close>: the 32 bit planes, the 16 bit orders with the
  \<open>repeat!\<close> macro, and the conversion of 5-6-5 pixels to 32 bits. The local variables of
  each decoder are a record, its output slice one of the fields. A signed byte is kept as
  its bits, read with \<open>sint\<close> where its sign counts.
\<close>

subsection \<open>The 32 bit planes\<close>

record plane =
  p_in :: "u8 list"
  p_out :: u32
  p_indexw :: u32
  p_indexh :: u32
  p_color :: u8
  p_last :: u32
  p_collen :: u8
  p_replen :: u8
  p_pix :: "u8 list"

definition plane_u8 :: "(plane, u8) prog" where
  "plane_u8 = zoom p_in (\<lambda>t s. s\<lparr>p_in := t\<rparr>) rd_u8"

definition plane_code :: "(plane, unit) prog" where
  "plane_code = bindp plane_u8 (\<lambda>code.
     let replen = code AND 0xf; collen = drop_bit 4 code AND 0xf;
         revcode = push_bit 4 replen OR collen in
     if revcode \<le> 47 \<and> 16 \<le> revcode
     then modp (\<lambda>s. s\<lparr>p_replen := revcode, p_collen := 0\<rparr>)
     else modp (\<lambda>s. s\<lparr>p_replen := replen, p_collen := collen\<rparr>))"

text \<open>Store a byte at \<open>out\<close>; the next byte of the plane is four further, the next column one.\<close>

definition plane_store :: "u8 \<Rightarrow> (plane, unit) prog" where
  "plane_store v = bindp get_state (\<lambda>s. bindp (liftp (slice_set (p_pix s) (unat (p_out s)) v)) (\<lambda>pix.
     bindp (liftp (addw (p_out s) 4)) (\<lambda>out.
     bindp (liftp (addw (p_indexw s) 1)) (\<lambda>indexw.
     modp (\<lambda>s. s\<lparr>p_pix := pix, p_out := out, p_indexw := indexw\<rparr>)))))"

definition first_literal :: "(plane, unit) prog" where
  "first_literal = bindp plane_u8 (\<lambda>b. bindp (modp (\<lambda>s. s\<lparr>p_color := b\<rparr>)) (\<lambda>_. plane_store b))"

definition first_repeat :: "(plane, unit) prog" where
  "first_repeat = bindp (getp p_color) plane_store"

text \<open>The colour change of a later line: sign in the lowest bit, magnitude above it.\<close>

definition delta_color :: "u8 \<Rightarrow> u8 outcome" where
  "delta_color x = (if x AND 1 \<noteq> 0
     then bindo (addw (drop_bit 1 x) 1) (\<lambda>x. Ok (ucast (- (ucast x :: 32 word))))
     else Ok (drop_bit 1 x))"

definition delta_store :: "(plane, unit) prog" where
  "delta_store = bindp get_state (\<lambda>s. bindp (liftp (mulw (p_indexw s) 4)) (\<lambda>k. bindp (liftp (addw (p_last s) k)) (\<lambda>i.
     bindp (liftp (slice_get (p_pix s) (unat i))) (\<lambda>above.
     plane_store (ucast (ucast above + scast (p_color s) :: 32 word))))))"

definition delta_literal :: "(plane, unit) prog" where
  "delta_literal = bindp plane_u8 (\<lambda>x. bindp (liftp (delta_color x)) (\<lambda>c.
     bindp (modp (\<lambda>s. s\<lparr>p_color := c\<rparr>)) (\<lambda>_. delta_store)))"

text \<open>One code of a line: its literal part, then its repeated part.\<close>

definition plane_runs :: "(plane, unit) prog \<Rightarrow> (plane, unit) prog \<Rightarrow> (plane, unit) prog" where
  "plane_runs literal again = bindp plane_code (\<lambda>_.
     bindp (getp p_collen) (\<lambda>n. bindp (timesp (unat n) literal) (\<lambda>_.
     bindp (getp p_replen) (\<lambda>n. timesp (unat n) again))))"

definition plane_line :: "u32 \<Rightarrow> (plane, unit) prog" where
  "plane_line width = bindp (getp p_last) (\<lambda>last.
     loop (length \<circ> p_in) (\<lambda>s. p_indexw s < width)
       (if last = 0 then plane_runs first_literal first_repeat
        else plane_runs delta_literal delta_store))"

definition plane_start :: "u32 \<Rightarrow> u32 \<Rightarrow> u32 \<Rightarrow> u32 outcome" where
  "plane_start width height indexh =
     bindo (mulw width height) (\<lambda>a. bindo (mulw a 4) (\<lambda>total.
     bindo (addw indexh 1) (\<lambda>b. bindo (mulw b width) (\<lambda>c. bindo (mulw c 4) (\<lambda>below.
     subw total below)))))"

definition plane_row :: "u32 \<Rightarrow> u32 \<Rightarrow> (plane, unit) prog" where
  "plane_row width height = bindp (getp p_indexh) (\<lambda>indexh.
     bindp (liftp (plane_start width height indexh)) (\<lambda>out.
     bindp (modp (\<lambda>s. s\<lparr>p_out := out, p_color := 0, p_indexw := 0\<rparr>)) (\<lambda>_.
     bindp (plane_line width) (\<lambda>_.
     bindp (liftp (addw indexh 1)) (\<lambda>h.
     modp (\<lambda>s. s\<lparr>p_indexh := h, p_last := out\<rparr>))))))"

definition process_plane :: "u32 \<Rightarrow> u32 \<Rightarrow> (u8 list \<times> u8 list, unit) prog" where
  "process_plane width height = zoom
     (\<lambda>(input, output). \<lparr>p_in = input, p_out = 0, p_indexw = 0, p_indexh = 0, p_color = 0,
        p_last = 0, p_collen = 0, p_replen = 0, p_pix = output\<rparr>)
     (\<lambda>t _. (p_in t, p_pix t))
     (loop (\<lambda>s. unat height - unat (p_indexh s)) (\<lambda>s. p_indexh s < height) (plane_row width height))"

text \<open>A plane works on \<open>output[k..]\<close>.\<close>

definition plane_at :: "nat \<Rightarrow> u32 \<Rightarrow> u32 \<Rightarrow> (u8 list \<times> u8 list, unit) prog" where
  "plane_at k width height = bindp (getp snd) (\<lambda>output.
     bindp (liftp (slice_from output k)) (\<lambda>_.
     zoom (\<lambda>(input, output). (input, drop k output))
       (\<lambda>(input, out) (_, output). (input, take k output @ out)) (process_plane width height)))"

definition rle_32_decompress :: "u8 list \<Rightarrow> u32 \<Rightarrow> u32 \<Rightarrow> (u8 list, unit) prog" where
  "rle_32_decompress input width height = zoom (\<lambda>output. (input, output)) (\<lambda>(_, out) _. out)
     (bindp (zoom fst (\<lambda>t s. (t, snd s)) rd_u8) (\<lambda>b.
      if b \<noteq> 0x10 then failp UnexpectedType
      else bindp (plane_at 3 width height) (\<lambda>_. bindp (plane_at 2 width height) (\<lambda>_.
           bindp (plane_at 1 width height) (\<lambda>_. plane_at 0 width height)))))"

subsection \<open>The 16 bit orders\<close>

record orders =
  o_in :: "u8 list"
  o_opcode :: u8
  o_lastopcode :: u8
  o_count :: u16
  o_insertmix :: bool
  o_x :: nat
  o_height :: nat
  o_prevline :: "nat option"
  o_line :: "nat option"
  o_colour1 :: u16
  o_colour2 :: u16
  o_mix :: u16
  o_mask :: u8
  o_fom_mask :: u8
  o_mixmask :: u8
  o_bicolour :: bool
  o_pix :: "u16 list"

definition ord_u8 :: "(orders, u8) prog" where
  "ord_u8 = zoom o_in (\<lambda>t s. s\<lparr>o_in := t\<rparr>) rd_u8"

definition ord_u16 :: "(orders, u16) prog" where
  "ord_u16 = zoom o_in (\<lambda>t s. s\<lparr>o_in := t\<rparr>) rd_u16_le"

text \<open>The opcode, the count and the offset that the code byte gives.\<close>

definition order_code :: "u8 \<Rightarrow> (orders, u16) prog" where
  "order_code code = (let opcode = drop_bit 4 code in
     if opcode = 0xC \<or> opcode = 0xD \<or> opcode = 0xE then
       bindp (modp (\<lambda>s. s\<lparr>o_opcode := opcode - 6, o_count := ucast (code AND 0xf)\<rparr>)) (\<lambda>_. retp 16)
     else if opcode = 0xF then
       let opcode = code AND 0xf in
       bindp (if opcode < 9 then ord_u16 else if opcode < 0xb then retp 8 else retp 1) (\<lambda>count.
       bindp (modp (\<lambda>s. s\<lparr>o_opcode := opcode, o_count := count\<rparr>)) (\<lambda>_. retp 0))
     else
       bindp (modp (\<lambda>s. s\<lparr>o_opcode := drop_bit 1 opcode, o_count := ucast (code AND 0x1f)\<rparr>)) (\<lambda>_. retp 32))"

definition order_count :: "u16 \<Rightarrow> (orders, unit) prog" where
  "order_count offset = bindp get_state (\<lambda>s.
     (if offset \<noteq> 0 then
        let isfillormix = (o_opcode s = 2 \<or> o_opcode s = 7) in
        if o_count s = 0 then
          bindp ord_u8 (\<lambda>b. bindp (liftp (addw (ucast b) (if isfillormix then 1 else offset))) (\<lambda>count.
          modp (\<lambda>s. s\<lparr>o_count := count\<rparr>)))
        else if isfillormix then modp (\<lambda>s. s\<lparr>o_count := push_bit 3 (o_count s)\<rparr>)
        else retp ()
      else retp ()))"

definition order_colours :: "nat \<Rightarrow> (orders, unit) prog" where
  "order_colours width = bindp get_state (\<lambda>s. (let opcode = o_opcode s in
     if opcode = 0 then
       (if o_lastopcode s = opcode \<and> \<not> (o_x s = width \<and> o_prevline s = None)
        then modp (\<lambda>s. s\<lparr>o_insertmix := True\<rparr>) else retp ())
     else if opcode = 8 then
       bindp ord_u16 (\<lambda>c1. bindp (modp (\<lambda>s. s\<lparr>o_colour1 := c1\<rparr>)) (\<lambda>_.
       bindp ord_u16 (\<lambda>c2. modp (\<lambda>s. s\<lparr>o_colour2 := c2\<rparr>))))
     else if opcode = 3 then bindp ord_u16 (\<lambda>c. modp (\<lambda>s. s\<lparr>o_colour2 := c\<rparr>))
     else if opcode = 6 \<or> opcode = 7 then
       bindp ord_u16 (\<lambda>m. modp (\<lambda>s. s\<lparr>o_mix := m, o_opcode := opcode - 5\<rparr>))
     else if opcode = 9 then modp (\<lambda>s. s\<lparr>o_mask := 3, o_opcode := 2, o_fom_mask := 3\<rparr>)
     else if opcode = 0xa then modp (\<lambda>s. s\<lparr>o_mask := 5, o_opcode := 2, o_fom_mask := 5\<rparr>)
     else retp ()))"

text \<open>At the end of a line the next one up begins; there must be one.\<close>

definition next_line :: "nat \<Rightarrow> (orders, unit) prog" where
  "next_line width = bindp get_state (\<lambda>s.
     (if width \<le> o_x s then
        (if o_height s = 0 then failp InvalidData
         else modp (\<lambda>s. s\<lparr>o_x := 0, o_height := o_height s - 1, o_prevline := o_line s,
                         o_line := Some ((o_height s - 1) * width)\<rparr>))
      else retp ()))"

text \<open>\<open>output[line.unwrap() + x] = v\<close> and \<open>output[e + x]\<close>.\<close>

definition put_pixel :: "u16 \<Rightarrow> (orders, unit) prog" where
  "put_pixel v = bindp get_state (\<lambda>s. bindp (liftp (unwrap_option (o_line s))) (\<lambda>l.
     bindp (liftp (slice_set (o_pix s) (l + o_x s) v)) (\<lambda>pix. modp (\<lambda>s. s\<lparr>o_pix := pix\<rparr>))))"

definition above_pixel :: "nat \<Rightarrow> (orders, u16) prog" where
  "above_pixel e = bindp get_state (\<lambda>s. liftp (slice_get (o_pix s) (e + o_x s)))"

definition count_down :: "(orders, unit) prog" where
  "count_down = bindp get_state (\<lambda>s. bindp (liftp (subw (o_count s) 1)) (\<lambda>c.
     modp (\<lambda>s. s\<lparr>o_count := c, o_x := o_x s + 1\<rparr>)))"

text \<open>The macro \<open>repeat!\<close>: eight rounds at a time while there are eight left, then one by one.\<close>

definition repeat_step :: "(orders, unit) prog \<Rightarrow> (orders, unit) prog" where
  "repeat_step e = bindp e (\<lambda>_. count_down)"

definition repeat_macro :: "nat \<Rightarrow> (orders, unit) prog \<Rightarrow> (orders, unit) prog" where
  "repeat_macro width e = bindp
     (loop (\<lambda>s. width - o_x s) (\<lambda>s. o_count s AND NOT 7 \<noteq> 0 \<and> o_x s + 8 < width)
       (timesp 8 (repeat_step e)))
     (\<lambda>_. loop (\<lambda>s. width - o_x s) (\<lambda>s. 0 < o_count s \<and> o_x s < width) (repeat_step e))"

definition fill_pixel :: "nat option \<Rightarrow> (orders, unit) prog" where
  "fill_pixel prev = (case prev of Some e \<Rightarrow> bindp (above_pixel e) put_pixel | None \<Rightarrow> put_pixel 0)"

definition mix_pixel :: "nat option \<Rightarrow> (orders, unit) prog" where
  "mix_pixel prev = bindp (getp o_mix) (\<lambda>mix. case prev of
       Some e \<Rightarrow> bindp (above_pixel e) (\<lambda>a. put_pixel (a XOR mix)) | None \<Rightarrow> put_pixel mix)"

definition next_mask :: "(orders, unit) prog" where
  "next_mask = bindp (modp (\<lambda>s. s\<lparr>o_mixmask := push_bit 1 (o_mixmask s)\<rparr>)) (\<lambda>_.
     bindp (getp o_mixmask) (\<lambda>mm. if mm = 0
       then bindp (getp o_fom_mask) (\<lambda>fm. bindp (if fm \<noteq> 0 then retp fm else ord_u8) (\<lambda>mask.
            modp (\<lambda>s. s\<lparr>o_mask := mask, o_mixmask := 1\<rparr>)))
       else retp ()))"

definition fom_pixel :: "nat option \<Rightarrow> (orders, unit) prog" where
  "fom_pixel prev = bindp next_mask (\<lambda>_. bindp (getp o_mask) (\<lambda>mask. bindp (getp o_mixmask) (\<lambda>mm.
     if mask AND mm \<noteq> 0 then mix_pixel prev else fill_pixel prev)))"

definition bicolour_pixel :: "(orders, unit) prog" where
  "bicolour_pixel = bindp (getp o_bicolour) (\<lambda>b. if b
     then bindp (getp o_colour2) (\<lambda>c. bindp (put_pixel c) (\<lambda>_. modp (\<lambda>s. s\<lparr>o_bicolour := False\<rparr>)))
     else bindp (getp o_colour1) (\<lambda>c. bindp (put_pixel c) (\<lambda>_.
          bindp (modp (\<lambda>s. s\<lparr>o_bicolour := True\<rparr>)) (\<lambda>_. bindp (getp o_count) (\<lambda>n.
          bindp (liftp (addw n 1)) (\<lambda>n. modp (\<lambda>s. s\<lparr>o_count := n\<rparr>)))))))"

definition order_draw_with ::
  "((orders, unit) prog \<Rightarrow> (orders, unit) prog) \<Rightarrow> (orders, unit) prog" where
  "order_draw_with rep = bindp (getp o_opcode) (\<lambda>opcode. bindp (getp o_prevline) (\<lambda>prev.
     if opcode = 0 then
       bindp (getp o_insertmix) (\<lambda>im.
       bindp (if im then bindp (mix_pixel prev) (\<lambda>_.
                bindp (modp (\<lambda>s. s\<lparr>o_insertmix := False\<rparr>)) (\<lambda>_. count_down)) else retp ()) (\<lambda>_.
       rep (fill_pixel prev)))
     else if opcode = 1 then rep (mix_pixel prev)
     else if opcode = 2 then rep (fom_pixel prev)
     else if opcode = 3 then rep (bindp (getp o_colour2) put_pixel)
     else if opcode = 4 then rep (bindp ord_u16 put_pixel)
     else if opcode = 8 then rep bicolour_pixel
     else if opcode = 0xd then rep (put_pixel 0xffff)
     else if opcode = 0xe then rep (put_pixel 0)
     else liftp (Panic ExplicitPanic)))"

definition order_draw :: "nat \<Rightarrow> (orders, unit) prog" where
  "order_draw width = order_draw_with (repeat_macro width)"

text \<open>Every round of an order takes a line or moves along one.\<close>

definition order_measure :: "nat \<Rightarrow> orders \<Rightarrow> nat" where
  "order_measure width s = o_height s * (width + 2) + (width + 1 - o_x s)"

definition one_order :: "nat \<Rightarrow> (orders, unit) prog" where
  "one_order width =
     bindp (modp (\<lambda>s. s\<lparr>o_fom_mask := 0\<rparr>)) (\<lambda>_.
     bindp ord_u8 (\<lambda>code. bindp (order_code code) (\<lambda>offset.
     bindp (order_count offset) (\<lambda>_. bindp (order_colours width) (\<lambda>_.
     bindp (modp (\<lambda>s. s\<lparr>o_lastopcode := o_opcode s, o_mixmask := 0\<rparr>)) (\<lambda>_.
     loop (order_measure width) (\<lambda>s. 0 < o_count s)
       (bindp (next_line width) (\<lambda>_. order_draw width))))))))"

definition orders_init :: "u8 list \<Rightarrow> nat \<Rightarrow> nat \<Rightarrow> u16 list \<Rightarrow> orders" where
  "orders_init input width height output = \<lparr>o_in = input, o_opcode = 0, o_lastopcode = 0xFF,
     o_count = 0, o_insertmix = False, o_x = width, o_height = height, o_prevline = None,
     o_line = None, o_colour1 = 0, o_colour2 = 0, o_mix = 0xffff, o_mask = 0, o_fom_mask = 0,
     o_mixmask = 0, o_bicolour = False, o_pix = output\<rparr>"

definition rle_16_decompress :: "u8 list \<Rightarrow> nat \<Rightarrow> nat \<Rightarrow> (u16 list, unit) prog" where
  "rle_16_decompress input width height = zoom (orders_init input width height) (\<lambda>t _. o_pix t)
     (loop (length \<circ> o_in) (\<lambda>s. o_in s \<noteq> []) (one_order width))"

subsection \<open>5-6-5 pixels to 32 bits\<close>

definition expand5 :: "u16 \<Rightarrow> u8 outcome" where
  "expand5 v = bindo (mulw v 527) (\<lambda>a. bindo (addw a 23) (\<lambda>b. Ok (ucast (drop_bit 6 b))))"

definition expand6 :: "u16 \<Rightarrow> u8 outcome" where
  "expand6 v = bindo (mulw v 259) (\<lambda>a. bindo (addw a 33) (\<lambda>b. Ok (ucast (drop_bit 6 b))))"

definition put_byte :: "nat \<Rightarrow> u8 outcome \<Rightarrow> (u8 list, unit) prog" where
  "put_byte k v = bindp (liftp v) (\<lambda>b. bindp get_state (\<lambda>r.
     bindp (liftp (slice_set r k b)) (\<lambda>r. modp (\<lambda>_. r))))"

definition rgb565_pixel :: "u16 list \<Rightarrow> nat \<Rightarrow> nat \<Rightarrow> nat \<Rightarrow> (u8 list, unit) prog" where
  "rgb565_pixel input width i j = (let index = i * width + j in
     bindp (liftp (slice_get input index)) (\<lambda>v.
     bindp (put_byte (index * 4 + 3) (Ok 0xff)) (\<lambda>_.
     bindp (put_byte (index * 4 + 2) (expand5 (drop_bit 11 v AND 0x1f))) (\<lambda>_.
     bindp (put_byte (index * 4 + 1) (expand6 (drop_bit 5 v AND 0x3f))) (\<lambda>_.
     put_byte (index * 4) (expand5 (v AND 0x1f)))))))"

definition rgb565torgb32 :: "u16 list \<Rightarrow> nat \<Rightarrow> nat \<Rightarrow> u8 list outcome" where
  "rgb565torgb32 input width height =
     (case forp [0..<height] (\<lambda>i. forp [0..<width] (rgb565_pixel input width i))
        (replicate (width * height * 4) 0) of
        (Ok _, result) \<Rightarrow> Ok result
      | (Err e, _) \<Rightarrow> Err e
      | (Panic p, _) \<Rightarrow> Panic p
      | (Diverge, _) \<Rightarrow> Diverge)"

subsection \<open>What one pixel may change\<close>

text \<open>A pixel leaves the position and the lines alone and never lowers the count.\<close>

definition pixel_frame :: "orders \<Rightarrow> orders \<Rightarrow> bool" where
  "pixel_frame s t \<longleftrightarrow> o_x t = o_x s \<and> o_line t = o_line s \<and> o_prevline t = o_prevline s
     \<and> o_height t = o_height s \<and> length (o_pix t) = length (o_pix s) \<and> unat (o_count s) \<le> unat (o_count t)
     \<and> length (o_in t) \<le> length (o_in s)"

definition pixel_ok :: "panic set \<Rightarrow> nat option \<Rightarrow> orders \<Rightarrow> bool" where
  "pixel_ok P prev s \<longleftrightarrow> ArithOverflow \<in> P \<and> (OutOfBounds \<in> P \<and> UnwrapFailed \<in> P \<or>
     (\<exists>l. o_line s = Some l \<and> l + o_x s < length (o_pix s)) \<and> (\<forall>e. prev = Some e \<longrightarrow> e + o_x s < length (o_pix s)))"

lemma wp_put_pixel [wp_simps]:
  "wp (put_pixel v) Q P s = (case o_line s of None \<Rightarrow> UnwrapFailed \<in> P
     | Some l \<Rightarrow> if l + o_x s < length (o_pix s) then Q () (s\<lparr>o_pix := (o_pix s)[l + o_x s := v]\<rparr>)
                 else OutOfBounds \<in> P)"
  by (simp add: put_pixel_def wp_simps split: option.split)

lemma wp_above_pixel [wp_simps]:
  "wp (above_pixel e) Q P s = (if e + o_x s < length (o_pix s) then Q (o_pix s ! (e + o_x s)) s else OutOfBounds \<in> P)"
  by (simp add: above_pixel_def wp_simps)

lemma wp_ord_u8 [wp_simps]:
  "wp ord_u8 Q P s = (\<forall>b r. o_in s = b # r \<longrightarrow> Q b (s\<lparr>o_in := r\<rparr>))"
  by (cases "o_in s") (auto simp: ord_u8_def rd_u8_def wp_simps)

lemma wp_ord_u16 [wp_simps]:
  "wp ord_u16 Q P s = (\<forall>b c r. o_in s = b # c # r \<longrightarrow> Q (le_u16 [b, c]) (s\<lparr>o_in := r\<rparr>))"
proof (cases "\<exists>b c r. o_in s = b # c # r")
  case False
  then have "length (o_in s) < 2" by (cases "o_in s" rule: remdups_adj.cases) auto
  then show ?thesis using False by (simp add: ord_u16_def rd_u16_le_def wp_simps)
qed (auto simp: ord_u16_def rd_u16_le_def wp_simps)

lemmas pixel_defs = pixel_frame_def pixel_ok_def

lemma wp_fill_pixel: "pixel_ok P prev s \<Longrightarrow> wp (fill_pixel prev) (\<lambda>_. pixel_frame s) P s"
  by (auto simp: fill_pixel_def wp_simps pixel_defs split: option.splits)

lemma wp_mix_pixel: "pixel_ok P prev s \<Longrightarrow> wp (mix_pixel prev) (\<lambda>_. pixel_frame s) P s"
  by (auto simp: mix_pixel_def wp_simps pixel_defs split: option.splits)

lemma wp_put_pixel_frame: "pixel_ok P prev s \<Longrightarrow> wp (put_pixel v) (\<lambda>_. pixel_frame s) P s"
  by (auto simp: wp_simps pixel_defs split: option.splits)

lemma wp_colour2_pixel: "pixel_ok P prev s \<Longrightarrow> wp (bindp (getp o_colour2) put_pixel) (\<lambda>_. pixel_frame s) P s"
  by (auto simp: wp_simps pixel_defs split: option.splits)

lemma wp_ord_pixel: "pixel_ok P prev s \<Longrightarrow> wp (bindp ord_u16 put_pixel) (\<lambda>_. pixel_frame s) P s"
  by (auto simp: wp_simps pixel_defs split: option.splits)

lemma wp_bicolour_pixel: "pixel_ok P prev s \<Longrightarrow> wp bicolour_pixel (\<lambda>_. pixel_frame s) P s"
  by (auto simp: bicolour_pixel_def wp_simps pixel_defs unat_word_ariths split: option.splits)

lemma pixel_frame_refl: "pixel_frame s s" by (simp add: pixel_frame_def)

lemma pixel_frame_trans: "pixel_frame s t \<Longrightarrow> pixel_frame t u \<Longrightarrow> pixel_frame s u"
  by (auto simp: pixel_frame_def)

lemma pixel_ok_frame: "pixel_ok P prev s \<Longrightarrow> pixel_frame s t \<Longrightarrow> pixel_ok P prev t"
  by (auto simp: pixel_defs)

lemma wp_next_mask: "wp next_mask (\<lambda>_. pixel_frame s) P s"
  by (auto simp: next_mask_def wp_simps pixel_defs)

lemma wp_fom_pixel: "pixel_ok P prev s \<Longrightarrow> wp (fom_pixel prev) (\<lambda>_. pixel_frame s) P s"
  unfolding fom_pixel_def wp_simps
  by (rule wp_mono [OF wp_next_mask])
    (auto simp: wp_simps intro!: wp_mono [OF wp_mix_pixel] wp_mono [OF wp_fill_pixel]
       intro: pixel_ok_frame pixel_frame_trans)

definition pixel_safe :: "panic set \<Rightarrow> nat option \<Rightarrow> (orders, unit) prog \<Rightarrow> bool" where
  "pixel_safe P prev e \<longleftrightarrow> (\<forall>s. pixel_ok P prev s \<longrightarrow> wp e (\<lambda>_. pixel_frame s) P s)"

lemma pixels_safe:
  "pixel_safe P prev (fill_pixel prev)" "pixel_safe P prev (mix_pixel prev)" "pixel_safe P prev (fom_pixel prev)"
  "pixel_safe P prev (bindp (getp o_colour2) put_pixel)" "pixel_safe P prev (bindp ord_u16 put_pixel)"
  "pixel_safe P prev bicolour_pixel" "pixel_safe P prev (put_pixel v)"
  by (simp_all add: pixel_safe_def wp_fill_pixel wp_mix_pixel wp_fom_pixel wp_colour2_pixel wp_ord_pixel
      wp_bicolour_pixel wp_put_pixel_frame)

subsection \<open>The repeat macro\<close>

lemma wp_count_down [wp_simps]:
  "wp count_down Q P s = (if o_count s = 0 then ArithOverflow \<in> P
     else Q () (s\<lparr>o_count := o_count s - 1, o_x := o_x s + 1\<rparr>))"
proof -
  have "1 \<le> o_count s \<longleftrightarrow> o_count s \<noteq> 0" by (auto simp: word_le_nat_alt Suc_le_eq unat_gt_0)
  then show ?thesis by (simp add: count_down_def wp_simps)
qed

definition row_ok :: "nat \<Rightarrow> panic set \<Rightarrow> nat option \<Rightarrow> orders \<Rightarrow> bool" where
  "row_ok width P prev s \<longleftrightarrow> ArithOverflow \<in> P \<and> (OutOfBounds \<in> P \<and> UnwrapFailed \<in> P \<or>
     (\<exists>l. o_line s = Some l \<and> l + width \<le> length (o_pix s)) \<and> (\<forall>e. prev = Some e \<longrightarrow> e + width \<le> length (o_pix s)))"

lemma row_pixel_ok: "row_ok width P prev s \<Longrightarrow> o_x s < width \<Longrightarrow> pixel_ok P prev s"
  by (auto simp: row_ok_def pixel_ok_def)

text \<open>After \<open>n\<close> pixels: \<open>n\<close> columns further, the count lower by at most \<open>n\<close>.\<close>

definition advanced :: "nat \<Rightarrow> orders \<Rightarrow> orders \<Rightarrow> bool" where
  "advanced n s t \<longleftrightarrow> o_x t = o_x s + n \<and> o_line t = o_line s \<and> o_prevline t = o_prevline s
     \<and> o_height t = o_height s \<and> length (o_pix t) = length (o_pix s) \<and> unat (o_count s) \<le> unat (o_count t) + n
     \<and> length (o_in t) \<le> length (o_in s)"

lemma advanced_trans: "advanced m s t \<Longrightarrow> advanced n t u \<Longrightarrow> advanced (m + n) s u"
  by (auto simp: advanced_def)

lemma row_ok_advanced: "row_ok width P prev s \<Longrightarrow> advanced n s t \<Longrightarrow> row_ok width P prev t"
  by (auto simp: row_ok_def advanced_def)

lemma wp_repeat_step:
  assumes "pixel_safe P prev e" "pixel_ok P prev s" "0 < o_count s"
  shows "wp (repeat_step e) (\<lambda>_. advanced 1 s) P s"
proof -
  have "wp e (\<lambda>_. pixel_frame s) P s" using assms by (simp add: pixel_safe_def)
  moreover have "\<And>t. pixel_frame s t \<Longrightarrow> wp count_down (\<lambda>_. advanced 1 s) P t"
    using assms(3)
    by (auto simp: wp_simps pixel_frame_def advanced_def word_less_nat_alt unat_minus_one)
  ultimately show ?thesis unfolding repeat_step_def wp_bindp by (rule wp_mono) auto
qed

lemma wp_repeat_times:
  assumes "pixel_safe P prev e" "row_ok width P prev s" "n \<le> unat (o_count s)" "o_x s + n \<le> width"
  shows "wp (timesp n (repeat_step e)) (\<lambda>_. advanced n s) P s"
  using assms(2-)
proof (induction n arbitrary: s)
  case 0
  then show ?case by (simp add: wp_retp advanced_def)
next
  case (Suc n)
  have "wp (repeat_step e) (\<lambda>_. advanced 1 s) P s"
    using Suc.prems by (intro wp_repeat_step [OF assms(1)] row_pixel_ok) (auto simp: word_less_nat_alt)
  then have "wp (repeat_step e) (\<lambda>_. wp (timesp n (repeat_step e)) (\<lambda>_. advanced (Suc n) s) P) P s"
  proof (rule wp_mono)
    fix a t assume t: "advanced 1 s t"
    have "wp (timesp n (repeat_step e)) (\<lambda>_. advanced n t) P t"
      using Suc.prems t by (intro Suc.IH row_ok_advanced [OF _ t]) (auto simp: advanced_def)
    then show "wp (timesp n (repeat_step e)) (\<lambda>_. advanced (Suc n) s) P t"
      by (rule wp_mono) (use advanced_trans [OF t] in auto)
  qed simp
  then show ?case by (simp add: wp_bindp)
qed

lemma and_not_7: "(c :: u16) AND NOT 7 \<noteq> 0 \<Longrightarrow> 8 \<le> unat c"
proof (rule ccontr)
  assume c: "c AND NOT 7 \<noteq> 0" and "\<not> 8 \<le> unat c"
  then have "unat (take_bit 3 c) = unat c" by (subst unsigned_take_bit_eq) (simp add: take_bit_nat_eq_self)
  then have "take_bit 3 c = c" by (rule word_unat_eq_iff [THEN iffD2])
  moreover have "c AND NOT 7 = c AND NOT (mask 3)" by (simp add: mask_eq_exp_minus_1)
  moreover have "take_bit 3 c AND NOT (mask 3) = 0" by (intro bit_word_eqI) (auto simp: bit_simps)
  ultimately show False using c by simp
qed

text \<open>What the macro leaves: some columns further; if none, the count has not dropped.\<close>

definition repeated :: "nat \<Rightarrow> orders \<Rightarrow> orders \<Rightarrow> bool" where
  "repeated width s t \<longleftrightarrow> (\<exists>n. advanced n s t \<and> (n = 0 \<or> o_x t \<le> width))"

lemma repeated_advanced: "repeated width s t \<Longrightarrow> advanced n t u \<Longrightarrow> o_x u \<le> width \<Longrightarrow> repeated width s u"
  unfolding repeated_def by (meson advanced_trans)

lemma wp_repeat_macro:
  assumes e: "pixel_safe P prev e" and s: "row_ok width P prev s"
  shows "wp (repeat_macro width e) (\<lambda>_ t. repeated width s t \<and> (0 < o_count s \<and> o_x s < width \<longrightarrow> o_x s < o_x t)) P s"
    (is "wp _ ?Q P s")
proof -
  have ok: "row_ok width P prev t" if "repeated width s t" for t
    using that row_ok_advanced [OF s] by (auto simp: repeated_def)
  have one: "wp (repeat_step e) (\<lambda>_ u. repeated width s u \<and> width - o_x u < width - o_x t) P t"
    if t: "repeated width s t" "0 < o_count t \<and> o_x t < width" for t
    by (rule wp_mono [OF wp_repeat_step [OF e]])
      (use t row_pixel_ok [OF ok] repeated_advanced [OF t(1), of 1] in \<open>auto simp: advanced_def\<close>)
  have eight: "wp (timesp 8 (repeat_step e)) (\<lambda>_ u. repeated width s u \<and> width - o_x u < width - o_x t) P t"
    if t: "repeated width s t" "o_count t AND NOT 7 \<noteq> 0 \<and> o_x t + 8 < width" for t
    by (rule wp_mono [OF wp_repeat_times [OF e ok]])
      (use t and_not_7 repeated_advanced [OF t(1)] in \<open>auto simp: advanced_def\<close>)
  have fin: "?Q () t" if t: "repeated width s t" "\<not> (0 < o_count t \<and> o_x t < width)" for t
  proof -
    obtain n where n: "advanced n s t" "n = 0 \<or> o_x t \<le> width" using t(1) by (auto simp: repeated_def)
    then show ?thesis using t by (cases "n = 0") (auto simp: advanced_def word_less_nat_alt)
  qed
  show ?thesis unfolding repeat_macro_def wp_bindp
    by (rule wp_loop [where I = "repeated width s"], simp add: repeated_def advanced_def, rule eight, assumption+,
      rule wp_loop [where I = "repeated width s"], assumption, rule one, assumption+, rule fin)
qed

subsection \<open>Orders\<close>

lemma wp_getp_bindp: "wp (bindp (getp f) g) Q P s = wp (g (f s)) Q P s"
  by (simp add: wp_simps)

lemma wp_order_draw:
  assumes row: "row_ok width P (o_prevline s) s" and pix: "pixel_ok P (o_prevline s) s"
    and P: "ExplicitPanic \<in> P" and c: "0 < o_count s"
  shows "wp (order_draw width) (\<lambda>_ t. \<exists>n. advanced n s t \<and> (o_x s < width \<longrightarrow> 0 < n \<and> o_x t \<le> width)) P s"
    (is "wp _ ?Q P s")
proof -
  let ?prev = "o_prevline s"
  have moved: "\<exists>n. advanced n s t \<and> (o_x s < width \<longrightarrow> 0 < n \<and> o_x t \<le> width)"
    if "repeated width s t \<and> (0 < o_count s \<and> o_x s < width \<longrightarrow> o_x s < o_x t)" for t
    using that c by (auto simp: repeated_def advanced_def)
  have plain: "wp (repeat_macro width e) ?Q P s" if "pixel_safe P ?prev e" for e
    by (rule wp_mono [OF wp_repeat_macro [OF that row]]) (use moved in auto)
  have mixed: "wp (bindp (mix_pixel ?prev) (\<lambda>_. bindp (modp (\<lambda>s. s\<lparr>o_insertmix := False\<rparr>)) (\<lambda>_. count_down)))
      (\<lambda>_. advanced 1 s) P s"
    unfolding wp_bindp
    by (rule wp_mono [OF wp_mix_pixel [OF pix]])
      (use c in \<open>auto simp: wp_simps pixel_frame_def advanced_def word_less_nat_alt unat_minus_one\<close>)
  have again: "wp (repeat_macro width (fill_pixel ?prev)) ?Q P u" if u: "advanced 1 s u" for u
  proof (rule wp_mono [OF wp_repeat_macro [OF pixels_safe(1) row_ok_advanced [OF row u]]])
    fix t assume "repeated width u t \<and> (0 < o_count u \<and> o_x u < width \<longrightarrow> o_x u < o_x t)"
    then obtain n where n: "advanced n u t" "n = 0 \<or> o_x t \<le> width" by (auto simp: repeated_def)
    then have "advanced (1 + n) s t" "o_x s < width \<Longrightarrow> o_x t \<le> width"
      using advanced_trans [OF u n(1)] u by (auto simp: advanced_def)
    then show "?Q () t" by (intro exI [of _ "1 + n"]) auto
  qed simp
  have zero: "wp (bindp (if im then bindp (mix_pixel ?prev) (\<lambda>_.
      bindp (modp (\<lambda>s. s\<lparr>o_insertmix := False\<rparr>)) (\<lambda>_. count_down)) else retp ())
      (\<lambda>_. repeat_macro width (fill_pixel ?prev))) ?Q P s" for im
  proof (cases im)
    case True
    then show ?thesis unfolding wp_bindp [of _ "\<lambda>_. repeat_macro width _"]
      by (simp del: wp_bindp) (rule wp_mono [OF mixed], use again in auto)
  qed (simp add: plain pixels_safe)
  show ?thesis
    unfolding order_draw_def order_draw_with_def
    using zero [of "o_insertmix s"] by (auto simp: wp_getp_bindp wp_panic P intro!: plain pixels_safe)
qed

definition orders_inv :: "nat \<Rightarrow> panic set \<Rightarrow> nat \<Rightarrow> orders \<Rightarrow> bool" where
  "orders_inv width P len s \<longleftrightarrow> length (o_pix s) = len \<and> {ArithOverflow, ExplicitPanic} \<subseteq> P \<and>
     (OutOfBounds \<in> P \<and> UnwrapFailed \<in> P \<or>
      0 < width \<and> o_x s \<le> width \<and> (o_x s < width \<longrightarrow> o_line s \<noteq> None) \<and> o_height s * width \<le> len \<and>
      (\<forall>l. o_line s = Some l \<or> o_prevline s = Some l \<longrightarrow> l + width \<le> len))"

lemma wp_order_round:
  assumes inv: "orders_inv width P len s" and c: "0 < o_count s"
  shows "wp (bindp (next_line width) (\<lambda>_. order_draw width))
    (\<lambda>_ t. orders_inv width P len t \<and> length (o_in t) \<le> length (o_in s) \<and> order_measure width t < order_measure width s) P s"
proof -
  let ?R = "\<lambda>t. orders_inv width P len t \<and> length (o_in t) \<le> length (o_in s) \<and> order_measure width t < order_measure width s"
  have draw: "wp (order_draw width) (\<lambda>_. ?R) P u"
    if u: "orders_inv width P len u" "0 < o_count u" "length (o_in u) \<le> length (o_in s)"
      and less: "o_x u < width \<and> order_measure width u \<le> order_measure width s \<or> order_measure width u < order_measure width s"
      and safe: "OutOfBounds \<in> P \<and> UnwrapFailed \<in> P \<or> o_x u < width" for u
  proof (rule wp_mono [OF wp_order_draw [of width P u]])
    show "row_ok width P (o_prevline u) u" using u(1) safe by (auto simp: orders_inv_def row_ok_def)
    then show "pixel_ok P (o_prevline u) u" using safe by (auto simp: row_ok_def pixel_ok_def)
    show "ExplicitPanic \<in> P" using u(1) by (auto simp: orders_inv_def)
  next
    fix t assume "\<exists>n. advanced n u t \<and> (o_x u < width \<longrightarrow> 0 < n \<and> o_x t \<le> width)"
    then obtain n where n: "advanced n u t" "o_x u < width \<longrightarrow> 0 < n \<and> o_x t \<le> width" by blast
    then have "order_measure width t \<le> order_measure width u"
      "o_x u < width \<Longrightarrow> order_measure width t < order_measure width u"
      by (auto simp: advanced_def order_measure_def)
    then show "?R t" using u n less safe by (auto simp: orders_inv_def advanced_def)
  qed (use u in auto)
  show ?thesis
  proof (cases "width \<le> o_x s")
    case True
    show ?thesis
    proof (cases "o_height s")
      case 0
      then show ?thesis using True by (simp add: next_line_def wp_simps)
    next
      case (Suc k)
      have "wp (order_draw width) (\<lambda>_. ?R) P
          (s\<lparr>o_x := 0, o_height := k, o_prevline := o_line s, o_line := Some (k * width)\<rparr>)"
        by (rule draw) (use inv c Suc True in \<open>auto simp: orders_inv_def order_measure_def\<close>)
      then show ?thesis using True Suc by (simp add: next_line_def wp_simps)
    qed
  next
    case False
    then show ?thesis using inv c draw [of s] by (simp add: next_line_def wp_simps)
  qed
qed

lemma orders_inv_reset:
  "orders_inv width P len s \<Longrightarrow> orders_inv width P len (s\<lparr>o_fom_mask := a, o_in := i\<rparr>)"
  by (simp add: orders_inv_def)

definition parsed :: "orders \<Rightarrow> orders \<Rightarrow> bool" where
  "parsed s t \<longleftrightarrow> length (o_in t) \<le> length (o_in s) \<and> o_x t = o_x s \<and> o_line t = o_line s
     \<and> o_prevline t = o_prevline s \<and> o_height t = o_height s \<and> o_pix t = o_pix s"

lemma wp_order_code: "wp (order_code code) (\<lambda>_. parsed s) P s"
  by (auto simp: order_code_def Let_def wp_simps parsed_def)

lemma wp_order_count: "ArithOverflow \<in> P \<Longrightarrow> wp (order_count offset) (\<lambda>_. parsed s) P s"
  by (auto simp: order_count_def Let_def wp_simps parsed_def)

lemma wp_order_colours: "wp (order_colours width) (\<lambda>_. parsed s) P s"
  by (auto simp: order_colours_def Let_def wp_simps parsed_def)

lemma parsed_trans: "parsed s t \<Longrightarrow> parsed t u \<Longrightarrow> parsed s u"
  by (simp add: parsed_def)

lemma wp_one_order:
  assumes inv: "orders_inv width P len s" and ne: "o_in s \<noteq> []"
  shows "wp (one_order width) (\<lambda>_ t. orders_inv width P len t \<and> length (o_in t) < length (o_in s)) P s"
proof -
  let ?R = "\<lambda>t. orders_inv width P len t \<and> length (o_in t) < length (o_in s)"
  have P: "ArithOverflow \<in> P" using inv by (auto simp: orders_inv_def)
  have draw: "wp (loop (order_measure width) (\<lambda>s. 0 < o_count s) (bindp (next_line width) (\<lambda>_. order_draw width)))
      (\<lambda>_. ?R) P t" if "?R t" for t
    by (rule wp_loop [where I = ?R], rule that, rule wp_mono [OF wp_order_round], auto)
  have parsed_R: "?R (t\<lparr>o_lastopcode := l, o_mixmask := m\<rparr>)"
    if "parsed (s\<lparr>o_fom_mask := 0, o_in := i\<rparr>) t" "length i < length (o_in s)" for t i l m
    using that inv by (auto simp: parsed_def orders_inv_def)
  obtain b i where i: "o_in s = b # i" using ne by (cases "o_in s") auto
  let ?s = "s\<lparr>o_fom_mask := 0, o_in := i\<rparr>"
  have rest: "wp (bindp (modp (\<lambda>s. s\<lparr>o_lastopcode := o_opcode s, o_mixmask := 0\<rparr>)) (\<lambda>_.
      loop (order_measure width) (\<lambda>s. 0 < o_count s) (bindp (next_line width) (\<lambda>_. order_draw width))))
      (\<lambda>_. ?R) P t" if "parsed ?s t" for t
    unfolding wp_bindp [of "modp _"] wp_modp by (rule draw, rule parsed_R [OF that]) (simp add: i)
  have "wp (bindp (order_code b) (\<lambda>offset. bindp (order_count offset) (\<lambda>_. order_colours width)))
      (\<lambda>_. parsed ?s) P ?s"
    unfolding wp_bindp
    by (rule wp_mono [OF wp_order_code], rule wp_mono [OF wp_order_count [OF P]],
        rule wp_mono [OF wp_order_colours], auto intro: parsed_trans)
  then have "wp (bindp (order_code b) (\<lambda>offset. bindp (order_count offset) (\<lambda>_. bindp (order_colours width) (\<lambda>_.
      bindp (modp (\<lambda>s. s\<lparr>o_lastopcode := o_opcode s, o_mixmask := 0\<rparr>)) (\<lambda>_.
      loop (order_measure width) (\<lambda>s. 0 < o_count s) (bindp (next_line width) (\<lambda>_. order_draw width)))))))
      (\<lambda>_. ?R) P ?s"
    unfolding wp_bindp
    by (elim wp_mono) (auto intro: rest [unfolded wp_bindp])
  then show ?thesis by (simp add: one_order_def wp_bindp wp_modp wp_ord_u8 i)
qed

lemma wp_rle_16_decompress:
  assumes "{ArithOverflow, ExplicitPanic} \<subseteq> P"
    and "OutOfBounds \<in> P \<and> UnwrapFailed \<in> P \<or> 0 < width \<and> width * height \<le> length output"
  shows "wp (rle_16_decompress input width height) (\<lambda>_ out. length out = length output) P output"
  unfolding rle_16_decompress_def wp_zoom
  by (rule wp_loop [where I = "orders_inv width P (length output)"],
      use assms in \<open>force simp: orders_inv_def orders_init_def mult.commute\<close>,
      rule wp_mono [OF wp_one_order], auto simp: orders_inv_def)

subsection \<open>The unrolled macro is the plain loop\<close>

definition repeat_plain :: "nat \<Rightarrow> (orders, unit) prog \<Rightarrow> (orders, unit) prog" where
  "repeat_plain width e = loop (\<lambda>s. width - o_x s) (\<lambda>s. 0 < o_count s \<and> o_x s < width) (repeat_step e)"

lemma wp_UNIV_Ok: "wp m Q UNIV s \<Longrightarrow> m s = (Ok a, t) \<Longrightarrow> Q a t"
  by (simp add: wp_def)

lemma repeat_step_Ok:
  assumes "pixel_safe UNIV prev e" "0 < o_count s" "repeat_step e s = (Ok a, t)"
  shows "advanced 1 s t"
proof -
  have "pixel_ok UNIV prev s" by (simp add: pixel_ok_def)
  from wp_UNIV_Ok [OF wp_repeat_step [OF assms(1) this assms(2)] assms(3)] show ?thesis .
qed

lemma repeat_plain_unfold:
  assumes "pixel_safe UNIV prev e"
  shows "repeat_plain width e s =
    (if 0 < o_count s \<and> o_x s < width then bindp (repeat_step e) (\<lambda>_. repeat_plain width e) s else (Ok (), s))"
  unfolding repeat_plain_def
  by (rule loop_unfold) (auto dest!: repeat_step_Ok [OF assms] simp: advanced_def)

lemma repeat_plain_times:
  assumes "pixel_safe UNIV prev e" "n \<le> unat (o_count s)" "o_x s + n \<le> width"
  shows "bindp (timesp n (repeat_step e)) (\<lambda>_. repeat_plain width e) s = repeat_plain width e s"
  using assms(2-)
proof (induction n arbitrary: s)
  case (Suc n)
  then have c: "0 < o_count s" "o_x s < width" by (auto simp: word_less_nat_alt)
  have "bindp (timesp (Suc n) (repeat_step e)) (\<lambda>_. repeat_plain width e) s
      = bindp (repeat_step e) (\<lambda>_. bindp (timesp n (repeat_step e)) (\<lambda>_. repeat_plain width e)) s"
    by (simp add: bindp_assoc)
  also have "\<dots> = bindp (repeat_step e) (\<lambda>_. repeat_plain width e) s"
  proof (rule bindp_cong)
    fix a t assume "repeat_step e s = (Ok a, t)"
    then have "advanced 1 s t" by (rule repeat_step_Ok [OF assms(1) c(1)])
    then show "bindp (timesp n (repeat_step e)) (\<lambda>_. repeat_plain width e) t = repeat_plain width e t"
      using Suc.prems by (intro Suc.IH) (auto simp: advanced_def)
  qed auto
  also have "\<dots> = repeat_plain width e s" using c by (simp add: repeat_plain_unfold [OF assms(1), of width s])
  finally show ?case .
qed simp

lemma repeat_macro_plain:
  assumes e: "pixel_safe UNIV prev e"
  shows "repeat_macro width e = repeat_plain width e"
proof (rule ext)
  let ?c = "\<lambda>s. o_count s AND NOT 7 \<noteq> 0 \<and> o_x s + 8 < width"
  let ?b = "timesp 8 (repeat_step e)"
  have eight: "o_x t = o_x s + 8" if "?c s" "?b s = (Ok a, t)" for s a t
  proof -
    have "row_ok width UNIV prev s" by (simp add: row_ok_def)
    then have "wp ?b (\<lambda>_. advanced 8 s) UNIV s"
      using that and_not_7 by (intro wp_repeat_times [OF e]) auto
    from wp_UNIV_Ok [OF this that(2)] show ?thesis by (simp add: advanced_def)
  qed
  have unfold: "loop (\<lambda>s. width - o_x s) ?c ?b s =
      (if ?c s then bindp ?b (\<lambda>_. loop (\<lambda>s. width - o_x s) ?c ?b) s else (Ok (), s))" for s
  proof (rule loop_unfold)
    fix s t assume "?c s" "?b s = (Ok (), t)"
    then show "width - o_x t < width - o_x s" using eight [of s "()" t] by linarith
  qed
  have "bindp (loop (\<lambda>s. width - o_x s) ?c ?b) (\<lambda>_. repeat_plain width e) s = repeat_plain width e s" for s
  proof (induction "width - o_x s" arbitrary: s rule: less_induct)
    case less
    show ?case
    proof (cases "?c s")
      case True
      have "bindp (loop (\<lambda>s. width - o_x s) ?c ?b) (\<lambda>_. repeat_plain width e) s
        = bindp (bindp ?b (\<lambda>_. loop (\<lambda>s. width - o_x s) ?c ?b)) (\<lambda>_. repeat_plain width e) s"
        by (rule bindp_cong) (simp_all only: unfold [of s] True simp_thms if_True)
      also have "\<dots> = bindp ?b (\<lambda>_. bindp (loop (\<lambda>s. width - o_x s) ?c ?b) (\<lambda>_. repeat_plain width e)) s"
        by (simp only: bindp_assoc)
      also have "\<dots> = bindp ?b (\<lambda>_. repeat_plain width e) s"
      proof (rule bindp_cong)
        fix a t assume "?b s = (Ok a, t)"
        then show "bindp (loop (\<lambda>s. width - o_x s) ?c ?b) (\<lambda>_. repeat_plain width e) t = repeat_plain width e t"
          using True eight [of s] by (intro less) auto
      qed auto
      also have "\<dots> = repeat_plain width e s"
        using True and_not_7 by (intro repeat_plain_times [OF e]) auto
      finally show ?thesis .
    next
      case False
      then show ?thesis by (simp only: unfold [of s] bindp_def [of "loop _ _ _"] if_False prod.case outcome.case)
    qed
  qed
  then show "repeat_macro width e s = repeat_plain width e s" for s
    by (simp only: repeat_macro_def repeat_plain_def)
qed

subsection \<open>Planes end and keep their length\<close>

definition plane_frame :: "plane \<Rightarrow> plane \<Rightarrow> bool" where
  "plane_frame s t \<longleftrightarrow> length (p_pix t) = length (p_pix s) \<and> p_indexh t = p_indexh s
     \<and> p_last t = p_last s \<and> length (p_in t) \<le> length (p_in s)"

abbreviation plane_panics :: "panic set" where
  "plane_panics \<equiv> {ArithOverflow, OutOfBounds}"

lemma plane_frame_trans: "plane_frame s t \<Longrightarrow> plane_frame t u \<Longrightarrow> plane_frame s u"
  by (auto simp: plane_frame_def)

lemma wp_plane_u8 [wp_simps]:
  "wp plane_u8 Q P s = (\<forall>b r. p_in s = b # r \<longrightarrow> Q b (s\<lparr>p_in := r\<rparr>))"
  by (cases "p_in s") (auto simp: plane_u8_def rd_u8_def wp_simps)

lemma wp_plane_store: "wp (plane_store v) (\<lambda>_. plane_frame s) plane_panics s"
  by (auto simp: plane_store_def wp_simps plane_frame_def)

lemma wp_delta_color: "(\<And>c. Q c s) \<Longrightarrow> wp (liftp (delta_color x)) Q plane_panics s"
  by (simp add: delta_color_def wp_liftp addw_def)

lemma wp_plane_pixels:
  "wp first_literal (\<lambda>_. plane_frame s) plane_panics s" "wp first_repeat (\<lambda>_. plane_frame s) plane_panics s"
  "wp delta_literal (\<lambda>_. plane_frame s) plane_panics s" "wp delta_store (\<lambda>_. plane_frame s) plane_panics s"
  by (auto simp: first_literal_def first_repeat_def delta_literal_def delta_store_def
      plane_store_def wp_simps plane_frame_def intro!: wp_delta_color)

lemma wp_plane_times:
  assumes "\<And>s. wp m (\<lambda>_. plane_frame s) plane_panics s"
  shows "wp (timesp n m) (\<lambda>_. plane_frame s) plane_panics s"
  by (rule wp_timesp [where I = "plane_frame s"])
    (auto simp: plane_frame_def intro: wp_mono [OF assms])

lemma wp_plane_runs:
  assumes "\<And>s. wp m (\<lambda>_. plane_frame s) plane_panics s" "\<And>s. wp k (\<lambda>_. plane_frame s) plane_panics s"
  shows "wp (plane_runs m k) (\<lambda>_ t. plane_frame s t \<and> length (p_in t) < length (p_in s)) plane_panics s"
proof -
  have tail: "wp (bindp (getp p_collen) (\<lambda>n. bindp (timesp (unat n) m) (\<lambda>_.
      bindp (getp p_replen) (\<lambda>n. timesp (unat n) k)))) (\<lambda>_. plane_frame t) plane_panics t" for t
    unfolding wp_bindp wp_getp
    by (rule wp_mono [OF wp_plane_times [OF assms(1)]], rule wp_mono [OF wp_plane_times [OF assms(2)]])
      (auto intro: plane_frame_trans)
  have head: "wp plane_code (\<lambda>_ t. plane_frame s t \<and> length (p_in t) < length (p_in s)) plane_panics s"
    by (auto simp: plane_code_def Let_def wp_simps plane_frame_def)
  show ?thesis
    unfolding plane_runs_def wp_bindp [of plane_code]
    by (rule wp_mono [OF head], rule wp_mono [OF tail]) (auto simp: plane_frame_def)
qed

lemma wp_plane_line: "wp (plane_line width) (\<lambda>_. plane_frame s) plane_panics s"
proof -
  have "wp (loop (length \<circ> p_in) (\<lambda>s. p_indexw s < width) (plane_runs m k)) (\<lambda>_. plane_frame s) plane_panics s"
    if "\<And>s. wp m (\<lambda>_. plane_frame s) plane_panics s" "\<And>s. wp k (\<lambda>_. plane_frame s) plane_panics s" for m k
    by (rule wp_loop [where I = "plane_frame s"], simp add: plane_frame_def,
        rule wp_mono [OF wp_plane_runs [OF that]]) (auto simp: plane_frame_def)
  then show ?thesis by (auto simp: plane_line_def wp_getp_bindp wp_plane_pixels)
qed

lemma wp_plane_row:
  assumes "p_indexh s < height"
  shows "wp (plane_row width height) (\<lambda>_ t. length (p_pix t) = length (p_pix s)
     \<and> unat (p_indexh t) = Suc (unat (p_indexh s))) plane_panics s"
proof -
  have start: "wp (liftp (plane_start width height h)) Q plane_panics t" if "\<And>a. Q a t" for h Q and t :: plane
    using that by (auto simp: plane_start_def wp_liftp mulw_def addw_def subw_def)
  have h: "unat (p_indexh s) + 1 < 2 ^ LENGTH(32)"
  proof -
    have "unat height < 2 ^ LENGTH(32)" by (rule unsigned_less)
    then show ?thesis using assms by (simp add: word_less_nat_alt)
  qed
  show ?thesis
    unfolding plane_row_def wp_bindp wp_getp
    by (rule start, unfold wp_modp, rule wp_mono [OF wp_plane_line])
      (use h in \<open>auto simp: plane_frame_def wp_simps unat_word_ariths\<close>)
qed

lemma wp_process_plane:
  "wp (process_plane width height) (\<lambda>_ (_, out). length out = length output) plane_panics (input, output)"
  unfolding process_plane_def wp_zoom
  by (rule wp_loop [where I = "\<lambda>s. length (p_pix s) = length output"], simp,
      rule wp_mono [OF wp_plane_row], auto simp: word_less_nat_alt)

lemma wp_plane_at:
  "wp (plane_at k width height) (\<lambda>_ t. length (snd t) = length (snd s)) plane_panics s"
proof (cases s)
  case (Pair inp img)
  have get: "wp (liftp (slice_from img k)) Q plane_panics s" if "k \<le> length img \<Longrightarrow> Q (drop k img) s" for Q
    using that by (simp add: wp_liftp slice_from_def)
  show ?thesis
    unfolding plane_at_def wp_bindp wp_getp Pair snd_conv
    by (rule get [unfolded Pair], unfold wp_zoom prod.case, rule wp_mono [OF wp_process_plane]) auto
qed

lemma wp_rle_32_decompress:
  "wp (rle_32_decompress input width height) (\<lambda>_ out. length out = length output) plane_panics output"
proof -
  have planes: "wp (bindp (plane_at 3 width height) (\<lambda>_. bindp (plane_at 2 width height) (\<lambda>_.
      bindp (plane_at 1 width height) (\<lambda>_. plane_at 0 width height))))
      (\<lambda>_ t. length (snd t) = length output) plane_panics (i, output)" for i
    unfolding wp_bindp
    by (rule wp_mono [OF wp_plane_at], rule wp_mono [OF wp_plane_at], rule wp_mono [OF wp_plane_at],
        rule wp_mono [OF wp_plane_at]) auto
  have u8: "wp rd_u8 Q plane_panics bs = (\<forall>b r. bs = b # r \<longrightarrow> Q b r)" for Q bs
    by (cases bs) (auto simp: rd_u8_def wp_simps)
  show ?thesis
    unfolding rle_32_decompress_def wp_zoom wp_bindp [of "zoom _ _ _"]
    using planes by (auto simp: u8 wp_failp case_prod_beta)
qed

subsection \<open>The 5-6-5 conversion\<close>

lemma scale_round:
  "\<forall>c \<in> set [0..<32]. (c * 527 + 23) div 64 = (c * 255 + 15) div (31 :: nat)"
  "\<forall>c \<in> set [0..<64]. (c * 259 + 33) div 64 = (c * 255 + 31) div (63 :: nat)"
  by (simp_all del: set_upt add: upt_conv_Cons)

lemma scaled:
  fixes v k d :: u16
  assumes "unat v * unat k + unat d < 65536"
  shows "bindo (mulw v k) (\<lambda>a. bindo (addw a d) (\<lambda>b. Ok (ucast (drop_bit 6 b) :: u8)))
     = Ok (of_nat ((unat v * unat k + unat d) div 64))"
proof -
  have m: "mulw v k = Ok (v * k)" "unat (v * k) = unat v * unat k"
    using assms by (simp_all add: mulw_def unat_word_ariths)
  have a: "addw (v * k) d = Ok (v * k + d)" "unat (v * k + d) = unat v * unat k + unat d"
    using assms m by (simp_all add: addw_def unat_word_ariths)
  have "ucast (drop_bit 6 (v * k + d)) = (of_nat (unat (drop_bit 6 (v * k + d))) :: u8)"
    by simp
  also have "\<dots> = of_nat ((unat v * unat k + unat d) div 64)"
    using assms by (simp only: unsigned_drop_bit_eq a(2)) (simp add: drop_bit_eq_div take_bit_nat_eq_self)
  finally show ?thesis by (simp add: m(1) a(1))
qed

lemma and_low: "unat ((v :: u16) AND 0x1f) < 32" "unat (v AND 0x3f) < 64"
proof -
  have "v AND 0x1f = take_bit 5 v" "v AND 0x3f = take_bit 6 v"
    by (simp_all add: take_bit_eq_mask mask_eq_exp_minus_1)
  moreover have "unat (take_bit 5 v) < 2 ^ 5" "unat (take_bit 6 v) < 2 ^ 6"
    by (subst unsigned_take_bit_eq, rule take_bit_nat_less_exp)+
  ultimately show "unat (v AND 0x1f) < 32" "unat (v AND 0x3f) < 64" by simp_all
qed

definition round5 :: "u16 \<Rightarrow> u8" where
  "round5 c = of_nat ((unat c * 255 + 15) div 31)"

definition round6 :: "u16 \<Rightarrow> u8" where
  "round6 c = of_nat ((unat c * 255 + 31) div 63)"

lemma expand5_round: "expand5 (v AND 0x1f) = Ok (round5 (v AND 0x1f))"
  using scale_round(1) and_low(1) [of v]
  by (simp add: expand5_def round5_def scaled atLeastLessThan_iff Ball_def)

lemma expand6_round: "expand6 (v AND 0x3f) = Ok (round6 (v AND 0x3f))"
  using scale_round(2) and_low(2) [of v]
  by (simp add: expand6_def round6_def scaled atLeastLessThan_iff Ball_def)

text \<open>The four bytes of a pixel: blue, green, red scaled to 255 and rounded, opaque.\<close>

definition bgra :: "u16 \<Rightarrow> u8 list" where
  "bgra v = [round5 (v AND 0x1f), round6 (drop_bit 5 v AND 0x3f), round5 (drop_bit 11 v AND 0x1f), 0xff]"

definition converted :: "u16 list \<Rightarrow> nat \<Rightarrow> u8 list \<Rightarrow> nat \<Rightarrow> bool" where
  "converted input len r n \<longleftrightarrow> length r = len * 4 \<and> (\<forall>k < n. take 4 (drop (k * 4) r) = bgra (input ! k))"

lemma wp_put_byte_Ok [wp_simps]:
  "wp (put_byte k (Ok v)) Q P r = (if k < length r then Q () (r[k := v]) else OutOfBounds \<in> P)"
  by (simp add: put_byte_def wp_simps)

lemma four: "k + 4 \<le> length r \<Longrightarrow> take 4 (drop k r) = [r ! k, r ! (k + 1), r ! (k + 2), r ! (k + 3)]"
  by (rule nth_equalityI) (auto simp: nth_Cons' less_Suc_eq numeral_eq_Suc)

lemma length_bgra [simp]: "length (bgra v) = 4"
  by (simp add: bgra_def)

lemma converted_step:
  assumes "converted input len r k" "k < len"
  shows "converted input len (r[k * 4 + 3 := 0xff, k * 4 + 2 := round5 (drop_bit 11 (input ! k) AND 0x1f),
      k * 4 + 1 := round6 (drop_bit 5 (input ! k) AND 0x3f), k * 4 := round5 (input ! k AND 0x1f)]) (Suc k)"
    (is "converted _ _ ?r _")
  unfolding converted_def
proof (intro conjI allI impI)
  have len: "length r = len * 4" "k * 4 + 4 \<le> length r" using assms by (auto simp: converted_def)
  show "length ?r = len * 4" using len by simp
  fix m assume m: "m < Suc k"
  show "take 4 (drop (m * 4) ?r) = bgra (input ! m)"
  proof (cases "m = k")
    case True
    then show ?thesis using len by (subst four) (auto simp: bgra_def nth_list_update)
  next
    case False
    then have "m * 4 + 4 \<le> k * 4" "m < k" using m by simp_all
    then show ?thesis using assms(1)
      by (simp add: converted_def drop_update_swap take_update_swap list_update_beyond)
  qed
qed

lemma wp_rgb565_pixel:
  assumes "converted input len r (i * width + j)" "i * width + j < len" "len \<le> length input"
  shows "wp (rgb565_pixel input width i j) (\<lambda>_ r. converted input len r (Suc (i * width + j))) {} r"
proof -
  define k where "k = i * width + j"
  have len: "length r = len * 4" "k * 4 + 4 \<le> length r" "k < length input"
    using assms by (auto simp: converted_def k_def)
  then have "wp (rgb565_pixel input width i j) (\<lambda>_ r. converted input len r (Suc k)) {} r"
    using converted_step [of input len r k] assms
    by (simp add: rgb565_pixel_def Let_def wp_simps expand5_round expand6_round k_def [symmetric])
  then show ?thesis by (simp add: k_def)
qed

lemma expand_no_Err [simp]: "expand5 v \<noteq> Err e" "expand6 v \<noteq> Err e"
  by (auto simp: expand5_def expand6_def mulw_def addw_def)

lemma infallible_rgb565:
  "infallible (forp [0..<height] (\<lambda>i. forp [0..<width] (rgb565_pixel input width i)))"
  unfolding rgb565_pixel_def put_byte_def Let_def
  by (intro infallible) simp_all

lemma rgb565torgb32_Ok:
  assumes "width * height \<le> length input"
  shows "\<exists>r. rgb565torgb32 input width height = Ok r \<and> converted input (width * height) r (width * height)"
proof -
  let ?len = "width * height"
  let ?f = "\<lambda>i. forp [0..<width] (rgb565_pixel input width i)"
  have row: "wp (?f i) (\<lambda>_ r. converted input ?len r (Suc i * width)) {} r"
    if "i < height" "converted input ?len r (i * width)" for i r
  proof -
    have "wp (?f i) (\<lambda>_ r. converted input ?len r (i * width + width)) {} r"
    proof (rule wp_for_upt [where I = "\<lambda>j r. converted input ?len r (i * width + j)"])
      fix t j assume j: "j < width" "converted input ?len t (i * width + j)"
      have "Suc i * width \<le> height * width" using that(1) by (intro mult_le_mono1) simp
      then have "i * width + j < ?len" using j by (simp add: mult.commute)
      then show "wp (rgb565_pixel input width i j) (\<lambda>_ r. converted input ?len r (i * width + Suc j)) {} t"
        using wp_rgb565_pixel [OF j(2)] assms by simp
    qed (use that in simp)
    then show ?thesis by (simp add: add.commute)
  qed
  let ?init = "replicate (?len * 4) (0 :: u8)"
  have w: "wp (forp [0..<height] ?f) (\<lambda>_ r. converted input ?len r (height * width)) {} ?init"
    by (rule wp_for_upt [where I = "\<lambda>i r. converted input ?len r (i * width)"])
      (simp add: converted_def, rule row)
  obtain x r where r: "forp [0..<height] ?f ?init = (x, r)" by (metis surj_pair)
  have "x = Ok () \<and> converted input ?len r (height * width)"
    using wp_outcome [OF w r] infallibleD [OF infallible_rgb565] r by auto
  then show ?thesis by (simp add: rgb565torgb32_def r mult.commute [of height width])
qed

subsection \<open>Properties\<close>

text \<open>
  C17. Decompressing a 16 bit bitmap into a buffer of at least width times height pixels
  never indexes outside the buffer and never unwraps a missing line, for every input: it
  fills the buffer without resizing it, returns an error, or panics in one of the two
  other ways left in the code (an opcode it does not know, a counter that overflows).
\<close>

theorem rle_16_memory_safe:
  assumes "0 < width" "width * height \<le> length output"
    and "rle_16_decompress input width height output = (r, out)"
  shows "(r = Ok () \<and> length out = length output) \<or> (\<exists>e. r = Err e) \<or> r = Panic ExplicitPanic \<or> r = Panic ArithOverflow"
  using wp_outcome [OF wp_rle_16_decompress [of "{ArithOverflow, ExplicitPanic}" width height "output" input] assms(3)]
    assms(1,2) by auto

theorem rle_16_memory_safe_witness:
  "\<exists>r out. rle_16_decompress [0xF4, 2, 0, 7, 0, 8, 0] 2 1 [0, 0] = (r, out) \<and>
     ((r = Ok () \<and> length out = 2) \<or> (\<exists>e. r = Err e) \<or> r = Panic ExplicitPanic \<or> r = Panic ArithOverflow)"
proof -
  obtain r out where e: "rle_16_decompress [0xF4, 2, 0, 7, 0, 8, 0] 2 1 [0, 0] = (r, out)"
    by (metis surj_pair)
  then show ?thesis using rle_16_memory_safe [OF _ _ e] by auto
qed

text \<open>
  C18. The 16 bit decoder ends on every input, whatever the dimensions and the buffer: every
  order consumes a byte, and every round of an order starts a line or moves along one.
\<close>

theorem rle_16_terminates: "fst (rle_16_decompress input width height output) \<noteq> Diverge"
proof -
  obtain r out where e: "rle_16_decompress input width height output = (r, out)" by (metis surj_pair)
  have "wp (rle_16_decompress input width height) (\<lambda>_ out. length out = length output) UNIV output"
    by (rule wp_rle_16_decompress) auto
  from wp_outcome [OF this e] show ?thesis by (auto simp: e)
qed

text \<open>
  C19. The eight-fold unrolled \<open>repeat!\<close> macro draws what a plain loop would: for every
  order, state and outcome the two agree, panics and read errors included.
\<close>

theorem repeat_macro_is_plain_loop:
  "order_draw width s = order_draw_with (repeat_plain width) s"
proof -
  note macro = pixels_safe [where P = UNIV, THEN repeat_macro_plain]
  show ?thesis by (simp only: order_draw_def order_draw_with_def macro)
qed

text \<open>
  A server can stop the client with one byte: an order whose code byte has the high
  nibble 0xA and a non-zero count reaches the \<open>panic!\<close> of the decoder in every non-empty
  bitmap, whatever follows it.
\<close>

lemma rle_16_unknown_order_panics:
  assumes "drop_bit 4 code = 0xA" "code AND 0x1f \<noteq> 0" "0 < height"
  shows "fst (rle_16_decompress (code # rest) width height output) = Panic ExplicitPanic"
proof -
  have "unat (ucast (code AND 0x1f) :: u16) = unat (code AND 0x1f)"
    using unsigned_less [of "code AND 0x1f", where 'a = nat] 
    by (simp add: unsigned_ucast_eq take_bit_nat_eq_self)
  then have c: "ucast (code AND 0x1f) \<noteq> (0 :: u16)"
    using assms(2) by (metis unsigned_0 unat_eq_zero)
  show ?thesis
    using assms c
    by (simp add: rle_16_decompress_def zoom_def loop_def one_order_def orders_init_def bindp_def modp_def
        ord_u8_def order_code_def order_count_def order_colours_def Let_def retp_def next_line_def
        get_state_def getp_def order_draw_def order_draw_with_def liftp_def unat_gt_0 word_less_nat_alt)
qed

lemma rle_16_unknown_order_panics_witness:
  "fst (rle_16_decompress [0xA1, 7] 640 480 (replicate (640 * 480 * 2) 0)) = Panic ExplicitPanic"
  using rle_16_unknown_order_panics [where code = "0xA1" and height = 480 and rest = "[7]" and width = 640] by simp

text \<open>
  C20. A 32 bit plane or bitmap ends on every input and keeps the length of the buffer; the
  ways it can panic are an index outside the buffer (a run longer than its line, or a
  buffer too short for the four plane offsets) and a size that overflows 32 bits.
\<close>

theorem rle_32_total:
  assumes "rle_32_decompress input width height output = (r, out)"
  shows "(r = Ok () \<and> length out = length output) \<or> (\<exists>e. r = Err e) \<or> r = Panic ArithOverflow \<or> r = Panic OutOfBounds"
  using wp_outcome [OF wp_rle_32_decompress assms] by auto

theorem rle_32_total_witness:
  "\<exists>r out. rle_32_decompress [0x10, 0x10, 1, 0x10, 2, 0x10, 3, 0x10, 4] 1 1 [0, 0, 0, 0] = (r, out) \<and>
     ((r = Ok () \<and> length out = 4) \<or> (\<exists>e. r = Err e) \<or> r = Panic ArithOverflow \<or> r = Panic OutOfBounds)"
proof -
  obtain r out where e: "rle_32_decompress [0x10, 0x10, 1, 0x10, 2, 0x10, 3, 0x10, 4] 1 1 [0, 0, 0, 0] = (r, out)"
    by (metis surj_pair)
  then show ?thesis using rle_32_total [OF e] by auto
qed

text \<open>
  C21. The conversion of a 5-6-5 bitmap to 32 bits: with enough input pixels it returns four
  bytes for each, the three colours scaled to the full range and rounded to the nearest
  value, and an opaque alpha. The multiply-and-shift arithmetic never overflows 16 bits.
\<close>

theorem rgb565_exact:
  assumes "width * height \<le> length input"
  shows "\<exists>r. rgb565torgb32 input width height = Ok r \<and> length r = width * height * 4 \<and>
    (\<forall>k < width * height. take 4 (drop (k * 4) r) = bgra (input ! k))"
  using rgb565torgb32_Ok [OF assms] by (auto simp: converted_def)

theorem rgb565_exact_witness:
  "\<exists>r. rgb565torgb32 [0xffff, 0x1234] 2 1 = Ok r \<and> length r = 8 \<and>
    (\<forall>k < 2. take 4 (drop (k * 4) r) = bgra ([0xffff, 0x1234] ! k))"
  using rgb565_exact [of 2 1 "[0xffff, 0x1234]"] by simp

end
