(* ===== verification/Link.thy ===== *)
theory Link
  imports Loops Message_Laws
begin

section \<open>The link layer\<close>

text \<open>
  \<^verbatim>\<open>src/src/model/link.rs\<close>: the raw or TLS stream and its exact and partial reads. What the
  network does is data: the events still to be read, in order, the bytes written so far,
  and how much each coming write accepts. The TLS library is a parameter: a function from
  the certificate check and the raw stream to a session or an error; a session is its
  plaintext stream, its peer certificate (its DER bytes) and whether closing it succeeds.
\<close>

subsection \<open>Streams\<close>

datatype rx_event = Data "u8 list" | ReadErr

datatype tx_event = Accept nat | WriteErr

record io =
  rx :: "rx_event list"
  tx :: "u8 list"
  writes :: "tx_event list"

record tls_session =
  s_io :: io
  s_cert :: "u8 list option outcome"
  s_close :: bool

datatype stream = Raw io | Ssl tls_session

type_synonym tls_connector = "bool \<Rightarrow> io \<Rightarrow> tls_session outcome"

fun stream_io :: "stream \<Rightarrow> io" where
  "stream_io (Raw e) = e"
| "stream_io (Ssl e) = s_io e"

fun set_stream_io :: "io \<Rightarrow> stream \<Rightarrow> stream" where
  "set_stream_io i (Raw e) = Raw i"
| "set_stream_io i (Ssl e) = Ssl (e\<lparr>s_io := i\<rparr>)"

text \<open>One \<open>read\<close> takes from one arrival only; what it leaves of it stays. No arrival is the end.\<close>

fun io_read :: "nat \<Rightarrow> (rx_event list, u8 list) prog" where
  "io_read n [] = (Ok [], [])"
| "io_read n (ReadErr # es) = (Err (Io OtherIo), es)"
| "io_read n (Data bs # es) = (Ok (take n bs), if length bs \<le> n then es else Data (drop n bs) # es)"

fun io_read_exact :: "nat \<Rightarrow> (rx_event list, u8 list) prog" where
  "io_read_exact n [] = (if n = 0 then (Ok [], []) else (Err (Io UnexpectedEof), []))"
| "io_read_exact n (ReadErr # es) = (if n = 0 then (Ok [], ReadErr # es) else (Err (Io OtherIo), es))"
| "io_read_exact n (Data bs # es) =
     (if n = 0 then (Ok [], Data bs # es)
      else if bs = [] then (Err (Io UnexpectedEof), es)
      else if n < length bs then (Ok (take n bs), Data (drop n bs) # es)
      else case io_read_exact (n - length bs) es of
        (Ok cs, es') \<Rightarrow> (Ok (bs @ cs), es') | (Err e, es') \<Rightarrow> (Err e, es')
      | (Panic p, es') \<Rightarrow> (Panic p, es') | (Diverge, es') \<Rightarrow> (Diverge, es'))"

text \<open>One \<open>write\<close> may accept less than it was given.\<close>

fun io_write :: "u8 list \<Rightarrow> (io, nat) prog" where
  "io_write bs s = (case writes s of
       [] \<Rightarrow> (Ok (length bs), s\<lparr>tx := tx s @ bs\<rparr>)
     | Accept n # ws \<Rightarrow> (Ok (min n (length bs)), s\<lparr>tx := tx s @ take n bs, writes := ws\<rparr>)
     | WriteErr # ws \<Rightarrow> (Err (Io OtherIo), s\<lparr>writes := ws\<rparr>))"

definition stream_read_exact :: "nat \<Rightarrow> (stream, u8 list) prog" where
  "stream_read_exact n = zoom stream_io set_stream_io (zoom rx (\<lambda>r i. i\<lparr>rx := r\<rparr>) (io_read_exact n))"

definition stream_read :: "nat \<Rightarrow> (stream, u8 list) prog" where
  "stream_read n = zoom stream_io set_stream_io (zoom rx (\<lambda>r i. i\<lparr>rx := r\<rparr>) (io_read n))"

definition stream_write :: "u8 list \<Rightarrow> (stream, nat) prog" where
  "stream_write bs = zoom stream_io set_stream_io (io_write bs)"

fun stream_shutdown :: "(stream, unit) prog" where
  "stream_shutdown (Ssl e) = (if s_close e then Ok () else Err (Io OtherIo), Ssl e)"
| "stream_shutdown (Raw e) = (Ok (), Raw e)"

subsection \<open>The link\<close>

text \<open>The structure \<open>Link\<close> has the stream as its only field, and is that stream here.\<close>

definition link_write :: "message \<Rightarrow> (stream, unit) prog" where
  "link_write m = bindp (liftp (write_msg m)) (\<lambda>buffer. bindp (stream_write buffer) (\<lambda>_. retp ()))"

definition link_read :: "nat \<Rightarrow> (stream, u8 list) prog" where
  "link_read expected_size = (if expected_size = 0 then stream_read 1500 else stream_read_exact expected_size)"

definition start_ssl :: "tls_connector \<Rightarrow> bool \<Rightarrow> (stream, unit) prog" where
  "start_ssl connect check_certificate s = (case s of
       Raw i \<Rightarrow> (case connect check_certificate i of
           Ok t \<Rightarrow> (Ok (), Ssl t) | Err e \<Rightarrow> (Err e, s) | Panic p \<Rightarrow> (Panic p, s) | Diverge \<Rightarrow> (Diverge, s))
     | Ssl t \<Rightarrow> (Err (rdp_err NotImplemented), s))"

definition get_peer_certificate :: "(stream, u8 list option) prog" where
  "get_peer_certificate s = (case s of
       Ssl t \<Rightarrow> (s_cert t, s) | Raw i \<Rightarrow> (Err (rdp_err InvalidData), s))"

definition link_shutdown :: "(stream, unit) prog" where
  "link_shutdown = stream_shutdown"

subsection \<open>The bytes that are still to come\<close>

fun rx_bytes :: "rx_event list \<Rightarrow> u8 list" where
  "rx_bytes [] = []"
| "rx_bytes (Data bs # es) = bs @ rx_bytes es"
| "rx_bytes (ReadErr # es) = []"

text \<open>A run of arrivals without errors or empty reads.\<close>

definition sound_rx :: "rx_event list \<Rightarrow> bool" where
  "sound_rx es \<longleftrightarrow> ReadErr \<notin> set es \<and> Data [] \<notin> set es"

definition pending :: "stream \<Rightarrow> u8 list" where
  "pending s = rx_bytes (rx (stream_io s))"

definition healthy :: "stream \<Rightarrow> bool" where
  "healthy s \<longleftrightarrow> sound_rx (rx (stream_io s))"

definition sent :: "stream \<Rightarrow> u8 list" where
  "sent s = tx (stream_io s)"

lemma sound_rx_simps [simp]:
  "sound_rx []" "sound_rx (Data bs # es) = (bs \<noteq> [] \<and> sound_rx es)" "\<not> sound_rx (ReadErr # es)"
  by (auto simp: sound_rx_def)

lemma stream_io_set [simp]: "stream_io (set_stream_io i s) = i"
  by (cases s) auto

lemma set_stream_io_twice [simp]: "set_stream_io i (set_stream_io j s) = set_stream_io i s"
  by (cases s) auto

lemma set_stream_io_id [simp]: "set_stream_io (stream_io s) s = s"
  by (cases s) auto

lemma io_read_exact_bytes:
  "sound_rx es \<Longrightarrow> n \<le> length (rx_bytes es) \<Longrightarrow>
   \<exists>es'. io_read_exact n es = (Ok (take n (rx_bytes es)), es') \<and> sound_rx es' \<and> rx_bytes es' = drop n (rx_bytes es)"
proof (induction n es rule: io_read_exact.induct)
  case (3 n bs es)
  show ?case
  proof (cases "n < length bs")
    case True
    then show ?thesis using 3 by auto
  next
    case False
    then obtain es' where "io_read_exact (n - length bs) es = (Ok (take (n - length bs) (rx_bytes es)), es')"
      "sound_rx es'" "rx_bytes es' = drop (n - length bs) (rx_bytes es)"
      using 3 False by (cases "n = 0") (auto simp: le_diff_conv add.commute)
    moreover have "0 < n" using 3 False by (cases bs) auto
    ultimately show ?thesis using 3 False by auto
  qed
qed auto

lemma io_read_exact_short:
  "sound_rx es \<Longrightarrow> length (rx_bytes es) < n \<Longrightarrow>
   io_read_exact n es = (Err (Io UnexpectedEof), [])"
proof (induction n es rule: io_read_exact.induct)
  case (3 n bs es)
  then show ?case by auto
qed auto

lemma wp_io_read_exact: "wp (io_read_exact n) (\<lambda>bs _. length bs = n) {} es"
proof (induction n es rule: io_read_exact.induct)
  case (3 n bs es)
  then show ?case
    by (cases "n = 0"; cases "bs = []"; cases "n < length bs")
      (auto simp: wp_def split: prod.splits outcome.splits)
qed (simp_all add: wp_def)

lemma wp_io_read: "wp (io_read n) (\<lambda>bs _. length bs \<le> n) {} es"
  by (cases "(n, es)" rule: io_read.cases) (auto simp: wp_def)

text \<open>Reading from the link never panics; a positive size is met exactly, zero asks for up to 1500 bytes.\<close>

lemma wp_link_read: "wp (link_read n) (\<lambda>bs _. if n = 0 then length bs \<le> 1500 else length bs = n) {} s"
  using wp_io_read_exact [of n "rx (stream_io s)"] wp_io_read [of 1500 "rx (stream_io s)"]
  by (auto simp: link_read_def stream_read_def stream_read_exact_def wp_zoom)

text \<open>Reading sends nothing and does not change the kind of the stream.\<close>

fun is_ssl :: "stream \<Rightarrow> bool" where
  "is_ssl (Ssl t) = True"
| "is_ssl (Raw i) = False"

definition sending_side :: "stream \<Rightarrow> u8 list \<times> tx_event list \<times> bool" where
  "sending_side s = (sent s, writes (stream_io s), is_ssl s)"

lemma is_ssl_set [simp]: "is_ssl (set_stream_io i s) = is_ssl s"
  by (cases s) auto

lemma keeps_link_read [keeps_intros]: "keeps sending_side (link_read n)"
  by (auto simp: link_read_def stream_read_def stream_read_exact_def keeps_def zoom_def sending_side_def sent_def
      case_prod_beta)

text \<open>A write that the stream accepts whole.\<close>

lemma link_write_all:
  assumes "write_msg m = Ok bs" "writes (stream_io s) = []"
  shows "\<exists>s'. link_write m s = (Ok (), s') \<and> sent s' = sent s @ bs
    \<and> rx (stream_io s') = rx (stream_io s) \<and> writes (stream_io s') = []"
  using assms by (simp add: link_write_def bindp_def stream_write_def zoom_def retp_def sent_def liftp_def)

subsection \<open>The transport interface\<close>

text \<open>
  What the packet layer relies on: a read of a positive size returns exactly the next
  bytes of the stream, however they arrived, and leaves the others; when fewer are left it
  is an error.
\<close>

locale transport =
  fixes read :: "nat \<Rightarrow> ('l, u8 list) prog"
    and queue :: "'l \<Rightarrow> u8 list"
    and good :: "'l \<Rightarrow> bool"
  assumes read_Ok: "good s \<Longrightarrow> 0 < n \<Longrightarrow> n \<le> length (queue s) \<Longrightarrow>
      \<exists>s'. read n s = (Ok (take n (queue s)), s') \<and> good s' \<and> queue s' = drop n (queue s)"
    and read_short: "good s \<Longrightarrow> length (queue s) < n \<Longrightarrow> \<exists>s'. read n s = (Err (Io UnexpectedEof), s')"
begin

lemma read_append:
  assumes "good s" "bs \<noteq> []" "queue s = bs @ rest"
  shows "\<exists>s'. read (length bs) s = (Ok bs, s') \<and> good s' \<and> queue s' = rest"
  using read_Ok [of s "length bs"] assms by auto

lemma read_bind:
  assumes "good s" "bs \<noteq> []" "queue s = bs @ rest" "length bs = n"
  shows "\<exists>s'. bindp (read n) f s = f bs s' \<and> good s' \<and> queue s' = rest"
  using read_append [OF assms(1-3)] assms(4) by (metis bindp_Ok)

end

interpretation link: transport link_read pending healthy
proof
  fix s n assume h: "healthy s"
  show "\<exists>s'. link_read n s = (Ok (take n (pending s)), s') \<and> healthy s' \<and> pending s' = drop n (pending s)"
    if n: "0 < n" "n \<le> length (pending s)"
  proof -
    obtain es' where "io_read_exact n (rx (stream_io s)) = (Ok (take n (pending s)), es')" "sound_rx es'"
      "rx_bytes es' = drop n (pending s)"
      using io_read_exact_bytes h n unfolding healthy_def pending_def by blast
    then show ?thesis using n
      by (auto simp: link_read_def stream_read_exact_def zoom_def healthy_def pending_def)
  qed
  show "\<exists>s'. link_read n s = (Err (Io UnexpectedEof), s')" if "length (pending s) < n"
    using io_read_exact_short [of "rx (stream_io s)" n] h that
    by (simp add: link_read_def stream_read_exact_def zoom_def healthy_def pending_def)
qed

end
