(* ===== verification/Tpkt.thy ===== *)
theory Tpkt
  imports Link
begin

section \<open>The TPKT layer\<close>

text \<open>
  \<^verbatim>\<open>src/src/core/tpkt.rs\<close>: the framing of every packet, in its TPKT and its fast-path form.
  The client structure has the link as its only field and is that link here. The reader
  is written over the read operation of the link, so that its lemmas are proved once for
  every transport (locale \<open>transport\<close>).
\<close>

subsection \<open>Operations\<close>

datatype payload = PRaw "u8 list" | PFastPath u8 "u8 list"

datatype action = FastPathActionFastPath | FastPathActionX224

fun action_code :: "action \<Rightarrow> u8" where
  "action_code FastPathActionFastPath = 0x0"
| "action_code FastPathActionX224 = 0x3"

definition tpkt_header :: "u16 \<Rightarrow> message outcome" where
  "tpkt_header len = bindo (addw len 4) (\<lambda>n. Ok (MComponent
     [(''action'', MU8 (action_code FastPathActionX224)), (''flag'', MU8 0), (''size'', MU16 (BE n))]))"

definition tpkt_write :: "message \<Rightarrow> (stream, unit) prog" where
  "tpkt_write message = bindp (liftp (msg_length message)) (\<lambda>len.
     bindp (liftp (tpkt_header (of_nat len))) (\<lambda>header. link_write (MTrame [header, message])))"

definition tpkt_read_over :: "(nat \<Rightarrow> ('l, u8 list) prog) \<Rightarrow> ('l, payload) prog" where
  "tpkt_read_over read = bindp (read 2) (\<lambda>buffer. bindp (liftp (cursor u8_read buffer)) (\<lambda>(action, buffer).
     if action = action_code FastPathActionX224 then
       bindp (liftp (cursor u8_read buffer)) (\<lambda>_. bindp (read 2) (\<lambda>buffer.
       bindp (liftp (on_buffer (u16_read (BE 0)) buffer)) (\<lambda>size.
       if inner size < 4 then failp InvalidSize
       else bindp (liftp (subn (unat (inner size)) 4)) (\<lambda>n. bindp (read n) (\<lambda>body. retp (PRaw body))))))
     else
       let sec_flag = drop_bit 6 action AND 0x3 in
       bindp (liftp (cursor u8_read buffer)) (\<lambda>(short_length, _).
       if short_length AND 0x80 \<noteq> 0 then
         bindp (read 1) (\<lambda>buffer. bindp (liftp (on_buffer u8_read buffer)) (\<lambda>hi_length.
         let length = push_bit 8 (ucast (short_length AND NOT 0x80)) OR ucast hi_length :: u16 in
         if length < 3 then failp InvalidSize
         else bindp (liftp (subn (unat length) 3)) (\<lambda>n. bindp (read n) (\<lambda>body. retp (PFastPath sec_flag body)))))
       else if short_length < 2 then failp InvalidSize
       else bindp (liftp (subn (unat short_length) 2)) (\<lambda>n.
         bindp (read n) (\<lambda>body. retp (PFastPath sec_flag body))))))"

definition tpkt_read :: "(stream, payload) prog" where
  "tpkt_read = tpkt_read_over link_read"

definition tpkt_start_ssl :: "tls_connector \<Rightarrow> bool \<Rightarrow> (stream, unit) prog" where
  "tpkt_start_ssl connect check_certificate = start_ssl connect check_certificate"

text \<open>\<open>cssp\<close> is the authentication protocol driven over the link by \<open>cssp_connect\<close>.\<close>

definition start_nla :: "tls_connector \<Rightarrow> bool \<Rightarrow> (bool \<Rightarrow> (stream, unit) prog) \<Rightarrow> bool \<Rightarrow> (stream, unit) prog" where
  "start_nla connect check_certificate cssp restricted_admin_mode =
     bindp (start_ssl connect check_certificate) (\<lambda>_. cssp restricted_admin_mode)"

definition tpkt_shutdown :: "(stream, unit) prog" where
  "tpkt_shutdown = link_shutdown"

subsection \<open>Frames\<close>

text \<open>The bytes of a frame: TPKT with its 16 bit size, fast path with a short or a long length.\<close>

definition slow_frame :: "u8 list \<Rightarrow> u8 list" where
  "slow_frame body = [3, 0] @ u16_be (of_nat (length body + 4)) @ body"

definition short_frame :: "u8 \<Rightarrow> u8 list \<Rightarrow> u8 list" where
  "short_frame a body = [a, of_nat (length body + 2)] @ body"

lemma tpkt_write_Ok:
  assumes "write_msg m = Ok bs" "length bs + 4 < 65536"
  shows "tpkt_write m s = link_write (MTrame [MComponent
     [(''action'', MU8 3), (''flag'', MU8 0), (''size'', MU16 (BE (of_nat (length bs + 4))))], m]) s"
proof -
  have "unat (of_nat (length bs) :: u16) = length bs" using assms(2) by (simp add: unat_of_nat take_bit_nat_eq_self)
  then have "tpkt_header (of_nat (length bs)) = Ok (MComponent
     [(''action'', MU8 3), (''flag'', MU8 0), (''size'', MU16 (BE (of_nat (length bs + 4))))])"
    using assms(2) by (simp add: tpkt_header_def addw_def)
  then show ?thesis by (simp add: tpkt_write_def msg_length_written [OF assms(1)])
qed

lemma frame_written:
  assumes "write_msg m = Ok bs"
  shows "write_msg (MTrame [MComponent
     [(''action'', MU8 3), (''flag'', MU8 0), (''size'', MU16 (BE (of_nat (length bs + 4))))], m]) = Ok (slow_frame bs)"
  using assms by (simp add: u8_write_def u16_write_def add_filter_def slow_frame_def)

lemma tpkt_write_frame:
  assumes "write_msg m = Ok bs" "length bs + 4 < 65536" "writes (stream_io s) = []"
  shows "\<exists>s'. tpkt_write m s = (Ok (), s') \<and> sent s' = sent s @ slow_frame bs
    \<and> rx (stream_io s') = rx (stream_io s) \<and> writes (stream_io s') = []"
  unfolding tpkt_write_Ok [OF assms(1,2)] by (rule link_write_all [OF frame_written [OF assms(1)] assms(3)])

lemma wp_cursor_u8 [wp_simps]:
  "wp (liftp (cursor u8_read bs)) Q P s = (\<forall>b r. bs = b # r \<longrightarrow> Q (b, r) s)"
  by (cases bs) (simp_all add: u8_read_def wp_liftp)

lemma wp_on_buffer_ints [wp_simps]:
  "wp (liftp (on_buffer u8_read bs)) Q P s = (\<forall>b r. bs = b # r \<longrightarrow> Q b s)"
  "wp (liftp (on_buffer (u16_read (BE w)) bs)) Q' P s = (2 \<le> length bs \<longrightarrow> Q' (BE (be_u16 (take 2 bs))) s)"
  by (cases bs)
    (simp_all add: u8_read_def u16_read_def wp_liftp on_buffer_def rd_u16_be_def bindp_def read_exact_def retp_def)

lemma wp_link_read_any: "(\<And>bs t. Q bs t) \<Longrightarrow> wp (link_read n) Q {} s"
  by (rule wp_mono [OF wp_link_read]) auto

lemma wp_tpkt_read: "wp tpkt_read (\<lambda>_ _. True) {} s"
  unfolding tpkt_read_def tpkt_read_over_def wp_bindp Let_def
  by (rule wp_link_read_any)
    (auto simp: wp_simps Let_def word_less_nat_alt split: if_splits intro!: wp_link_read_any)

lemma keeps_tpkt_read [keeps_intros]: "keeps sending_side tpkt_read"
  unfolding tpkt_read_def tpkt_read_over_def Let_def case_prod_beta
  by (intro keeps_intros)

lemma keeps_tpkt_write [keeps_intros]: "keeps is_ssl (tpkt_write m)"
  unfolding tpkt_write_def link_write_def stream_write_def
  by (intro keeps_intros keeps_zoom) simp_all

context transport
begin

lemma tpkt_read_slow:
  assumes "good s" "queue s = slow_frame body @ rest" "body \<noteq> []" "length body + 4 < 65536"
  shows "\<exists>s'. tpkt_read_over read s = (Ok (PRaw body), s') \<and> good s' \<and> queue s' = rest"
proof -
  let ?size = "of_nat (length body + 4) :: u16"
  obtain s1 where s1: "read 2 s = (Ok [3, 0], s1)" "good s1" "queue s1 = u16_be ?size @ body @ rest"
    using read_Ok [of s 2] assms by (auto simp: slow_frame_def)
  obtain s2 where s2: "read 2 s1 = (Ok (u16_be ?size), s2)" "good s2" "queue s2 = body @ rest"
    using read_Ok [OF s1(2), of 2] s1(3) by (auto simp: u16_be_def)
  obtain s3 where s3: "read (length body) s2 = (Ok body, s3)" "good s3" "queue s3 = rest"
    using read_append [OF s2(2) assms(3) s2(3)] by auto
  have n: "unat ?size = length body + 4"
    using assms(4) by (simp only: unat_of_nat) (simp add: take_bit_nat_eq_self)
  then have "\<not> ?size < 4" by (simp add: word_less_nat_alt)
  then show ?thesis
    using s1 s2 s3 n rd_image_append(1) [of ?size "[]"]
    by (simp add: tpkt_read_over_def u8_read_def bindp_liftp on_buffer_def u16_read_def bindp_def retp_def
        liftp_def del: of_nat_add)
qed

lemma tpkt_read_short:
  assumes "good s" "queue s = short_frame a body @ rest" "a \<noteq> 3" "body \<noteq> []" "length body + 2 < 128"
  shows "\<exists>s'. tpkt_read_over read s = (Ok (PFastPath (drop_bit 6 a AND 3) body), s') \<and> good s' \<and> queue s' = rest"
proof -
  let ?size = "of_nat (length body + 2) :: u8"
  obtain s1 where s1: "read 2 s = (Ok [a, ?size], s1)" "good s1" "queue s1 = body @ rest"
    using read_Ok [of s 2] assms by (auto simp: short_frame_def)
  obtain s2 where s2: "read (length body) s1 = (Ok body, s2)" "good s2" "queue s2 = rest"
    using read_append [OF s1(2) assms(4) s1(3)] by auto
  have n: "unat ?size = length body + 2"
    using assms(5) by (simp only: unat_of_nat) (simp add: take_bit_nat_eq_self)
  have "?size AND 0x80 = 0"
  proof -
    have "unat (take_bit 7 ?size) = unat ?size"
      using n assms(5) by (subst unsigned_take_bit_eq) (simp add: take_bit_nat_eq_self)
    then have "take_bit 7 ?size = ?size" by (rule word_unat_eq_iff [THEN iffD2])
    moreover have "take_bit 7 w AND 0x80 = (0 :: u8)" for w :: u8
      by (intro bit_word_eqI) (auto simp: bit_simps less_Suc_eq numeral_eq_Suc)
    ultimately show ?thesis by metis
  qed
  moreover have "\<not> ?size < 2" using n by (simp add: word_less_nat_alt)
  ultimately show ?thesis
    using s1 s2 n assms(3)
    by (simp add: tpkt_read_over_def u8_read_def bindp_liftp bindp_def retp_def liftp_def Let_def del: of_nat_add)
qed

end

subsection \<open>Properties\<close>

text \<open>
  C16. A message written to a link that accepts it is one TPKT frame, and a peer that
  receives that frame, cut into arrivals in any way and followed by anything, reads
  exactly the message's bytes and leaves exactly what follows.
\<close>

theorem tpkt_frame_round_trip:
  assumes "write_msg m = Ok bs" "bs \<noteq> []" "length bs + 4 < 65536" "writes (stream_io s) = []"
    and "healthy r" "pending r = slow_frame bs @ rest"
  shows "(\<exists>s'. tpkt_write m s = (Ok (), s') \<and> sent s' = sent s @ slow_frame bs) \<and>
     (\<exists>r'. tpkt_read r = (Ok (PRaw bs), r') \<and> healthy r' \<and> pending r' = rest)"
  using tpkt_write_frame [OF assms(1,3,4)] link.tpkt_read_slow [OF assms(5,6,2,3)]
  unfolding tpkt_read_def by blast

theorem tpkt_frame_round_trip_witness:
  "(\<exists>s'. tpkt_write (MU32 (LE 3)) (Raw \<lparr>rx = [], tx = [], writes = []\<rparr>) = (Ok (), s')
      \<and> sent s' = slow_frame [3, 0, 0, 0]) \<and>
   (\<exists>r'. tpkt_read (Raw \<lparr>rx = [Data [3], Data [0, 0], Data [8, 3, 0], Data [0, 0, 9]], tx = [], writes = []\<rparr>)
      = (Ok (PRaw [3, 0, 0, 0]), r') \<and> healthy r' \<and> pending r' = [9])"
  using tpkt_frame_round_trip [of "MU32 (LE 3)" "[3, 0, 0, 0]" "Raw \<lparr>rx = [], tx = [], writes = []\<rparr>"
      "Raw \<lparr>rx = [Data [3], Data [0, 0], Data [8, 3, 0], Data [0, 0, 9]], tx = [], writes = []\<rparr>" "[9]"]
  by (simp add: u32_write_def u32_le_def healthy_def pending_def sent_def slow_frame_def u16_be_def)

text \<open>
  A fast-path packet with the short length form, in any arrivals: the reader returns
  its body with the two security bits of the action byte and leaves what follows.
\<close>

lemma tpkt_fast_path_read:
  assumes "healthy s" "pending s = short_frame a body @ rest" "a \<noteq> 3" "body \<noteq> []" "length body + 2 < 128"
  shows "\<exists>s'. tpkt_read s = (Ok (PFastPath (drop_bit 6 a AND 3) body), s') \<and> healthy s' \<and> pending s' = rest"
  using link.tpkt_read_short [OF assms] unfolding tpkt_read_def .

lemma tpkt_fast_path_read_witness:
  "\<exists>s'. tpkt_read (Raw \<lparr>rx = [Data [0xC0], Data [4, 7], Data [8, 3]], tx = [], writes = []\<rparr>)
      = (Ok (PFastPath (drop_bit 6 0xC0 AND 3) [7, 8]), s') \<and> healthy s' \<and> pending s' = [3]"
  using tpkt_fast_path_read [of "Raw \<lparr>rx = [Data [0xC0], Data [4, 7], Data [8, 3]], tx = [], writes = []\<rparr>"
      "0xC0" "[7, 8]" "[3]"]
  by (simp add: healthy_def pending_def short_frame_def)

text \<open>
  Reading a packet never panics and never hangs by itself, whatever the peer sends:
  all three size forms are checked before the subtraction that would underflow.
\<close>

lemma tpkt_read_total: "(\<exists>p. fst (tpkt_read s) = Ok p) \<or> (\<exists>e. fst (tpkt_read s) = Err e)"
  using wp_outcome [OF wp_tpkt_read [of s]] by (metis empty_iff eq_fst_iff)

text \<open>
  A TPKT frame of the minimal size 4 that the reader accepts has an empty body, and
  asking the link for zero bytes means asking for whatever comes next: the payload
  returned is the start of the following frame, which is thereby lost.
\<close>

lemma tpkt_empty_frame_takes_next:
  assumes "rx (stream_io s) = Data [3, 0, 0, 4] # Data next # es" "next \<noteq> []" "length next \<le> 1500"
  shows "\<exists>s'. tpkt_read s = (Ok (PRaw next), s') \<and> rx (stream_io s') = es"
  using assms
  by (simp add: tpkt_read_def tpkt_read_over_def link_read_def stream_read_exact_def stream_read_def zoom_def
      bindp_def liftp_def u8_read_def on_buffer_def u16_read_def retp_def be_u16_def)

lemma tpkt_empty_frame_takes_next_witness:
  "\<exists>s'. tpkt_read (Raw \<lparr>rx = [Data [3, 0, 0, 4], Data (slow_frame [1, 2])], tx = [], writes = []\<rparr>)
     = (Ok (PRaw (slow_frame [1, 2])), s') \<and> rx (stream_io s') = []"
  using tpkt_empty_frame_takes_next [of "Raw \<lparr>rx = [Data [3, 0, 0, 4], Data (slow_frame [1, 2])], tx = [], writes = []\<rparr>"
      "slow_frame [1, 2]" "[]"]
  by (simp add: slow_frame_def)

text \<open>
  A message too long for the 16 bit size: just below 64 KiB the header addition
  panics before anything is sent; from 64 KiB on the size is cut to its low 16 bits and a
  frame with the wrong size is sent.
\<close>

lemma tpkt_write_oversize:
  assumes "write_msg m = Ok bs"
  shows "(65532 \<le> length bs \<and> length bs < 65536 \<longrightarrow> tpkt_write m s = (Panic ArithOverflow, s)) \<and>
    (\<forall>k. length bs = 65536 + k \<and> k < 65532 \<longrightarrow> tpkt_write m s = link_write (MTrame [MComponent
     [(''action'', MU8 3), (''flag'', MU8 0), (''size'', MU16 (BE (of_nat k + 4)))], m]) s)"
proof -
  have u: "unat (of_nat n :: u16) = n mod 65536" for n
    by (simp add: unat_of_nat take_bit_eq_mod)
  have "tpkt_write m s = (Panic ArithOverflow, s)" if "65532 \<le> length bs" "length bs < 65536"
    using that by (simp add: tpkt_write_def msg_length_written [OF assms] tpkt_header_def addw_def u liftp_def bindp_def)
  moreover have "tpkt_write m s = link_write (MTrame [MComponent
     [(''action'', MU8 3), (''flag'', MU8 0), (''size'', MU16 (BE (of_nat k + 4)))], m]) s"
    if k: "length bs = 65536 + k" "k < 65532" for k
  proof -
    have e: "(of_nat (65536 + k) :: u16) = of_nat k" by (rule word_unat_eq_iff [THEN iffD2]) (simp only: u, simp)
    have "tpkt_header (of_nat (length bs)) = Ok (MComponent
       [(''action'', MU8 3), (''flag'', MU8 0), (''size'', MU16 (BE (of_nat k + 4)))])"
      unfolding k(1) e using k(2) u [of k] by (simp add: tpkt_header_def addw_def)
    then show ?thesis by (simp add: tpkt_write_def msg_length_written [OF assms])
  qed
  ultimately show ?thesis by blast
qed

lemma tpkt_write_oversize_witness:
  "tpkt_write (MSlice (replicate 65533 0)) (Raw \<lparr>rx = [], tx = [], writes = []\<rparr>) = (Panic ArithOverflow, (Raw \<lparr>rx = [], tx = [], writes = []\<rparr>))"
  using tpkt_write_oversize [of "MSlice (replicate 65533 0)" "replicate 65533 0" "(Raw \<lparr>rx = [], tx = [], writes = []\<rparr>)"] by (simp add: slice_write_def)

end
