(* ===== verification/Channel.thy ===== *)
theory Channel
  imports Tpkt
begin

section \<open>The packet channel interface\<close>

text \<open>
  TPKT and X.224 offer their client the same contract: a message written to the
  channel is one frame of bytes, and a peer that receives that frame reads the bytes of
  the message. The locale states it once; what follows from it (messages arrive in order,
  none is lost or merged) is proved once, and each layer interprets it on its own
  operations, the upper ones by the facts of the one below.
\<close>

fun write_all :: "(message \<Rightarrow> ('c, unit) prog) \<Rightarrow> message list \<Rightarrow> ('c, unit) prog" where
  "write_all send [] = retp ()"
| "write_all send (m # ms) = bindp (send m) (\<lambda>_. write_all send ms)"

fun read_many :: "('c, payload) prog \<Rightarrow> nat \<Rightarrow> ('c, payload list) prog" where
  "read_many recv 0 = retp []"
| "read_many recv (Suc n) = bindp recv (\<lambda>p. bindp (read_many recv n) (\<lambda>ps. retp (p # ps)))"

locale channel =
  fixes send :: "message \<Rightarrow> ('c, unit) prog"
    and recv :: "('c, payload) prog"
    and frame :: "u8 list \<Rightarrow> u8 list"
    and out :: "'c \<Rightarrow> u8 list"
    and ready :: "'c \<Rightarrow> bool"
    and queue :: "'c \<Rightarrow> u8 list"
    and good :: "'c \<Rightarrow> bool"
    and fits :: "u8 list \<Rightarrow> bool"
  assumes write_frame: "ready c \<Longrightarrow> write_msg m = Ok bs \<Longrightarrow> fits bs \<Longrightarrow>
      \<exists>c'. send m c = (Ok (), c') \<and> ready c' \<and> out c' = out c @ frame bs"
    and read_frame: "good d \<Longrightarrow> queue d = frame bs @ rest \<Longrightarrow> fits bs \<Longrightarrow>
      \<exists>d'. recv d = (Ok (PRaw bs), d') \<and> good d' \<and> queue d' = rest"
begin

lemma write_all_frames:
  assumes "ready c" "list_all2 (\<lambda>m bs. write_msg m = Ok bs \<and> fits bs) ms bss"
  shows "\<exists>c'. write_all send ms c = (Ok (), c') \<and> ready c' \<and> out c' = out c @ concat (map frame bss)"
  using assms(2,1)
proof (induction ms bss arbitrary: c rule: list_all2_induct)
  case (Cons m ms bs bss)
  obtain c1 where c1: "send m c = (Ok (), c1)" "ready c1" "out c1 = out c @ frame bs"
    using write_frame Cons by blast
  then show ?case using Cons.IH [OF c1(2)] by auto
qed (simp add: retp_def)

lemma read_many_frames:
  assumes "good d" "list_all fits bss" "queue d = concat (map frame bss) @ rest"
  shows "\<exists>d'. read_many recv (length bss) d = (Ok (map PRaw bss), d') \<and> good d' \<and> queue d' = rest"
  using assms
proof (induction bss arbitrary: d)
  case (Cons bs bss)
  obtain d1 where d1: "recv d = (Ok (PRaw bs), d1)" "good d1" "queue d1 = concat (map frame bss) @ rest"
    using read_frame [of d bs] Cons.prems by auto
  then show ?case using Cons.IH [OF d1(2)] Cons.prems by (auto simp: bindp_def retp_def)
qed (simp add: retp_def)

lemma in_order:
  assumes "ready c" "out c = []" "list_all2 (\<lambda>m bs. write_msg m = Ok bs \<and> fits bs) ms bss"
  shows "\<exists>c'. write_all send ms c = (Ok (), c') \<and>
    (\<forall>d rest. good d \<and> queue d = out c' @ rest \<longrightarrow>
       (\<exists>d'. read_many recv (length ms) d = (Ok (map PRaw bss), d') \<and> queue d' = rest))"
proof -
  obtain c' where c': "write_all send ms c = (Ok (), c')" "out c' = concat (map frame bss)"
    using write_all_frames [OF assms(1,3)] assms(2) by auto
  have "list_all fits bss" using assms(3) by (induction rule: list_all2_induct) auto
  then show ?thesis
    using c' read_many_frames [of _ bss] list_all2_lengthD [OF assms(3)] by (metis (no_types, lifting))
qed

end

text \<open>
  The client's side of a conversation: it sends its own requests and reads the answers that
  are still queued. What it writes and what it reads may be framed differently.
\<close>

locale duplex =
  fixes send :: "message \<Rightarrow> ('c, unit) prog"
    and recv :: "('c, payload) prog"
    and conv :: "'c \<Rightarrow> u8 list \<Rightarrow> bool"
    and out :: "'c \<Rightarrow> u8 list"
    and req :: "u8 list \<Rightarrow> u8 list"
    and ind :: "u8 list \<Rightarrow> u8 list"
    and fits :: "u8 list \<Rightarrow> bool"
  assumes send_step: "conv c q \<Longrightarrow> write_msg m = Ok bs \<Longrightarrow> fits bs \<Longrightarrow>
      \<exists>c'. send m c = (Ok (), c') \<and> conv c' q \<and> out c' = out c @ req bs"
    and recv_step: "conv c (ind bs @ q) \<Longrightarrow> fits bs \<Longrightarrow>
      \<exists>c'. recv c = (Ok (PRaw bs), c') \<and> conv c' q \<and> out c' = out c"
begin

lemma send_all:
  assumes "conv c q" "list_all2 (\<lambda>m bs. write_msg m = Ok bs \<and> fits bs) ms bss"
  shows "\<exists>c'. write_all send ms c = (Ok (), c') \<and> conv c' q \<and> out c' = out c @ concat (map req bss)"
  using assms(2,1)
proof (induction ms bss arbitrary: c rule: list_all2_induct)
  case (Cons m ms bs bss)
  obtain c1 where c1: "send m c = (Ok (), c1)" "conv c1 q" "out c1 = out c @ req bs"
    using send_step Cons by blast
  then show ?case using Cons.IH [OF c1(2)] by auto
qed (simp add: retp_def)

lemma recv_all:
  assumes "conv c (concat (map ind bss) @ q)" "list_all fits bss"
  shows "\<exists>c'. read_many recv (length bss) c = (Ok (map PRaw bss), c') \<and> conv c' q \<and> out c' = out c"
  using assms
proof (induction bss arbitrary: c)
  case (Cons bs bss)
  obtain c1 where c1: "recv c = (Ok (PRaw bs), c1)" "conv c1 (concat (map ind bss) @ q)" "out c1 = out c"
    using recv_step [of c bs] Cons.prems by auto
  then show ?case using Cons.IH [OF c1(2)] Cons.prems by (auto simp: bindp_def retp_def)
qed (simp add: retp_def)

lemma request_response:
  assumes "conv c (ind bs @ q)" "write_msg m = Ok rs" "fits rs" "fits bs"
  shows "\<exists>c'. bindp (send m) (\<lambda>_. recv) c = (Ok (PRaw bs), c') \<and> conv c' q \<and> out c' = out c @ req rs"
proof -
  obtain c1 where c1: "send m c = (Ok (), c1)" "conv c1 (ind bs @ q)" "out c1 = out c @ req rs"
    using send_step [OF assms(1-3)] by blast
  then show ?thesis using recv_step [OF c1(2) assms(4)] by (auto simp: bindp_def)
qed

end

interpretation tpkt: channel tpkt_write tpkt_read slow_frame sent "\<lambda>s. writes (stream_io s) = []" pending healthy
  "\<lambda>bs. bs \<noteq> [] \<and> length bs + 4 < 65536"
proof
  fix s :: stream and m bs
  assume "writes (stream_io s) = []" "write_msg m = Ok bs" "bs \<noteq> [] \<and> length bs + 4 < 65536"
  then show "\<exists>s'. tpkt_write m s = (Ok (), s') \<and> writes (stream_io s') = [] \<and> sent s' = sent s @ slow_frame bs"
    using tpkt_write_frame [of m bs s] by blast
next
  fix s bs rest
  assume "healthy s" "pending s = slow_frame bs @ rest" "bs \<noteq> [] \<and> length bs + 4 < 65536"
  then show "\<exists>s'. tpkt_read s = (Ok (PRaw bs), s') \<and> healthy s' \<and> pending s' = rest"
    using link.tpkt_read_slow [of s bs rest] by (simp add: tpkt_read_def)
qed

end
