(* ===== verification/X224.thy ===== *)
theory X224
  imports Channel
begin

section \<open>The X.224 layer and the security negotiation\<close>

text \<open>
  \<^verbatim>\<open>src/src/core/x224.rs\<close>: the data header, the connection request with the requested
  security protocols, and the reaction to the server's choice. The state is the transport
  with the selected protocol. The authentication protocol, driven over TLS by
  \<open>cssp_connect\<close>, comes as an optional argument, as in the code.
\<close>

subsection \<open>Enumerations\<close>

datatype negotiation_type = TypeRDPNegReq | TypeRDPNegRsp | TypeRDPNegFailure

fun negotiation_type_code :: "negotiation_type \<Rightarrow> u8" where
  "negotiation_type_code TypeRDPNegReq = 1"
| "negotiation_type_code TypeRDPNegRsp = 2"
| "negotiation_type_code TypeRDPNegFailure = 3"

definition negotiation_type_of :: "u8 \<Rightarrow> negotiation_type outcome" where
  "negotiation_type_of b = (if b = 1 then Ok TypeRDPNegReq else if b = 2 then Ok TypeRDPNegRsp
     else if b = 3 then Ok TypeRDPNegFailure else Err (rdp_err InvalidCast))"

datatype protocols = ProtocolRDP | ProtocolSSL | ProtocolHybrid | ProtocolHybridEx

fun protocols_code :: "protocols \<Rightarrow> u32" where
  "protocols_code ProtocolRDP = 0"
| "protocols_code ProtocolSSL = 1"
| "protocols_code ProtocolHybrid = 2"
| "protocols_code ProtocolHybridEx = 8"

definition protocols_of :: "u32 \<Rightarrow> protocols outcome" where
  "protocols_of w = (if w = 0 then Ok ProtocolRDP else if w = 1 then Ok ProtocolSSL
     else if w = 2 then Ok ProtocolHybrid else if w = 8 then Ok ProtocolHybridEx else Err (rdp_err InvalidCast))"

datatype x224_message_type =
  X224TPDUConnectionRequest | X224TPDUConnectionConfirm | X224TPDUDisconnectRequest | X224TPDUData | X224TPDUError

fun x224_message_type_code :: "x224_message_type \<Rightarrow> u8" where
  "x224_message_type_code X224TPDUConnectionRequest = 0xE0"
| "x224_message_type_code X224TPDUConnectionConfirm = 0xD0"
| "x224_message_type_code X224TPDUDisconnectRequest = 0x80"
| "x224_message_type_code X224TPDUData = 0xF0"
| "x224_message_type_code X224TPDUError = 0x70"

datatype request_mode = RestrictedAdminModeRequired | RedirectedAuthenticationModeRequired | CorrelationInfoPresent

fun request_mode_code :: "request_mode \<Rightarrow> u8" where
  "request_mode_code RestrictedAdminModeRequired = 1"
| "request_mode_code RedirectedAuthenticationModeRequired = 2"
| "request_mode_code CorrelationInfoPresent = 8"

subsection \<open>Messages\<close>

definition rdp_neg_req :: "negotiation_type option \<Rightarrow> u32 option \<Rightarrow> u8 option \<Rightarrow> message" where
  "rdp_neg_req neg_type result flag = MComponent [
     (''type'', MU8 (negotiation_type_code (case neg_type of None \<Rightarrow> TypeRDPNegReq | Some t \<Rightarrow> t))),
     (''flag'', MU8 (case flag of None \<Rightarrow> 0 | Some f \<Rightarrow> f)),
     (''length'', MCheck (MU16 (LE 0x0008))),
     (''result'', MU32 (LE (case result of None \<Rightarrow> 0 | Some r \<Rightarrow> r)))]"

definition x224_crq :: "u8 \<Rightarrow> x224_message_type \<Rightarrow> message outcome" where
  "x224_crq len code = bindo (addw len 6) (\<lambda>n. Ok (MComponent [
     (''len'', MU8 n),
     (''code'', MU8 (x224_message_type_code code)),
     (''padding'', MTrame [MU16 (LE 0), MU16 (LE 0), MU8 0])]))"

definition x224_connection_pdu :: "negotiation_type option \<Rightarrow> u8 option \<Rightarrow> u32 option \<Rightarrow> message outcome" where
  "x224_connection_pdu neg_type mode protocols = (let negotiation = rdp_neg_req neg_type protocols mode in
     bindo (msg_length negotiation) (\<lambda>n. bindo (x224_crq (of_nat n) X224TPDUConnectionRequest) (\<lambda>header.
     Ok (MComponent [(''header'', header), (''negotiation'', negotiation)]))))"

definition x224_header :: message where
  "x224_header = MComponent [
     (''header'', MU8 2),
     (''messageType'', MU8 (x224_message_type_code X224TPDUData)),
     (''separator'', MCheck (MU8 0x80))]"

subsection \<open>The client\<close>

record x224_client =
  x_transport :: stream
  x_selected :: protocols

abbreviation on_tpkt :: "(stream, 'a) prog \<Rightarrow> (x224_client, 'a) prog" where
  "on_tpkt \<equiv> zoom x_transport (\<lambda>t c. c\<lparr>x_transport := t\<rparr>)"

definition x224_write :: "message \<Rightarrow> (x224_client, unit) prog" where
  "x224_write message = on_tpkt (tpkt_write (MTrame [x224_header, message]))"

definition x224_strip :: "payload \<Rightarrow> payload outcome" where
  "x224_strip p = (case p of
       PRaw payload \<Rightarrow> bindo (cursor (read_msg x224_header) payload) (\<lambda>(_, rest). Ok (PRaw rest))
     | PFastPath flag payload \<Rightarrow> Ok (PFastPath flag payload))"

definition x224_read :: "(x224_client, payload) prog" where
  "x224_read = bindp (on_tpkt tpkt_read) (\<lambda>p. liftp (x224_strip p))"

definition write_connection_request :: "u32 \<Rightarrow> u8 option \<Rightarrow> (stream, unit) prog" where
  "write_connection_request security_protocols mode =
     bindp (liftp (x224_connection_pdu (Some TypeRDPNegReq) mode (Some security_protocols))) tpkt_write"

definition connection_confirm :: "u8 list \<Rightarrow> protocols outcome" where
  "connection_confirm buffer =
     bindo (x224_connection_pdu None None None) (\<lambda>pdu.
     bindo (on_buffer (read_msg pdu) buffer) (\<lambda>confirm.
     bindo (bindo (field confirm ''negotiation'') (\<lambda>n. unwrap (cast_component n))) (\<lambda>nego.
     bindo (bindo (field nego ''type'') cast_u8) (\<lambda>t. bindo (negotiation_type_of t) (\<lambda>t. case t of
         TypeRDPNegFailure \<Rightarrow> Err (rdp_err ProtocolNegFailure)
       | TypeRDPNegReq \<Rightarrow> Err (rdp_err InvalidAutomata)
       | TypeRDPNegRsp \<Rightarrow> bindo (bindo (field nego ''result'') cast_u32) protocols_of)))))"

definition read_connection_confirm :: "(stream, protocols) prog" where
  "read_connection_confirm = bindp tpkt_read (\<lambda>p. case p of
       PRaw buffer \<Rightarrow> liftp (connection_confirm buffer)
     | PFastPath _ _ \<Rightarrow> failp InvalidCast)"

text \<open>
  The transport the connection moves through is the state, so that what was sent is still
  there when it fails; the client structure is built from it at the end.
\<close>

definition x224_establish ::
  "tls_connector \<Rightarrow> u32 \<Rightarrow> bool \<Rightarrow> (bool \<Rightarrow> (stream, unit) prog) option \<Rightarrow> bool \<Rightarrow> bool \<Rightarrow> (stream, protocols) prog" where
  "x224_establish connect security_protocols check_certificate auth restricted_admin_mode blank_creds =
     bindp (write_connection_request security_protocols
       (Some (if restricted_admin_mode then request_mode_code RestrictedAdminModeRequired else 0))) (\<lambda>_.
     bindp read_connection_confirm (\<lambda>p. case p of
       ProtocolHybrid \<Rightarrow> bindp (liftp (unwrap_option auth)) (\<lambda>a.
         bindp (start_nla connect check_certificate a (restricted_admin_mode \<or> blank_creds)) (\<lambda>_. retp ProtocolHybrid))
     | ProtocolSSL \<Rightarrow> bindp (tpkt_start_ssl connect check_certificate) (\<lambda>_. retp ProtocolSSL)
     | ProtocolRDP \<Rightarrow> retp ProtocolRDP
     | _ \<Rightarrow> failp InvalidProtocol))"

definition x224_connect ::
  "tls_connector \<Rightarrow> stream \<Rightarrow> u32 \<Rightarrow> bool \<Rightarrow> (bool \<Rightarrow> (stream, unit) prog) option \<Rightarrow> bool \<Rightarrow> bool \<Rightarrow> x224_client outcome" where
  "x224_connect connect tpkt security_protocols check_certificate auth restricted_admin_mode blank_creds =
     bindo (cursor (x224_establish connect security_protocols check_certificate auth restricted_admin_mode blank_creds) tpkt)
       (\<lambda>(p, t). Ok \<lparr>x_transport = t, x_selected = p\<rparr>)"

definition get_selected_protocols :: "x224_client \<Rightarrow> protocols" where
  "get_selected_protocols c = x_selected c"

definition x224_shutdown :: "(x224_client, unit) prog" where
  "x224_shutdown = on_tpkt tpkt_shutdown"

subsection \<open>Reading the headers\<close>

lemmas read_defs = u8_read_def u16_read_def u32_read_def check_read_def add_filter_def add_size_def
  bindp_def retp_def liftp_def failp_def

lemma read_x224_header: "read_msg x224_header ([2, 0xF0, 0x80] @ rest) = (Ok x224_header, rest)"
  by (simp add: x224_header_def read_defs)

lemma x224_frame_written:
  assumes "write_msg m = Ok bs"
  shows "write_msg (MTrame [x224_header, m]) = Ok ([2, 0xF0, 0x80] @ bs)"
  using assms by (simp add: x224_header_def u8_write_def add_filter_def)

interpretation x224: channel x224_write x224_read "\<lambda>bs. slow_frame ([2, 0xF0, 0x80] @ bs)"
  "\<lambda>c. sent (x_transport c)" "\<lambda>c. writes (stream_io (x_transport c)) = []"
  "\<lambda>c. pending (x_transport c)" "\<lambda>c. healthy (x_transport c)" "\<lambda>bs. length bs + 7 < 65536"
proof
  fix c :: x224_client and m bs assume "writes (stream_io (x_transport c)) = []" "write_msg m = Ok bs" "length bs + 7 < 65536"
  then show "\<exists>c'. x224_write m c = (Ok (), c') \<and> writes (stream_io (x_transport c')) = []
      \<and> sent (x_transport c') = sent (x_transport c) @ slow_frame ([2, 0xF0, 0x80] @ bs)"
    using tpkt.write_frame [of "x_transport c" "MTrame [x224_header, m]" "[2, 0xF0, 0x80] @ bs"]
    by (auto simp: x224_write_def zoom_def x224_frame_written simp del: write_msg.simps)
next
  fix d :: x224_client and bs rest
  assume "healthy (x_transport d)" "pending (x_transport d) = slow_frame ([2, 0xF0, 0x80] @ bs) @ rest"
    "length bs + 7 < 65536"
  then show "\<exists>d'. x224_read d = (Ok (PRaw bs), d') \<and> healthy (x_transport d') \<and> pending (x_transport d') = rest"
    using tpkt.read_frame [of "x_transport d" "[2, 0xF0, 0x80] @ bs" rest] read_x224_header [of bs]
    by (auto simp: x224_read_def zoom_def bindp_def liftp_def x224_strip_def)
qed

text \<open>
  A conversation: the transport is healthy and accepts writes, and \<open>q\<close> is what the peer
  has sent and the client not read yet.
\<close>

definition conversation :: "x224_client \<Rightarrow> u8 list \<Rightarrow> bool" where
  "conversation c q \<longleftrightarrow> healthy (x_transport c) \<and> writes (stream_io (x_transport c)) = []
     \<and> pending (x_transport c) = q"

abbreviation data_frame :: "u8 list \<Rightarrow> u8 list" where
  "data_frame bs \<equiv> slow_frame ([2, 0xF0, 0x80] @ bs)"

lemma keeps_rx_tpkt_write: "keeps (\<lambda>s. rx (stream_io s)) (tpkt_write m)"
proof -
  have "keeps (\<lambda>s. rx (stream_io s)) (stream_write bs)" for bs
    by (simp add: keeps_def stream_write_def zoom_def case_prod_beta split: list.split tx_event.split)
  then show ?thesis unfolding tpkt_write_def link_write_def by (intro keeps_intros)
qed

lemma conversation_write:
  assumes "conversation c q" "write_msg m = Ok bs" "length bs + 7 < 65536"
  shows "\<exists>c'. x224_write m c = (Ok (), c') \<and> conversation c' q
    \<and> sent (x_transport c') = sent (x_transport c) @ data_frame bs"
proof -
  obtain c' where c': "x224_write m c = (Ok (), c')" "writes (stream_io (x_transport c')) = []"
    "sent (x_transport c') = sent (x_transport c) @ data_frame bs"
    using x224.write_frame [of c m bs] assms by (auto simp: conversation_def)
  have "rx (stream_io (x_transport c')) = rx (stream_io (x_transport c))"
    using c'(1) keepsD [OF keeps_rx_tpkt_write]
    by (fastforce simp: x224_write_def zoom_def split: prod.splits)
  then show ?thesis using c' assms(1) by (auto simp: conversation_def healthy_def pending_def)
qed

lemma conversation_read:
  assumes "conversation c (data_frame bs @ q)" "length bs + 7 < 65536"
  shows "\<exists>c'. x224_read c = (Ok (PRaw bs), c') \<and> conversation c' q \<and> sent (x_transport c') = sent (x_transport c)"
proof -
  obtain c' where c': "x224_read c = (Ok (PRaw bs), c')" "healthy (x_transport c')" "pending (x_transport c') = q"
    using x224.read_frame [of c bs q] assms by (auto simp: conversation_def)
  have "sending_side (x_transport c') = sending_side (x_transport c)"
    using c'(1) keepsD [OF keeps_tpkt_read]
    by (fastforce simp: x224_read_def bindp_def zoom_def liftp_def split: prod.splits outcome.splits)
  then show ?thesis using c' assms(1) by (auto simp: conversation_def sending_side_def)
qed

interpretation x224_client: duplex x224_write x224_read conversation "\<lambda>c. sent (x_transport c)" data_frame data_frame
  "\<lambda>bs. length bs + 7 < 65536"
  by unfold_locales (rule conversation_write conversation_read; assumption)+

subsection \<open>The negotiation\<close>

lemma confirm_template: "x224_connection_pdu t mode p = Ok (MComponent [
   (''header'', MComponent [(''len'', MU8 14), (''code'', MU8 0xE0),
      (''padding'', MTrame [MU16 (LE 0), MU16 (LE 0), MU8 0])]),
   (''negotiation'', rdp_neg_req t p mode)])"
  by (simp add: x224_connection_pdu_def rdp_neg_req_def u8_length_def u16_length_def u32_length_def
      x224_crq_def addw_def add_filter_def)

lemma request_bytes:
  "write_msg (MComponent [
   (''header'', MComponent [(''len'', MU8 14), (''code'', MU8 0xE0),
      (''padding'', MTrame [MU16 (LE 0), MU16 (LE 0), MU8 0])]),
   (''negotiation'', rdp_neg_req (Some TypeRDPNegReq) (Some p) (Some mode))])
   = Ok ([14, 0xE0, 0, 0, 0, 0, 0, 1, mode, 8, 0] @ u32_le p)"
  by (simp add: rdp_neg_req_def u8_write_def u16_write_def u32_write_def add_filter_def u16_le_def)

lemma connection_confirm_bytes:
  "connection_confirm ([l, c, p0, p1, p2, p3, p4, t, f, k0, k1, r0, r1, r2, r3] @ rest) =
    (if le_u16 [k0, k1] \<noteq> 8 then Err (rdp_err InvalidConst)
     else if t = 1 then Err (rdp_err InvalidAutomata)
     else if t = 2 then protocols_of (le_u32 [r0, r1, r2, r3])
     else if t = 3 then Err (rdp_err ProtocolNegFailure)
     else Err (rdp_err InvalidCast))"
  by (simp add: connection_confirm_def confirm_template rdp_neg_req_def read_defs on_buffer_def val_eq_def
      cast_component_def cast_u8_def cast_u32_def negotiation_type_of_def)

lemma list_15:
  assumes "15 \<le> length bs"
  obtains l c p0 p1 p2 p3 p4 t f k0 k1 r0 r1 r2 r3 rest
  where "bs = [l, c, p0, p1, p2, p3, p4, t, f, k0, k1, r0, r1, r2, r3] @ rest"
proof -
  obtain hd rest where "bs = hd @ rest" "length hd = 15"
    using assms by (metis append_take_drop_id length_take min.absorb2)
  then show ?thesis using that by (auto simp: length_Suc_conv eval_nat_numeral)
qed

lemma connection_confirm_short: "length bs < 15 \<Longrightarrow> \<exists>e. connection_confirm bs = Err e"
  using short_read [of "MComponent [
   (''header'', MComponent [(''len'', MU8 14), (''code'', MU8 0xE0),
      (''padding'', MTrame [MU16 (LE 0), MU16 (LE 0), MU8 0])]),
   (''negotiation'', rdp_neg_req None None None)]" bs]
  by (auto simp: rdp_neg_req_def connection_confirm_def confirm_template on_buffer_def simp del: read_msg.simps)

lemma negotiation:
  assumes "writes (stream_io s) = []" "healthy s" "pending s = slow_frame cf @ rest"
    and "cf \<noteq> []" "length cf + 4 < 65536" "connection_confirm cf = Ok p"
  shows "\<exists>s'. sent s' = sent s @ slow_frame ([14, 0xE0, 0, 0, 0, 0, 0, 1, if restricted then 1 else 0, 8, 0] @ u32_le req)
      \<and> pending s' = rest \<and> is_ssl s' = is_ssl s \<and> healthy s' \<and> writes (stream_io s') = []
      \<and> x224_establish connect req check auth restricted blank s = (case p of
          ProtocolRDP \<Rightarrow> (Ok ProtocolRDP, s')
        | ProtocolSSL \<Rightarrow> bindp (start_ssl connect check) (\<lambda>_. retp ProtocolSSL) s'
        | ProtocolHybrid \<Rightarrow> (case auth of None \<Rightarrow> (Panic UnwrapFailed, s')
             | Some a \<Rightarrow> bindp (start_nla connect check a (restricted \<or> blank)) (\<lambda>_. retp ProtocolHybrid) s')
        | ProtocolHybridEx \<Rightarrow> (Err (rdp_err InvalidProtocol), s'))"
proof -
  let ?mode = "if restricted then 1 else 0 :: u8"
  let ?req = "[14, 0xE0, 0, 0, 0, 0, 0, 1, ?mode, 8, 0] @ u32_le req"
  obtain s1 where s1: "write_connection_request req (Some ?mode) s = (Ok (), s1)"
    "sent s1 = sent s @ slow_frame ?req" "rx (stream_io s1) = rx (stream_io s)"
    "is_ssl s1 = is_ssl s" "writes (stream_io s1) = []"
    using keeps_tpkt_write [THEN keepsD] tpkt_write_frame [OF request_bytes [of req ?mode] _ assms(1)]
    by (auto simp: write_connection_request_def confirm_template simp del: write_msg.simps)
  have "healthy s1" "pending s1 = slow_frame cf @ rest"
    using assms(2,3) s1(3) by (simp_all add: healthy_def pending_def)
  then obtain s2 where s2: "tpkt_read s1 = (Ok (PRaw cf), s2)" "pending s2 = rest" "healthy s2"
    using tpkt.read_frame [of s1 cf rest] assms(4,5) by blast
  have "sent s2 = sent s1" "is_ssl s2 = is_ssl s1" "writes (stream_io s2) = writes (stream_io s1)" using keepsD [OF keeps_tpkt_read s2(1)] by (simp_all add: sending_side_def)
  then show ?thesis
    using s1 s2 assms(6)
    by (auto simp: x224_establish_def read_connection_confirm_def bindp_def liftp_def retp_def failp_def
        unwrap_option_def tpkt_start_ssl_def intro!: exI [of _ s2] split: protocols.split option.split)
qed

subsection \<open>Properties\<close>

text \<open>
  C14. Messages written to an X.224 client arrive at a peer in order: whatever the list of
  messages, a peer that receives the bytes that were sent, in any arrivals, reads each
  message's bytes as one payload and nothing else.
\<close>

theorem x224_messages_in_order:
  assumes "writes (stream_io (x_transport c)) = []" "sent (x_transport c) = []"
    and "list_all2 (\<lambda>m bs. write_msg m = Ok bs \<and> length bs + 7 < 65536) ms bss"
  shows "\<exists>c'. write_all x224_write ms c = (Ok (), c') \<and>
    (\<forall>d rest. healthy (x_transport d) \<and> pending (x_transport d) = sent (x_transport c') @ rest \<longrightarrow>
      (\<exists>d'. read_many x224_read (length ms) d = (Ok (map PRaw bss), d') \<and> pending (x_transport d') = rest))"
  by (rule x224.in_order [OF assms])

theorem x224_messages_in_order_witness:
  "\<exists>c'. write_all x224_write [MU8 1, MSlice []] \<lparr>x_transport = Raw \<lparr>rx = [], tx = [], writes = []\<rparr>, x_selected = ProtocolSSL\<rparr>
      = (Ok (), c') \<and>
    (\<forall>d rest. healthy (x_transport d) \<and> pending (x_transport d) = sent (x_transport c') @ rest \<longrightarrow>
      (\<exists>d'. read_many x224_read 2 d = (Ok [PRaw [1], PRaw []], d') \<and> pending (x_transport d') = rest))"
  using x224_messages_in_order [of "\<lparr>x_transport = Raw \<lparr>rx = [], tx = [], writes = []\<rparr>, x_selected = ProtocolSSL\<rparr>"
      "[MU8 1, MSlice []]" "[[1], []]"]
  by (simp add: sent_def u8_write_def slice_write_def numeral_2_eq_2)

text \<open>
  The server's answer to the connection request is classified by three of its fields
  only: the constant length, the type and the protocol; all else is ignored. No answer,
  well-formed or not, makes the client panic: it ends with a protocol or an error.
\<close>

lemma connection_confirm_classified:
  "connection_confirm ([l, c, p0, p1, p2, p3, p4, t, f, k0, k1, r0, r1, r2, r3] @ rest) =
    (if le_u16 [k0, k1] \<noteq> 8 then Err (rdp_err InvalidConst)
     else if t = 1 then Err (rdp_err InvalidAutomata)
     else if t = 2 then protocols_of (le_u32 [r0, r1, r2, r3])
     else if t = 3 then Err (rdp_err ProtocolNegFailure)
     else Err (rdp_err InvalidCast)) \<and>
   ((\<exists>p. connection_confirm bs = Ok p) \<or> (\<exists>e. connection_confirm bs = Err e))"
proof (rule conjI [OF connection_confirm_bytes])
  show "(\<exists>p. connection_confirm bs = Ok p) \<or> (\<exists>e. connection_confirm bs = Err e)"
  proof (cases "length bs < 15")
    case False
    then obtain l c p0 p1 p2 p3 p4 t f k0 k1 r0 r1 r2 r3 rest
      where "bs = [l, c, p0, p1, p2, p3, p4, t, f, k0, k1, r0, r1, r2, r3] @ rest"
      using list_15 [of bs] by (metis linorder_not_less)
    then show ?thesis by (simp only: connection_confirm_bytes) (auto simp: protocols_of_def)
  qed (use connection_confirm_short in blast)
qed

text \<open>
  C15. The negotiation as a whole, for a server that answers in one frame: the client has
  sent exactly its request (with the requested protocols and the restricted administration
  flag), and goes on with what the server chose: TLS, TLS and then the authentication
  protocol, no security at all, or an error. A choice of NLA panics when the client has no
  authentication protocol to offer.
\<close>

theorem x224_negotiation:
  assumes "writes (stream_io s) = []" "healthy s" "pending s = slow_frame cf @ rest"
    and "cf \<noteq> []" "length cf + 4 < 65536" "connection_confirm cf = Ok p"
  shows "\<exists>s'. sent s' = sent s @ slow_frame ([14, 0xE0, 0, 0, 0, 0, 0, 1, if restricted then 1 else 0, 8, 0] @ u32_le req)
      \<and> pending s' = rest
      \<and> x224_establish connect req check auth restricted blank s = (case p of
          ProtocolRDP \<Rightarrow> (Ok ProtocolRDP, s')
        | ProtocolSSL \<Rightarrow> bindp (start_ssl connect check) (\<lambda>_. retp ProtocolSSL) s'
        | ProtocolHybrid \<Rightarrow> (case auth of None \<Rightarrow> (Panic UnwrapFailed, s')
             | Some a \<Rightarrow> bindp (start_nla connect check a (restricted \<or> blank)) (\<lambda>_. retp ProtocolHybrid) s')
        | ProtocolHybridEx \<Rightarrow> (Err (rdp_err InvalidProtocol), s'))"
  using negotiation [OF assms] by blast

theorem x224_negotiation_witness:
  "\<exists>s'. x224_establish (\<lambda>c i. Err SslHandshakeError) 3 True None False False
      (Raw \<lparr>rx = [Data (slow_frame [14, 0xD0, 0, 0, 0, 0, 0, 2, 0, 8, 0, 2, 0, 0, 0])], tx = [], writes = []\<rparr>)
     = (Panic UnwrapFailed, s')"
  using x224_negotiation [of "Raw \<lparr>rx = [Data (slow_frame [14, 0xD0, 0, 0, 0, 0, 0, 2, 0, 8, 0, 2, 0, 0, 0])], tx = [], writes = []\<rparr>"
      "[14, 0xD0, 0, 0, 0, 0, 0, 2, 0, 8, 0, 2, 0, 0, 0]" "[]" ProtocolHybrid False 3 "\<lambda>c i. Err SslHandshakeError" True None False]
    connection_confirm_bytes [of 14 "0xD0" 0 0 0 0 0 2 0 8 0 2 0 0 0 "[]"]
  by (auto simp: healthy_def pending_def le_u16_def le_u32_def protocols_of_def slow_frame_def)

text \<open>
  The choice of the server is not compared with the request: a client that asked for
  TLS only and is answered with plain RDP security connects successfully over the raw
  stream, with no TLS handshake and no certificate check.
\<close>

lemma x224_downgrade:
  assumes "writes (stream_io s) = []" "healthy s" "\<not> is_ssl s"
    and "pending s = slow_frame ([14, 0xD0, 0, 0, 0, 0, 0, 2, f, 8, 0] @ u32_le 0) @ rest"
  shows "\<exists>c. x224_connect connect s (protocols_code ProtocolSSL) True auth restricted blank = Ok c
    \<and> get_selected_protocols c = ProtocolRDP \<and> \<not> is_ssl (x_transport c) \<and> pending (x_transport c) = rest"
proof -
  have "connection_confirm ([14, 0xD0, 0, 0, 0, 0, 0, 2, f, 8, 0] @ u32_le 0) = Ok ProtocolRDP"
    using connection_confirm_bytes [of 14 "0xD0" 0 0 0 0 0 2 f 8 0 0 0 0 0 "[]"]
    by (simp add: u32_le_def le_u16_def le_u32_def protocols_of_def)
  from negotiation [OF assms(1,2,4) _ _ this, of restricted "protocols_code ProtocolSSL" connect True auth blank]
  show ?thesis using assms(3)
    by (auto simp: x224_connect_def get_selected_protocols_def)
qed

lemma x224_downgrade_witness:
  "\<exists>c. x224_connect (\<lambda>c i. Err SslHandshakeError)
      (Raw \<lparr>rx = [Data (slow_frame ([14, 0xD0, 0, 0, 0, 0, 0, 2, 0, 8, 0] @ u32_le 0))], tx = [], writes = []\<rparr>)
      (protocols_code ProtocolSSL) True None False False = Ok c \<and> get_selected_protocols c = ProtocolRDP"
  using x224_downgrade [of "Raw \<lparr>rx = [Data (slow_frame ([14, 0xD0, 0, 0, 0, 0, 0, 2, 0, 8, 0] @ u32_le 0))], tx = [], writes = []\<rparr>"
      0 "[]" "\<lambda>c i. Err SslHandshakeError" None False False]
  by (auto simp: healthy_def pending_def slow_frame_def)

end
