(* ===== verification/Asn1.thy ===== *)
theory Asn1
  imports Prelude
begin

section \<open>ASN.1 trees\<close>

text \<open>
  \<^verbatim>\<open>src/src/nla/asn1.rs\<close>: the values that implement the trait \<open>ASN1\<close>, one constructor per
  implementation, and its methods. The byte encoding is the library yasna's, a parameter:
  a writer builds a tree of the library's calls and \<open>construct_der\<close> gives its bytes; a
  reader asks for a shape, and \<open>parse_der\<close> or \<open>parse_ber\<close> gives the tree of that shape the
  bytes hold, or nothing. What the code does around the library, which calls it makes in
  which order and where the parsed values go, is modelled here.
\<close>

subsection \<open>Values, trees and shapes\<close>

datatype asn1_tag = ApplicationTag nat | ContextTag nat

datatype asn1 =
    ASequence "(string \<times> asn1) list"
  | ASequenceOf "asn1 list" "asn1 option"
  | AOctetString "u8 list"
  | AExplicitTag asn1_tag asn1
  | AImplicitTag asn1_tag asn1
  | AInteger u32
  | ABool bool
  | AEnumerate int

datatype asn1_type =
    TSequence "(string \<times> asn1) list"
  | TSequenceOf "asn1 list"
  | TU32 u32
  | TOctetString "u8 list"
  | TBool bool
  | TEnumerate int

text \<open>The calls a writer makes, and what a reader asks for.\<close>

datatype der =
    DerSequence "der list" | DerSequenceOf "der list" | DerBytes "u8 list"
  | DerTagged asn1_tag der | DerTaggedImplicit asn1_tag der | DerU32 u32 | DerBool bool | DerEnum int

datatype shape =
    ShSequence "shape list" | ShSequenceOf "shape option" | ShBytes
  | ShTagged asn1_tag shape | ShTaggedImplicit asn1_tag shape | ShU32 | ShBool | ShEnum

record yasna =
  construct_der :: "der \<Rightarrow> u8 list"
  parse_der :: "shape \<Rightarrow> u8 list \<Rightarrow> der option"
  parse_ber :: "shape \<Rightarrow> u8 list \<Rightarrow> der option"

subsection \<open>visit\<close>

fun visit_asn1 :: "asn1 \<Rightarrow> asn1_type" where
  "visit_asn1 (ASequence fs) = TSequence fs"
| "visit_asn1 (ASequenceOf xs t) = TSequenceOf xs"
| "visit_asn1 (AOctetString bs) = TOctetString bs"
| "visit_asn1 (AExplicitTag tag a) = visit_asn1 a"
| "visit_asn1 (AImplicitTag tag a) = visit_asn1 a"
| "visit_asn1 (AInteger w) = TU32 w"
| "visit_asn1 (ABool b) = TBool b"
| "visit_asn1 (AEnumerate i) = TEnumerate i"

definition cast_octets :: "asn1 \<Rightarrow> u8 list outcome" where
  "cast_octets a = (case visit_asn1 a of TOctetString e \<Rightarrow> Ok e | _ \<Rightarrow> Err (rdp_err InvalidCast))"

definition cast_sequence :: "asn1 \<Rightarrow> (string \<times> asn1) list outcome" where
  "cast_sequence a = (case visit_asn1 a of TSequence e \<Rightarrow> Ok e | _ \<Rightarrow> Err (rdp_err InvalidCast))"

definition cast_sequence_of :: "asn1 \<Rightarrow> asn1 list outcome" where
  "cast_sequence_of a = (case visit_asn1 a of TSequenceOf e \<Rightarrow> Ok e | _ \<Rightarrow> Err (rdp_err InvalidCast))"

definition asn1_field :: "(string \<times> asn1) list \<Rightarrow> string \<Rightarrow> asn1 outcome" where
  "asn1_field fs name = (case map_of fs name of None \<Rightarrow> Panic MissingKey | Some a \<Rightarrow> Ok a)"

subsection \<open>write\<close>

definition sequence_write :: "(string \<times> der) list \<Rightarrow> der" where
  "sequence_write fs = DerSequence (map snd fs)"

definition sequence_of_write :: "der list \<Rightarrow> der" where
  "sequence_of_write xs = DerSequenceOf xs"

definition octet_string_write :: "u8 list \<Rightarrow> der" where
  "octet_string_write bs = DerBytes bs"

definition explicit_tag_write :: "asn1_tag \<Rightarrow> der \<Rightarrow> der" where
  "explicit_tag_write tag d = DerTagged tag d"

definition implicit_tag_write :: "asn1_tag \<Rightarrow> der \<Rightarrow> der" where
  "implicit_tag_write tag d = DerTaggedImplicit tag d"

definition integer_write :: "u32 \<Rightarrow> der" where
  "integer_write w = DerU32 w"

definition bool_write :: "bool \<Rightarrow> der" where
  "bool_write b = DerBool b"

definition enumerate_write :: "int \<Rightarrow> der" where
  "enumerate_write i = DerEnum i"

lemmas asn1_write_defs = sequence_write_def sequence_of_write_def octet_string_write_def explicit_tag_write_def
  implicit_tag_write_def integer_write_def bool_write_def enumerate_write_def

fun write_asn1 :: "asn1 \<Rightarrow> der" where
  "write_asn1 (ASequence fs) = sequence_write (map (\<lambda>(k, a). (k, write_asn1 a)) fs)"
| "write_asn1 (ASequenceOf xs t) = sequence_of_write (map write_asn1 xs)"
| "write_asn1 (AOctetString bs) = octet_string_write bs"
| "write_asn1 (AExplicitTag tag a) = explicit_tag_write tag (write_asn1 a)"
| "write_asn1 (AImplicitTag tag a) = implicit_tag_write tag (write_asn1 a)"
| "write_asn1 (AInteger w) = integer_write w"
| "write_asn1 (ABool b) = bool_write b"
| "write_asn1 (AEnumerate i) = enumerate_write i"

subsection \<open>read\<close>

fun shape_of :: "asn1 \<Rightarrow> shape" where
  "shape_of (ASequence fs) = ShSequence (map (\<lambda>(k, a). shape_of a) fs)"
| "shape_of (ASequenceOf xs t) = ShSequenceOf (map_option shape_of t)"
| "shape_of (AOctetString bs) = ShBytes"
| "shape_of (AExplicitTag tag a) = ShTagged tag (shape_of a)"
| "shape_of (AImplicitTag tag a) = ShTaggedImplicit tag (shape_of a)"
| "shape_of (AInteger w) = ShU32"
| "shape_of (ABool b) = ShBool"
| "shape_of (AEnumerate i) = ShEnum"

text \<open>
  The readers put the parsed values in the place of the old ones, field by field; a
  sequence-of makes a new element for each parsed one and appends it.
\<close>

primrec sequence_read :: "(string \<times> (der \<Rightarrow> asn1 outcome)) list \<Rightarrow> der list \<Rightarrow> (string \<times> asn1) list outcome" where
  "sequence_read [] ds = (if ds = [] then Ok [] else Err ASN1Error)"
| "sequence_read (f # fs) ds = (case ds of [] \<Rightarrow> Err ASN1Error | d # ds' \<Rightarrow>
     bindo (snd f d) (\<lambda>a. bindo (sequence_read fs ds') (\<lambda>r. Ok ((fst f, a) # r))))"

primrec sequence_of_read :: "(der \<Rightarrow> asn1 outcome) \<Rightarrow> der list \<Rightarrow> asn1 list outcome" where
  "sequence_of_read callback [] = Ok []"
| "sequence_of_read callback (d # ds) =
     bindo (callback d) (\<lambda>a. bindo (sequence_of_read callback ds) (\<lambda>r. Ok (a # r)))"

definition octet_string_read :: "der \<Rightarrow> u8 list outcome" where
  "octet_string_read d = (case d of DerBytes bs \<Rightarrow> Ok bs | _ \<Rightarrow> Err ASN1Error)"

definition explicit_tag_read :: "asn1_tag \<Rightarrow> (der \<Rightarrow> asn1 outcome) \<Rightarrow> der \<Rightarrow> asn1 outcome" where
  "explicit_tag_read tag rd d = (case d of DerTagged t e \<Rightarrow> if t = tag then rd e else Err ASN1Error | _ \<Rightarrow> Err ASN1Error)"

definition implicit_tag_read :: "asn1_tag \<Rightarrow> (der \<Rightarrow> asn1 outcome) \<Rightarrow> der \<Rightarrow> asn1 outcome" where
  "implicit_tag_read tag rd d =
     (case d of DerTaggedImplicit t e \<Rightarrow> if t = tag then rd e else Err ASN1Error | _ \<Rightarrow> Err ASN1Error)"

definition integer_read :: "der \<Rightarrow> u32 outcome" where
  "integer_read d = (case d of DerU32 w \<Rightarrow> Ok w | _ \<Rightarrow> Err ASN1Error)"

definition bool_read :: "der \<Rightarrow> bool outcome" where
  "bool_read d = (case d of DerBool b \<Rightarrow> Ok b | _ \<Rightarrow> Err ASN1Error)"

definition enumerate_read :: "der \<Rightarrow> int outcome" where
  "enumerate_read d = (case d of DerEnum i \<Rightarrow> Ok i | _ \<Rightarrow> Err ASN1Error)"

fun read_asn1 :: "asn1 \<Rightarrow> der \<Rightarrow> asn1 outcome" where
  "read_asn1 (ASequence fs) d = (case d of
       DerSequence ds \<Rightarrow> bindo (sequence_read (map (\<lambda>(k, a). (k, read_asn1 a)) fs) ds) (\<lambda>r. Ok (ASequence r))
     | _ \<Rightarrow> Err ASN1Error)"
| "read_asn1 (ASequenceOf xs (Some t)) d = (case d of
       DerSequenceOf ds \<Rightarrow> bindo (sequence_of_read (read_asn1 t) ds) (\<lambda>r. Ok (ASequenceOf (xs @ r) (Some t)))
     | _ \<Rightarrow> Err ASN1Error)"
| "read_asn1 (ASequenceOf xs None) d = (case d of
       DerSequenceOf ds \<Rightarrow> Ok (ASequenceOf xs None) | _ \<Rightarrow> Err ASN1Error)"
| "read_asn1 (AOctetString bs) d = bindo (octet_string_read d) (\<lambda>x. Ok (AOctetString x))"
| "read_asn1 (AExplicitTag tag a) d = bindo (explicit_tag_read tag (read_asn1 a) d) (\<lambda>x. Ok (AExplicitTag tag x))"
| "read_asn1 (AImplicitTag tag a) d = bindo (implicit_tag_read tag (read_asn1 a) d) (\<lambda>x. Ok (AImplicitTag tag x))"
| "read_asn1 (AInteger w) d = bindo (integer_read d) (\<lambda>x. Ok (AInteger x))"
| "read_asn1 (ABool b) d = bindo (bool_read d) (\<lambda>x. Ok (ABool x))"
| "read_asn1 (AEnumerate i) d = bindo (enumerate_read d) (\<lambda>x. Ok (AEnumerate x))"

definition to_der :: "yasna \<Rightarrow> asn1 \<Rightarrow> u8 list" where
  "to_der y message = construct_der y (write_asn1 message)"

definition from_der :: "yasna \<Rightarrow> asn1 \<Rightarrow> u8 list \<Rightarrow> asn1 outcome" where
  "from_der y message stream = (case parse_der y (shape_of message) stream of
     None \<Rightarrow> Err ASN1Error | Some d \<Rightarrow> read_asn1 message d)"

definition from_ber :: "yasna \<Rightarrow> asn1 \<Rightarrow> u8 list \<Rightarrow> asn1 outcome" where
  "from_ber y message stream = (case parse_ber y (shape_of message) stream of
     None \<Rightarrow> Err ASN1Error | Some d \<Rightarrow> read_asn1 message d)"

subsection \<open>Reading back what was written\<close>

text \<open>
  \<open>fills t m r\<close>: reading a value written as \<open>m\<close> into the template \<open>t\<close> gives \<open>r\<close>. The shapes
  agree; where the template has a sequence-of with a factory, its elements are made anew.
\<close>

inductive fills :: "asn1 \<Rightarrow> asn1 \<Rightarrow> asn1 \<Rightarrow> bool"
  and fills_fields :: "(string \<times> asn1) list \<Rightarrow> (string \<times> asn1) list \<Rightarrow> (string \<times> asn1) list \<Rightarrow> bool"
  and fills_each :: "asn1 \<Rightarrow> asn1 list \<Rightarrow> asn1 list \<Rightarrow> bool" where
  "fills_fields fs ms rs \<Longrightarrow> fills (ASequence fs) (ASequence ms) (ASequence rs)"
| "fills_each t ms rs \<Longrightarrow> fills (ASequenceOf xs (Some t)) (ASequenceOf ms f) (ASequenceOf (xs @ rs) (Some t))"
| "fills (AOctetString a) (AOctetString b) (AOctetString b)"
| "fills t m r \<Longrightarrow> fills (AExplicitTag tag t) (AExplicitTag tag m) (AExplicitTag tag r)"
| "fills t m r \<Longrightarrow> fills (AImplicitTag tag t) (AImplicitTag tag m) (AImplicitTag tag r)"
| "fills (AInteger a) (AInteger b) (AInteger b)"
| "fills (ABool a) (ABool b) (ABool b)"
| "fills (AEnumerate a) (AEnumerate b) (AEnumerate b)"
| "fills_fields [] [] []"
| "fills t m r \<Longrightarrow> fills_fields ts ms rs \<Longrightarrow> fills_fields ((k, t) # ts) ((k', m) # ms) ((k, r) # rs)"
| "fills_each t [] []"
| "fills t m r \<Longrightarrow> fills_each t ms rs \<Longrightarrow> fills_each t (m # ms) (r # rs)"

lemma read_written_asn1:
  "fills t m r \<Longrightarrow> read_asn1 t (write_asn1 m) = Ok r"
  "fills_fields ts ms rs \<Longrightarrow>
     sequence_read (map (\<lambda>(k, a). (k, read_asn1 a)) ts) (map snd (map (\<lambda>(k, a). (k, write_asn1 a)) ms)) = Ok rs"
  "fills_each t es rs' \<Longrightarrow> sequence_of_read (read_asn1 t) (map write_asn1 es) = Ok rs'"
  by (induction rule: fills_fills_fields_fills_each.inducts)
    (simp_all add: asn1_write_defs octet_string_read_def explicit_tag_read_def implicit_tag_read_def
      integer_read_def bool_read_def enumerate_read_def)

lemma from_der_to_der:
  "fills t m r \<Longrightarrow> parse_der y (shape_of t) (construct_der y (write_asn1 m)) = Some (write_asn1 m)
   \<Longrightarrow> from_der y t (to_der y m) = Ok r"
  by (simp add: from_der_def to_der_def read_written_asn1(1))

lemma calm_sequence_read:
  "\<forall>f \<in> set fs. \<forall>d. calm (snd f d) \<Longrightarrow> calm (sequence_read fs ds)"
  by (induction fs arbitrary: ds) (auto split: list.split intro!: calm_bindo)

lemma calm_sequence_of_read: "(\<And>d. calm (callback d)) \<Longrightarrow> calm (sequence_of_read callback ds)"
  by (induction ds) (auto intro!: calm_bindo)

text \<open>Whatever tree the library returns, filling the template is a value or an error.\<close>

lemma calm_read_asn1: "calm (read_asn1 t d)"
proof (induction t arbitrary: d)
  case (ASequence fs)
  then have "calm (sequence_read (map (\<lambda>(k, a). (k, read_asn1 a)) fs) ds)" for ds
    by (intro calm_sequence_read) fastforce
  then show ?case by (auto split: der.split)
next
  case (ASequenceOf xs f)
  then show ?case by (cases f) (auto split: der.split intro!: calm_sequence_of_read)
qed (auto simp: octet_string_read_def explicit_tag_read_def implicit_tag_read_def
      integer_read_def bool_read_def enumerate_read_def split: der.split)

lemma calm_from_der: "calm (from_der y t bs)" "calm (from_ber y t bs)"
  by (auto simp: from_der_def from_ber_def calm_read_asn1 split: option.split)

subsection \<open>Property\<close>

text \<open>
  C22. Parsing the encoding of an ASN.1 value into a template of the same shape returns the
  value in the template's place, tags and nesting included, whenever the library parses
  back what it encoded for this very value; and on any bytes the parse ends with a value or
  an ASN.1 error, never a panic.
\<close>

theorem asn1_round_trip:
  assumes "fills t m r" "parse_der y (shape_of t) (construct_der y (write_asn1 m)) = Some (write_asn1 m)"
  shows "from_der y t (to_der y m) = Ok r \<and> calm (from_der y t bs)"
  using from_der_to_der [OF assms] calm_from_der by blast

theorem asn1_round_trip_witness:
  "from_der \<lparr>construct_der = (\<lambda>d. [48]), parse_der = (\<lambda>sh bs. Some (write_asn1
      (ASequence [(''v'', AExplicitTag (ContextTag 0) (AInteger 2)), (''l'', ASequenceOf [AOctetString [7], AOctetString [8, 9]] None)]))),
      parse_ber = (\<lambda>sh bs. None)\<rparr>
    (ASequence [(''v'', AExplicitTag (ContextTag 0) (AInteger 0)), (''l'', ASequenceOf [] (Some (AOctetString [])))])
    (to_der \<lparr>construct_der = (\<lambda>d. [48]), parse_der = (\<lambda>sh bs. Some (write_asn1
      (ASequence [(''v'', AExplicitTag (ContextTag 0) (AInteger 2)), (''l'', ASequenceOf [AOctetString [7], AOctetString [8, 9]] None)]))),
      parse_ber = (\<lambda>sh bs. None)\<rparr>
    (ASequence [(''v'', AExplicitTag (ContextTag 0) (AInteger 2)), (''l'', ASequenceOf [AOctetString [7], AOctetString [8, 9]] None)]))
   = Ok (ASequence [(''v'', AExplicitTag (ContextTag 0) (AInteger 2)),
      (''l'', ASequenceOf ([] @ [AOctetString [7], AOctetString [8, 9]]) (Some (AOctetString [])))])"
proof -
  have "fills (ASequence [(''v'', AExplicitTag (ContextTag 0) (AInteger 0)), (''l'', ASequenceOf [] (Some (AOctetString [])))])
    (ASequence [(''v'', AExplicitTag (ContextTag 0) (AInteger 2)), (''l'', ASequenceOf [AOctetString [7], AOctetString [8, 9]] None)])
    (ASequence [(''v'', AExplicitTag (ContextTag 0) (AInteger 2)),
      (''l'', ASequenceOf ([] @ [AOctetString [7], AOctetString [8, 9]]) (Some (AOctetString [])))])"
    by (intro fills_fills_fields_fills_each.intros)
  from asn1_round_trip [OF this] show ?thesis by simp
qed

end
