(* ===== verification/Der.thy ===== *)
theory Der imports Asn1 begin

section \<open>A writer of the distinguished encoding rules\<close>

text \<open>
  The trees of the model as bytes: what the parameter \<open>construct_der\<close> of the library yasna stands
  for, as far as the examples and the tests of the sources need it (definite lengths, tag numbers below
  31 or in one more byte). No property depends on it; the examples use it in the place of the library,
  and with it the unit tests of the sources hold.
\<close>

subsection \<open>Writing\<close>

function base_256 :: "nat \<Rightarrow> u8 list" where
  "base_256 n = (if n < 256 then [of_nat n] else base_256 (n div 256) @ [of_nat (n mod 256)])"
  by auto
termination by (relation "measure id") auto

declare base_256.simps [simp del]

definition der_length :: "nat \<Rightarrow> u8 list" where
  "der_length n = (if n < 128 then [of_nat n] else (0x80 + of_nat (length (base_256 n))) # base_256 n)"

definition der_tag :: "u8 \<Rightarrow> asn1_tag \<Rightarrow> u8 list" where
  "der_tag constructed tag = (let (c, n) = (case tag of ApplicationTag n \<Rightarrow> (0x40, n) | ContextTag n \<Rightarrow> (0x80, n)) in
     if n < 31 then [c + constructed + of_nat n] else [c + constructed + 31, of_nat n])"

definition der_unsigned :: "nat \<Rightarrow> u8 list" where
  "der_unsigned n = (let bs = base_256 n in if hd bs < 0x80 then bs else 0 # bs)"

definition der_field :: "u8 list \<times> u8 list \<Rightarrow> u8 list" where
  "der_field p = (case p of (t, c) \<Rightarrow> t @ der_length (length c) @ c)"

text \<open>The tag and the content of a tree: the implicit tag replaces the first and keeps its kind.\<close>

fun der_parts :: "der \<Rightarrow> u8 list \<times> u8 list" where
  "der_parts (DerSequence ds) = ([0x30], concat (map der_field (map der_parts ds)))"
| "der_parts (DerSequenceOf ds) = ([0x30], concat (map der_field (map der_parts ds)))"
| "der_parts (DerBytes bs) = ([4], bs)"
| "der_parts (DerTagged tag d) = (der_tag 0x20 tag, der_field (der_parts d))"
| "der_parts (DerTaggedImplicit tag d) = (case der_parts d of (t, c) \<Rightarrow> (der_tag (hd t AND 0x20) tag, c))"
| "der_parts (DerU32 w) = ([2], der_unsigned (unat w))"
| "der_parts (DerBool b) = ([1], [if b then 0xFF else 0])"
| "der_parts (DerEnum i) = ([10], der_unsigned (nat i))"

definition der_bytes :: "der \<Rightarrow> u8 list" where
  "der_bytes d = der_field (der_parts d)"

definition der_writer :: yasna where
  "der_writer = \<lparr>construct_der = der_bytes, parse_der = (\<lambda>sh bs. None), parse_ber = (\<lambda>sh bs. None)\<rparr>"

lemmas der_simps = to_der_def der_writer_def der_bytes_def der_field_def der_length_def der_tag_def der_unsigned_def base_256.simps
  asn1_write_defs

subsection \<open>How long the encoding is\<close>

lemma base_256_length: "n < 256 ^ Suc k \<Longrightarrow> length (base_256 n) \<le> Suc k"
proof (induction k arbitrary: n)
  case 0
  then show ?case by (simp add: base_256.simps)
next
  case (Suc k)
  have "n div 256 < 256 ^ Suc k" using Suc.prems by (simp add: less_mult_imp_div_less)
  from Suc.IH [OF this] show ?case by (subst base_256.simps) simp
qed

text \<open>A field of fewer than 65536 bytes takes its tag, at most three bytes of length and its content.\<close>

lemma der_field_length:
  assumes "length c < 65536"
  shows "length (der_field (t, c)) \<le> length t + 3 + length c"
  using base_256_length [of "length c" 1] assms by (simp add: der_field_def der_length_def)

end
