(* ===== verification/Gcc.thy ===== *)
theory Gcc
  imports Per
begin

section \<open>Unicode strings and the conference blocks\<close>

text \<open>
  \<^verbatim>\<open>src/src/model/unicode.rs\<close> and \<^verbatim>\<open>src/src/core/gcc.rs\<close>: the conversion of a string to
  UTF-16, the client's data blocks, the conference create request, and the parser of the
  server's response. A string of the user is the list of its Unicode scalar values; its
  length in the code is its UTF-8 length, and slicing it inside a character panics.
\<close>

subsection \<open>Strings\<close>

type_synonym rstring = "nat list"

definition utf8_len :: "nat \<Rightarrow> nat" where
  "utf8_len c = (if c < 0x80 then 1 else if c < 0x800 then 2 else if c < 0x10000 then 3 else 4)"

definition str_len :: "rstring \<Rightarrow> nat" where
  "str_len s = sum_list (map utf8_len s)"

fun str_prefix :: "nat \<Rightarrow> rstring \<Rightarrow> rstring outcome" where
  "str_prefix n [] = (if n = 0 then Ok [] else Panic OutOfBounds)"
| "str_prefix n (c # cs) = (if n = 0 then Ok []
     else if utf8_len c \<le> n then bindo (str_prefix (n - utf8_len c) cs) (\<lambda>r. Ok (c # r))
     else Panic OutOfBounds)"

definition encode_utf16 :: "rstring \<Rightarrow> u16 list" where
  "encode_utf16 s = concat (map (\<lambda>c. if c < 0x10000 then [of_nat c]
     else [of_nat (0xD800 + (c - 0x10000) div 0x400), of_nat (0xDC00 + (c - 0x10000) mod 0x400)]) s)"

definition to_unicode :: "rstring \<Rightarrow> u8 list" where
  "to_unicode s = concat (map u16_le (encode_utf16 s))"

text \<open>The UTF-8 bytes of a string, \<open>as_bytes\<close>.\<close>

definition utf8_char :: "nat \<Rightarrow> u8 list" where
  "utf8_char c = (if c < 0x80 then [of_nat c]
     else if c < 0x800 then [of_nat (0xC0 + c div 64), of_nat (0x80 + c mod 64)]
     else if c < 0x10000 then [of_nat (0xE0 + c div 4096), of_nat (0x80 + c div 64 mod 64), of_nat (0x80 + c mod 64)]
     else [of_nat (0xF0 + c div 262144), of_nat (0x80 + c div 4096 mod 64), of_nat (0x80 + c div 64 mod 64), of_nat (0x80 + c mod 64)])"

definition as_bytes :: "rstring \<Rightarrow> u8 list" where
  "as_bytes s = concat (map utf8_char s)"

subsection \<open>Constants and enumerations\<close>

definition T124_02_98_OID :: "u8 list" where "T124_02_98_OID = [0, 0, 20, 124, 0, 1]"
definition H221_CS_KEY :: "u8 list" where "H221_CS_KEY = [0x44, 0x75, 0x63, 0x61]"
definition H221_SC_KEY :: "u8 list" where "H221_SC_KEY = [0x4D, 0x63, 0x44, 0x6E]"

datatype version = RdpVersion | RdpVersion5plus | UnknownVersion

fun version_code :: "version \<Rightarrow> u32" where
  "version_code RdpVersion = 0x00080001"
| "version_code RdpVersion5plus = 0x00080004"
| "version_code UnknownVersion = 0x00080005"

definition version_from :: "u32 \<Rightarrow> version" where
  "version_from e = (if e = 0x00080001 then RdpVersion5plus
     else if e = 0x00080004 then RdpVersion else UnknownVersion)"

datatype color_depth = RnsUdColor8BPP | RnsUdColor16BPP555 | RnsUdColor16BPP565 | RnsUdColor24BPP

fun color_depth_code :: "color_depth \<Rightarrow> u16" where
  "color_depth_code RnsUdColor8BPP = 0xCA01"
| "color_depth_code RnsUdColor16BPP555 = 0xCA02"
| "color_depth_code RnsUdColor16BPP565 = 0xCA03"
| "color_depth_code RnsUdColor24BPP = 0xCA04"

datatype sequence_code = RnsUdSasDel

fun sequence_code_of :: "sequence_code \<Rightarrow> u16" where
  "sequence_code_of RnsUdSasDel = 0xAA03"

datatype keyboard_layout =
    Arabic | Bulgarian | ChineseUsKeyboard | Czech | Danish | German | Greek | US | Spanish | Finnish
  | French | Hebrew | Hungarian | Icelandic | Italian | Japanese | Korean | Dutch | Norwegian

fun keyboard_layout_code :: "keyboard_layout \<Rightarrow> u32" where
  "keyboard_layout_code Arabic = 0x401" | "keyboard_layout_code Bulgarian = 0x402"
| "keyboard_layout_code ChineseUsKeyboard = 0x404" | "keyboard_layout_code Czech = 0x405"
| "keyboard_layout_code Danish = 0x406" | "keyboard_layout_code German = 0x407"
| "keyboard_layout_code Greek = 0x408" | "keyboard_layout_code US = 0x409"
| "keyboard_layout_code Spanish = 0x40a" | "keyboard_layout_code Finnish = 0x40b"
| "keyboard_layout_code French = 0x40c" | "keyboard_layout_code Hebrew = 0x40d"
| "keyboard_layout_code Hungarian = 0x40e" | "keyboard_layout_code Icelandic = 0x40f"
| "keyboard_layout_code Italian = 0x410" | "keyboard_layout_code Japanese = 0x411"
| "keyboard_layout_code Korean = 0x412" | "keyboard_layout_code Dutch = 0x413"
| "keyboard_layout_code Norwegian = 0x414"

datatype keyboard_type = IbmPcXt83Key | Olivetti | IbmPcAt84Key | Ibm101102Keys | Nokia1050 | Nokia9140 | JapaneseKeys

fun keyboard_type_code :: "keyboard_type \<Rightarrow> u32" where
  "keyboard_type_code IbmPcXt83Key = 1" | "keyboard_type_code Olivetti = 2"
| "keyboard_type_code IbmPcAt84Key = 3" | "keyboard_type_code Ibm101102Keys = 4"
| "keyboard_type_code Nokia1050 = 5" | "keyboard_type_code Nokia9140 = 6"
| "keyboard_type_code JapaneseKeys = 7"

datatype high_color = HighColor4BPP | HighColor8BPP | HighColor15BPP | HighColor16BPP | HighColor24BPP

fun high_color_code :: "high_color \<Rightarrow> u16" where
  "high_color_code HighColor4BPP = 4" | "high_color_code HighColor8BPP = 8"
| "high_color_code HighColor15BPP = 0xf" | "high_color_code HighColor16BPP = 0x10"
| "high_color_code HighColor24BPP = 0x18"

datatype support = RnsUd24BPPSupport | RnsUd16BPPSupport | RnsUd15BPPSupport | RnsUd32BPPSupport

fun support_code :: "support \<Rightarrow> u16" where
  "support_code RnsUd24BPPSupport = 1" | "support_code RnsUd16BPPSupport = 2"
| "support_code RnsUd15BPPSupport = 4" | "support_code RnsUd32BPPSupport = 8"

datatype gcc_message_type =
  ScCore | ScSecurity | ScNet | CsCore | CsSecurity | CsNet | CsCluster | CsMonitor | UnknownBlock

fun gcc_message_type_code :: "gcc_message_type \<Rightarrow> u16" where
  "gcc_message_type_code ScCore = 0x0C01" | "gcc_message_type_code ScSecurity = 0x0C02"
| "gcc_message_type_code ScNet = 0x0C03" | "gcc_message_type_code CsCore = 0xC001"
| "gcc_message_type_code CsSecurity = 0xC002" | "gcc_message_type_code CsNet = 0xC003"
| "gcc_message_type_code CsCluster = 0xC004" | "gcc_message_type_code CsMonitor = 0xC005"
| "gcc_message_type_code UnknownBlock = 0"

definition gcc_message_type_from :: "u16 \<Rightarrow> gcc_message_type" where
  "gcc_message_type_from e =
     (if e = 0x0C01 then ScCore else if e = 0x0C02 then ScSecurity else if e = 0x0C03 then ScNet
      else if e = 0xC001 then CsCore else if e = 0xC002 then CsSecurity else if e = 0xC003 then CsNet
      else if e = 0xC004 then CsCluster else if e = 0xC005 then CsMonitor else UnknownBlock)"

subsection \<open>The client's blocks\<close>

record client_data =
  cd_width :: u16
  cd_height :: u16
  cd_layout :: keyboard_layout
  cd_server_selected_protocol :: u32
  cd_rdp_version :: version
  cd_name :: rstring

definition default_client_data :: client_data where
  "default_client_data = \<lparr>cd_width = 0, cd_height = 0, cd_layout = French,
     cd_server_selected_protocol = 0, cd_rdp_version = RdpVersion5plus, cd_name = []\<rparr>"

definition client_name :: "rstring \<Rightarrow> rstring outcome" where
  "client_name name = (if 16 \<le> str_len name then str_prefix 16 name
     else Ok (name @ replicate (16 - str_len name) 0))"

definition client_core_data :: "client_data option \<Rightarrow> message outcome" where
  "client_core_data parameter =
     (let p = (case parameter of Some p \<Rightarrow> p | None \<Rightarrow> default_client_data) in
      bindo (client_name (cd_name p)) (\<lambda>name. Ok (MComponent [
        (''version'', MU32 (LE (version_code (cd_rdp_version p)))),
        (''desktopWidth'', MU16 (LE (cd_width p))),
        (''desktopHeight'', MU16 (LE (cd_height p))),
        (''colorDepth'', MU16 (LE (color_depth_code RnsUdColor8BPP))),
        (''sasSequence'', MU16 (LE (sequence_code_of RnsUdSasDel))),
        (''kbdLayout'', MU32 (LE (keyboard_layout_code (cd_layout p)))),
        (''clientBuild'', MU32 (LE 3790)),
        (''clientName'', MSlice (to_unicode name)),
        (''keyboardType'', MU32 (LE (keyboard_type_code Ibm101102Keys))),
        (''keyboardSubType'', MU32 (LE 0)),
        (''keyboardFnKeys'', MU32 (LE 12)),
        (''imeFileName'', MSlice (replicate 64 0)),
        (''postBeta2ColorDepth'', MU16 (LE (color_depth_code RnsUdColor8BPP))),
        (''clientProductId'', MU16 (LE 1)),
        (''serialNumber'', MU32 (LE 0)),
        (''highColorDepth'', MU16 (LE (high_color_code HighColor24BPP))),
        (''supportedColorDepths'', MU16 (LE (support_code RnsUd16BPPSupport OR support_code RnsUd32BPPSupport))),
        (''earlyCapabilityFlags'', MU16 (LE 0x0001)),
        (''clientDigProductId'', MSlice (replicate 64 0)),
        (''connectionType'', MU8 0),
        (''pad1octet'', MU8 0),
        (''serverSelectedProtocol'', MU32 (LE (cd_server_selected_protocol p)))])))"

definition client_security_data :: message where
  "client_security_data = MComponent [
     (''encryptionMethods'', MU32 (LE (0x00000001 OR 0x00000008 OR 0x00000002))),
     (''extEncryptionMethods'', MU32 (LE 0))]"

definition channel_def :: "u8 list \<Rightarrow> u32 \<Rightarrow> message" where
  "channel_def name opts = MComponent [(''name'', MSlice name), (''options'', MU32 (LE opts))]"

definition client_network_data :: "message list \<Rightarrow> message outcome" where
  "client_network_data channel_def_array = bindo (to_vec (MTrame channel_def_array)) (\<lambda>bs. Ok (MComponent [
     (''channelCount'', MU32 (LE (of_nat (length channel_def_array)))),
     (''channelDefArray'', MSlice bs)]))"

definition block_header :: "gcc_message_type option \<Rightarrow> u16 option \<Rightarrow> message outcome" where
  "block_header data_type len = bindo (addw (case len of None \<Rightarrow> 0 | Some l \<Rightarrow> l) 4) (\<lambda>n. Ok (MComponent [
     (''type'', MU16 (LE (gcc_message_type_code (case data_type of None \<Rightarrow> CsCore | Some t \<Rightarrow> t)))),
     (''length'', MU16 (LE n))]))"

definition write_conference_create_request :: "u8 list \<Rightarrow> u8 list outcome" where
  "write_conference_create_request user_data = trame_write [
     write_choice 0,
     write_object_identifier T124_02_98_OID,
     bindo (addw (of_nat (length user_data)) 14) (\<lambda>n. write_msg (write_length n)),
     write_choice 0,
     write_selection 0x08,
     write_numeric_string [0x31] 1,
     write_padding 1,
     write_number_of_set 1,
     write_choice 0xc0,
     write_octet_stream H221_CS_KEY 4,
     write_octet_stream user_data 0]"

subsection \<open>The server's response\<close>

definition server_core_data :: message where
  "server_core_data = MComponent [
     (''rdpVersion'', MU32 (LE 0)),
     (''clientRequestedProtocol'', MOpt (Some (MU32 (LE 0)))),
     (''earlyCapabilityFlags'', MOpt (Some (MU32 (LE 0))))]"

definition server_security_data :: message where
  "server_security_data = MComponent [(''encryptionMethod'', MU32 (LE 0)), (''encryptionLevel'', MU32 (LE 0))]"

definition server_network_data :: message where
  "server_network_data = MComponent [
     (''MCSChannelId'', MCheck (MU16 (LE 1003))),
     (''channelCount'', MDyn (MU16 (LE 0)) (\<lambda>count. Ok (Size ''channelIdArray'' (unat (view_u16 count) * 2)))),
     (''channelIdArray'', MArray [] (Some (MU16 (LE 0))))]"

record server_data =
  sd_channel_ids :: "u16 list"
  sd_rdp_version :: version

text \<open>
  The blocks are read until no header is left; the fuel is one more than the bytes, and
  each block takes at least the four bytes of its header.
\<close>

primrec gcc_blocks :: "nat \<Rightarrow> (gcc_message_type \<rightharpoonup> message) \<Rightarrow> u8 list \<Rightarrow> (gcc_message_type \<rightharpoonup> message) outcome" where
  "gcc_blocks 0 result sub = Diverge"
| "gcc_blocks (Suc fuel) result sub =
     bindo (block_header None None) (\<lambda>header. case read_msg header sub of
       (Ok header, sub) \<Rightarrow>
         bindo (bindo (field header ''length'') cast_u16) (\<lambda>len.
         bindo (msg_length header) (\<lambda>hl.
         bindo (subw len (of_nat hl)) (\<lambda>n.
         bindo (cursor (read_exact (unat n)) sub) (\<lambda>(buffer, sub).
         bindo (bindo (field header ''type'') cast_u16) (\<lambda>t.
         let block = (\<lambda>k template. bindo (on_buffer (read_msg template) buffer) (\<lambda>m. gcc_blocks fuel (result(k \<mapsto> m)) sub)) in
         (case gcc_message_type_from t of
            ScCore \<Rightarrow> block ScCore server_core_data
          | ScSecurity \<Rightarrow> block ScSecurity server_security_data
          | ScNet \<Rightarrow> block ScNet server_network_data
          | _ \<Rightarrow> gcc_blocks fuel result sub))))))
     | (Err e, sub) \<Rightarrow> Ok result
     | (Panic p, sub) \<Rightarrow> Panic p
     | (Diverge, sub) \<Rightarrow> Diverge)"

definition conference_preamble :: "(u8 list, u16) prog" where
  "conference_preamble =
     bindp read_choice (\<lambda>_. bindp (read_object_identifier T124_02_98_OID) (\<lambda>_.
     bindp read_length (\<lambda>_. bindp read_choice (\<lambda>_. bindp (read_integer_16 1001) (\<lambda>_.
     bindp read_integer (\<lambda>_. bindp read_enumerates (\<lambda>_. bindp read_number_of_set (\<lambda>_.
     bindp read_choice (\<lambda>_. bindp (read_octet_stream H221_SC_KEY 4) (\<lambda>_. read_length))))))))))"

definition map_index :: "('k \<rightharpoonup> 'v) \<Rightarrow> 'k \<Rightarrow> 'v outcome" where
  "map_index m k = (case m k of None \<Rightarrow> Panic MissingKey | Some v \<Rightarrow> Ok v)"

fun all_Ok :: "'a outcome list \<Rightarrow> 'a list outcome" where
  "all_Ok [] = Ok []"
| "all_Ok (r # rs) = bindo r (\<lambda>a. bindo (all_Ok rs) (\<lambda>as. Ok (a # as)))"

definition read_conference_create_response :: "u8 list \<Rightarrow> server_data outcome" where
  "read_conference_create_response cc_response =
     bindo (cursor conference_preamble cc_response) (\<lambda>(len, rest).
     let sub = take (unat len) rest in
     bindo (gcc_blocks (Suc (length sub)) Map.empty sub) (\<lambda>result.
     bindo (map_index result ScNet) (\<lambda>net. bindo (bindo (field net ''channelIdArray'') cast_trame) (\<lambda>ids.
     bindo (all_Ok (map (\<lambda>x. unwrap (cast_u16 x)) ids)) (\<lambda>channel_ids.
     bindo (map_index result ScCore) (\<lambda>core. bindo (bindo (field core ''rdpVersion'') cast_u32) (\<lambda>v.
     Ok \<lparr>sd_channel_ids = channel_ids, sd_rdp_version = version_from v\<rparr>)))))))"

subsection \<open>The client's blocks have the sizes the protocol fixes\<close>

lemma length_u16_les: "length (concat (map u16_le ws)) = 2 * length ws"
  by (induction ws) auto

lemma ascii_utf16: "\<forall>c \<in> set s. c < 0x80 \<Longrightarrow> encode_utf16 s = map of_nat s"
  by (induction s) (auto simp: encode_utf16_def)

lemma ascii_unicode_length: "\<forall>c \<in> set s. c < 0x80 \<Longrightarrow> length (to_unicode s) = 2 * length s"
  unfolding to_unicode_def length_u16_les by (simp add: ascii_utf16)

lemma ascii_str_len: "\<forall>c \<in> set s. c < 0x80 \<Longrightarrow> str_len s = length s"
  by (induction s) (auto simp: str_len_def utf8_len_def)

lemma ascii_str_prefix: "\<forall>c \<in> set s. c < 0x80 \<Longrightarrow> n \<le> length s \<Longrightarrow> str_prefix n s = Ok (take n s)"
proof (induction s arbitrary: n)
  case (Cons c s)
  then show ?case by (cases n) (auto simp: utf8_len_def)
qed simp

lemma client_name_ascii:
  assumes "\<forall>c \<in> set name. c < 0x80"
  shows "client_name name = Ok (take 16 (name @ replicate 16 0))"
  using assms by (auto simp: client_name_def ascii_str_len ascii_str_prefix)

lemma client_core_data_length:
  assumes "\<forall>c \<in> set (cd_name p). c < 0x80"
  shows "\<exists>m bs. client_core_data (Some p) = Ok m \<and> write_msg m = Ok bs \<and> length bs = 212"
proof -
  let ?name = "take 16 (cd_name p @ replicate 16 0)"
  have "\<forall>c \<in> set ?name. c < 0x80" using assms by (auto dest!: in_set_takeD split: if_splits)
  then have "length (to_unicode ?name) = 32"
    by (subst ascii_unicode_length) simp_all
  then show ?thesis
    using client_name_ascii [OF assms]
    by (simp add: client_core_data_def u16_write_def u32_write_def u8_write_def slice_write_def add_filter_def)
qed

lemma conference_request_bytes:
  assumes "length user_data + 14 < 0x8000"
  shows "\<exists>ls ls'. write_msg (write_length (of_nat (length user_data + 14))) = Ok ls
     \<and> write_msg (write_length (of_nat (length user_data))) = Ok ls'
     \<and> write_conference_create_request user_data = Ok ([0, 5, 0, 20, 124, 0, 1] @ ls @
          [0, 8, 0, 16, 0, 1, 0xc0, 0, 0x44, 0x75, 0x63, 0x61] @ ls' @ user_data)"
proof -
  have "unat (of_nat (length user_data) :: u16) = length user_data"
    using assms by (simp add: unat_of_nat take_bit_nat_eq_self)
  then have "addw (of_nat (length user_data)) 14 = Ok (of_nat (length user_data + 14) :: u16)"
    using assms by (simp add: addw_def)
  then show ?thesis
    by (simp add: write_conference_create_request_def write_choice_def write_selection_def
        write_number_of_set_def u8_write_def oid_bytes T124_02_98_OID_def H221_CS_KEY_def write_numeric_string_def
        write_padding_def slice_write_def write_octet_stream_def write_length_bytes subw_def)
qed

subsection \<open>The response parser\<close>

lemma block_header_template:
  "block_header None None = Ok (MComponent [(''type'', MU16 (LE 0xC001)), (''length'', MU16 (LE 4))])"
  by (simp add: block_header_def addw_def)

lemmas gcc_read_defs = u16_read_def u32_read_def add_filter_def add_size_def bindp_def retp_def liftp_def

lemma read_block_header:
  "read_msg (MComponent [(''type'', MU16 (LE 0xC001)), (''length'', MU16 (LE 4))]) (a # b # c # d # r)
     = (Ok (MComponent [(''type'', MU16 (LE (le_u16 [a, b]))), (''length'', MU16 (LE (le_u16 [c, d])))]), r)"
  by (simp add: gcc_read_defs)

lemma read_block_header_end:
  "length r < 4 \<Longrightarrow> \<exists>e s. read_msg (MComponent [(''type'', MU16 (LE 0xC001)), (''length'', MU16 (LE 4))]) r = (Err e, s)"
  using short_read [of "MComponent [(''type'', MU16 (LE 0xC001)), (''length'', MU16 (LE 4))]" r]
  by (simp del: read_msg.simps) (metis eq_fst_iff)

text \<open>One step of the block loop.\<close>

definition after_block ::
  "nat \<Rightarrow> (gcc_message_type \<rightharpoonup> message) \<Rightarrow> u16 \<Rightarrow> u8 list \<Rightarrow> u8 list \<Rightarrow> (gcc_message_type \<rightharpoonup> message) outcome" where
  "after_block fuel result t buffer sub =
     (let block = (\<lambda>k template. bindo (on_buffer (read_msg template) buffer) (\<lambda>m. gcc_blocks fuel (result(k \<mapsto> m)) sub)) in
      case gcc_message_type_from t of
        ScCore \<Rightarrow> block ScCore server_core_data
      | ScSecurity \<Rightarrow> block ScSecurity server_security_data
      | ScNet \<Rightarrow> block ScNet server_network_data
      | _ \<Rightarrow> gcc_blocks fuel result sub)"

lemma gcc_blocks_step:
  "gcc_blocks (Suc fuel) result (a # b # c # d # r) =
     bindo (subw (le_u16 [c, d]) 4) (\<lambda>n. bindo (cursor (read_exact (unat n)) r) (\<lambda>(buffer, sub).
       after_block fuel result (le_u16 [a, b]) buffer sub))"
  by (simp add: block_header_template read_block_header cast_u16_def u16_length_def add_filter_def
      after_block_def del: read_msg.simps)

lemma gcc_blocks_end: "length r < 4 \<Longrightarrow> gcc_blocks (Suc fuel) result r = Ok result"
  using read_block_header_end [of r] by (auto simp: block_header_template simp del: read_msg.simps)

lemma gcc_blocks_append:
  assumes "unat l = length buffer + 4"
  shows "gcc_blocks (Suc fuel) result (u16_le t @ u16_le l @ buffer @ rest) = after_block fuel result t buffer rest"
proof -
  have "subw l 4 = Ok (l - 4)" "unat (l - 4) = length buffer"
    using assms by (simp_all add: subw_def word_le_nat_alt unat_sub)
  moreover have "le_u16 [ucast w, ucast (drop_bit 8 w)] = w" for w
    using le_u16_u16_le [of w] by (simp add: u16_le_def)
  ultimately show ?thesis by (simp add: u16_le_def gcc_blocks_step cursor_def read_exact_def del: gcc_blocks.simps)
qed

definition net_shape :: "message \<Rightarrow> bool" where
  "net_shape m \<longleftrightarrow> (\<exists>ids t. field m ''channelIdArray'' = Ok (MArray (map (\<lambda>i. MU16 (LE i)) ids) t))"

definition core_shape :: "message \<Rightarrow> bool" where
  "core_shape m \<longleftrightarrow> (\<exists>v. field m ''rdpVersion'' = Ok (MU32 v))"

lemma read_u16_element:
  "read_msg (MU16 (LE 0)) (a # b # r) = (Ok (MU16 (LE (le_u16 [a, b]))), r)"
  "length s < 2 \<Longrightarrow> read_msg (MU16 (LE 0)) s = (Err (Io UnexpectedEof), [])"
  by (simp_all add: u16_read_def bindp_def retp_def rd_short)

lemma array_of_u16:
  "array_loop fuel (read_msg (MU16 (LE 0))) s = (Ok ms, s') \<Longrightarrow> \<exists>ids. ms = map (\<lambda>i. MU16 (LE i)) ids"
proof (induction fuel arbitrary: s ms)
  case (Suc fuel)
  show ?case
  proof (cases "length s < 2")
    case True
    then show ?thesis using Suc.prems
      by (auto simp: read_u16_element(2) option_read_def bindp_def retp_def simp del: read_msg.simps)
  next
    case False
    then obtain a b r where s: "s = a # b # r" by (cases s rule: remdups_adj.cases) auto
    have "option_read (read_msg (MU16 (LE 0))) s = (Ok (Some (MU16 (LE (le_u16 [a, b])))), r)"
      by (simp only: option_read_def s read_u16_element(1) prod.case outcome.case)
    then have "array_loop (Suc fuel) (read_msg (MU16 (LE 0))) s =
        bindp (array_loop fuel (read_msg (MU16 (LE 0)))) (\<lambda>ms. retp (MU16 (LE (le_u16 [a, b])) # ms)) r"
      unfolding array_loop.simps by (simp only: bindp_Ok option.case)
    with Suc.prems obtain ms' where "array_loop fuel (read_msg (MU16 (LE 0))) r = (Ok ms', s')"
        "ms = MU16 (LE (le_u16 [a, b])) # ms'"
      by (auto simp only: bindp_eq_Ok retp_def prod.inject outcome.inject)
    from Suc.IH [OF this(1)] this(2) obtain ids where "ms = map (\<lambda>i. MU16 (LE i)) (le_u16 [a, b] # ids)" by auto
    then show ?thesis by (rule exI)
  qed
qed (simp add: liftp_def)

lemma quiet_blocks: "quiet server_core_data" "quiet server_security_data" "quiet server_network_data"
  by (simp_all add: server_core_data_def server_security_data_def server_network_data_def)

lemma read_network_shape:
  assumes "fst (read_msg server_network_data buffer) = Ok m"
  shows "net_shape m"
proof -
  obtain x where m: "field m ''channelIdArray'' = Ok x"
    and x: "x = MArray [] (Some (MU16 (LE 0))) \<or> (\<exists>u. fst (read_msg (MArray [] (Some (MU16 (LE 0)))) u) = Ok x)"
    using read_field_shape [OF assms [unfolded server_network_data_def], of "''channelIdArray''"]
    by (force simp del: read_msg.simps)
  have "\<exists>ids t. x = MArray (map (\<lambda>i. MU16 (LE i)) ids) t"
    using x array_of_u16
    by (auto simp: retp_def array_read_def dest!: fst_bindp_Ok simp del: array_loop.simps read_msg.simps(2))
  then show ?thesis by (auto simp: net_shape_def m)
qed

lemma read_core_shape:
  assumes "fst (read_msg server_core_data buffer) = Ok m"
  shows "core_shape m"
proof -
  obtain x where m: "field m ''rdpVersion'' = Ok x"
    and x: "x = MU32 (LE 0) \<or> (\<exists>u. fst (read_msg (MU32 (LE 0)) u) = Ok x)"
    using read_field_shape [OF assms [unfolded server_core_data_def], of "''rdpVersion''"]
    by (force simp del: read_msg.simps)
  then have "\<exists>v. x = MU32 v" by (auto simp: retp_def dest!: fst_bindp_Ok)
  then show ?thesis by (auto simp: core_shape_def m)
qed

definition blocks_shape :: "(gcc_message_type \<rightharpoonup> message) \<Rightarrow> bool" where
  "blocks_shape result \<longleftrightarrow> (\<forall>m. result ScNet = Some m \<longrightarrow> net_shape m) \<and> (\<forall>m. result ScCore = Some m \<longrightarrow> core_shape m)"

lemma wpo_template:
  assumes "quiet t" "\<And>m. fst (read_msg t buffer) = Ok m \<Longrightarrow> Q m"
  shows "wpo (on_buffer (read_msg t) buffer) Q P"
  using safe_outcome [OF safe_read_msg [OF assms(1)], of buffer] assms(2)
  by (cases "fst (read_msg t buffer)") (auto simp: on_buffer_def)

lemma wpo_after_block:
  assumes "\<And>result sub. blocks_shape result \<Longrightarrow> length sub \<le> n \<Longrightarrow> wpo (gcc_blocks fuel result sub) blocks_shape {ArithOverflow}"
    and "blocks_shape result" "length sub \<le> n"
  shows "wpo (after_block fuel result t buffer sub) blocks_shape {ArithOverflow}"
  using assms
  by (auto simp: after_block_def Let_def wpo_bindo blocks_shape_def intro!: wpo_template quiet_blocks
      dest: read_network_shape read_core_shape split: gcc_message_type.split)

lemma wpo_gcc_blocks:
  "length sub < fuel \<Longrightarrow> blocks_shape result \<Longrightarrow> wpo (gcc_blocks fuel result sub) blocks_shape {ArithOverflow}"
proof (induction fuel arbitrary: result sub)
  case (Suc fuel)
  show ?case
  proof (cases "length sub < 4")
    case True
    then show ?thesis using Suc.prems by (simp add: gcc_blocks_end del: gcc_blocks.simps)
  next
    case False
    then obtain a b c d r where sub: "sub = a # b # c # d # r"
      by (auto simp: length_Suc_conv not_less eval_nat_numeral Suc_le_length_iff)
    have "wpo (after_block fuel result t buffer s) blocks_shape {ArithOverflow}" if "length s \<le> length r" for t buffer s
      by (rule wpo_after_block [where n = "length r"]) (use Suc sub that in auto)
    then show ?thesis
      by (auto simp: sub gcc_blocks_step wpo_bindo wpo_cursor wp_read_exact simp del: gcc_blocks.simps)
  qed
qed simp

lemma wp_conference_preamble: "wp conference_preamble (\<lambda>_ _. True) {ArithOverflow} s"
proof -
  have i16: "wp (bindp (read_integer_16 1001) f) (\<lambda>_ _. True) {ArithOverflow} t"
    if "\<And>a u. wp (f a) (\<lambda>_ _. True) {ArithOverflow} u" for f :: "u16 \<Rightarrow> (u8 list, u16) prog" and t
    unfolding wp_bindp by (rule wp_mono [OF wp_read_integer_16]) (use that in auto)
  show ?thesis
    unfolding conference_preamble_def
    by (intro wp_safe_bindp i16 safe_per safe_read_length) (rule wp_mono [OF safeD [OF safe_read_length]], auto)
qed

lemma wpo_response: "wpo (read_conference_create_response bs) (\<lambda>_. True) {ArithOverflow, MissingKey}"
proof -
  have ids: "wpo (all_Ok (map (\<lambda>x. unwrap (cast_u16 x)) (map (\<lambda>i. MU16 (LE i)) ids))) (\<lambda>_. True) P" for ids P
    by (induction ids) (auto simp: cast_u16_def wpo_bindo)
  have blocks: "wpo (bindo (map_index result ScNet) (\<lambda>net. bindo (bindo (field net ''channelIdArray'') cast_trame) (\<lambda>ids.
     bindo (all_Ok (map (\<lambda>x. unwrap (cast_u16 x)) ids)) (\<lambda>channel_ids.
     bindo (map_index result ScCore) (\<lambda>core. bindo (bindo (field core ''rdpVersion'') cast_u32) (\<lambda>v.
     Ok \<lparr>sd_channel_ids = channel_ids, sd_rdp_version = version_from v\<rparr>)))))) (\<lambda>_. True) {ArithOverflow, MissingKey}"
    if shape: "blocks_shape result" for result
  proof (cases "result ScNet")
    case (Some net)
    then obtain ids t where "field net ''channelIdArray'' = Ok (MArray (map (\<lambda>i. MU16 (LE i)) ids) t)"
      using shape by (auto simp: blocks_shape_def net_shape_def)
    moreover have "wpo (bindo (map_index result ScCore) (\<lambda>core. bindo (bindo (field core ''rdpVersion'') cast_u32) (\<lambda>v.
        Ok \<lparr>sd_channel_ids = cs, sd_rdp_version = version_from v\<rparr>))) (\<lambda>_. True) {ArithOverflow, MissingKey}" for cs
      using shape by (cases "result ScCore") (auto simp: map_index_def blocks_shape_def core_shape_def cast_u32_def)
    ultimately show ?thesis
      using Some by (auto simp: map_index_def cast_trame_def wpo_bindo [of "all_Ok _"] simp del: map_map intro: wpo_mono [OF ids])
  qed (simp add: map_index_def)
  show ?thesis
    unfolding read_conference_create_response_def wpo_bindo [of "cursor _ _"] wpo_cursor Let_def
    by (rule wp_mono [OF wp_conference_preamble])
      (auto simp: wpo_bindo [of "gcc_blocks _ _ _"] simp del: gcc_blocks.simps
        intro!: wpo_mono [OF wpo_gcc_blocks] blocks simp: blocks_shape_def)
qed

subsection \<open>A well-formed response\<close>

definition gcc_block :: "u16 \<Rightarrow> u8 list \<Rightarrow> u8 list" where
  "gcc_block t buffer = u16_le t @ u16_le (of_nat (length buffer + 4)) @ buffer"

lemma gcc_blocks_block:
  assumes "length buffer + 4 < 65536"
  shows "gcc_blocks (Suc fuel) result (gcc_block t buffer @ rest) = after_block fuel result t buffer rest"
proof -
  have "unat (of_nat (length buffer + 4) :: u16) = length buffer + 4"
    using assms by (simp only: unat_of_nat) (simp add: take_bit_nat_eq_self)
  from gcc_blocks_append [OF this] show ?thesis by (simp add: gcc_block_def del: gcc_blocks.simps)
qed

lemma array_of_ids:
  "length ids < fuel \<Longrightarrow> array_loop fuel (read_msg (MU16 (LE 0))) (concat (map u16_le ids))
     = (Ok (map (\<lambda>i. MU16 (LE i)) ids), [])"
proof (induction ids arbitrary: fuel)
  case Nil
  then obtain f where "fuel = Suc f" by (cases fuel) auto
  then show ?case by (simp add: option_read_def bindp_def read_u16_element(2) retp_def del: read_msg.simps)
next
  case (Cons i ids)
  then obtain f where f: "fuel = Suc f" by (cases fuel) auto
  have "le_u16 [ucast i, ucast (drop_bit 8 i)] = i" using le_u16_u16_le [of i] by (simp add: u16_le_def)
  then show ?case using Cons f
    by (simp add: option_read_def bindp_def u16_le_def read_u16_element(1) retp_def del: read_msg.simps)
qed

lemma read_network_ids:
  assumes "length ids < 32768"
  shows "fst (read_msg server_network_data (u16_le 1003 @ u16_le (of_nat (length ids)) @ concat (map u16_le ids) @ pad))
     = Ok (MComponent [(''MCSChannelId'', MCheck (MU16 (LE 1003))),
        (''channelCount'', MDyn (MU16 (LE (of_nat (length ids))))
           (\<lambda>count. Ok (Size ''channelIdArray'' (unat (view_u16 count) * 2)))),
        (''channelIdArray'', MArray (map (\<lambda>i. MU16 (LE i)) ids) (Some (MU16 (LE 0))))])"
proof -
  have n: "unat (of_nat (length ids) :: u16) = length ids" using assms by (simp add: unat_of_nat take_bit_nat_eq_self)
  have len: "length (concat (map u16_le ids)) = length ids * 2" by (simp add: length_u16_les)
  have arr: "read_msg (MArray [] (Some (MU16 (LE 0)))) (concat (map u16_le ids))
      = (Ok (MArray (map (\<lambda>i. MU16 (LE i)) ids) (Some (MU16 (LE 0)))), [])"
    using array_of_ids [of ids "Suc (length (concat (map u16_le ids)))"]
    by (simp add: len bindp_def array_read_def retp_def del: read_msg.simps(2) array_loop.simps)
  have "read_local (length ids * 2) (read_msg (MArray [] (Some (MU16 (LE 0))))) (concat (map u16_le ids) @ pad)
      = (Ok (MArray (map (\<lambda>i. MU16 (LE i)) ids) (Some (MU16 (LE 0)))), pad)"
    using read_exact_append [OF len] arr
    by (simp add: read_local_def bindp_def liftp_def on_buffer_def del: read_msg.simps)
  then show ?thesis
    by (simp add: server_network_data_def gcc_read_defs check_read_def val_eq_def dyn_options_def n
        del: read_msg.simps(11))
qed

lemma option_read_Ok: "safe rd \<Longrightarrow> \<exists>x s'. option_read rd s = (Ok x, s')"
  using safe_outcome [of rd s] by (cases "rd s"; cases "fst (rd s)") (auto simp: option_read_def)

lemma read_core_version: "\<exists>m. fst (read_msg server_core_data (u32_le v @ rest)) = Ok m \<and> field m ''rdpVersion'' = Ok (MU32 (LE v))"
proof -
  have s: "safe (read_msg (MU32 (LE 0)))" by (rule safe_read_msg) simp
  obtain x s1 where 1: "option_read (read_msg (MU32 (LE 0))) rest = (Ok x, s1)" using option_read_Ok [OF s] by blast
  obtain y s2 where 2: "option_read (read_msg (MU32 (LE 0))) s1 = (Ok y, s2)" using option_read_Ok [OF s] by blast
  have "read_msg (MU32 (LE 0)) (u32_le v @ rest) = (Ok (MU32 (LE v)), rest)" by (simp add: gcc_read_defs)
  then show ?thesis
    using 1 2 by (simp add: server_core_data_def bindp_def retp_def liftp_def add_filter_def add_size_def
        del: read_msg.simps(3))
qed

lemma blocks_parsed:
  assumes "length core + 8 < 65536" "length pad + 2 * length ids + 8 < 65536" "length sec = 8"
    and "sub = gcc_block 0x0C01 (u32_le v @ core) @ gcc_block 0x0C02 sec
        @ gcc_block 0x0C03 (u16_le 1003 @ u16_le (of_nat (length ids)) @ concat (map u16_le ids) @ pad)"
    and "4 \<le> fuel"
  shows "\<exists>result net cm. gcc_blocks fuel Map.empty sub = Ok result \<and> result ScNet = Some net
     \<and> field net ''channelIdArray'' = Ok (MArray (map (\<lambda>i. MU16 (LE i)) ids) (Some (MU16 (LE 0))))
     \<and> result ScCore = Some cm \<and> field cm ''rdpVersion'' = Ok (MU32 (LE v))"
proof -
  obtain f where f: "fuel = Suc (Suc (Suc (Suc f)))"
    using assms(5) by (auto dest!: le_Suc_ex simp: numeral_eq_Suc)
  obtain cm where core: "fst (read_msg server_core_data (u32_le v @ core)) = Ok cm" "field cm ''rdpVersion'' = Ok (MU32 (LE v))"
    using read_core_version by blast
  have sec: "\<exists>sm. fst (read_msg server_security_data sec) = Ok sm"
  proof -
    from assms(3) obtain a b c d e f g h where "sec = [a, b, c, d, e, f, g, h]"
      by (auto simp: length_Suc_conv eval_nat_numeral)
    then show ?thesis by (simp add: server_security_data_def gcc_read_defs)
  qed
  let ?net = "u16_le 1003 @ u16_le (of_nat (length ids)) @ concat (map u16_le ids) @ pad"
  have net: "length ?net + 4 < 65536" using assms(2) by (simp add: length_u16_les)
  have "length ids < 32768" using assms(2) by simp
  note ids = read_network_ids [OF this, of pad]
  have last: "gcc_blocks (Suc f) r [] = Ok r" for r by (rule gcc_blocks_end) simp
  show ?thesis
    using core sec assms(1,3) gcc_blocks_block [OF net, of _ _ _ "[]"]
    by (auto simp: assms(4) f gcc_blocks_block after_block_def gcc_message_type_from_def on_buffer_def ids last
        simp del: gcc_blocks.simps)
qed

lemma read_sc_key: "read_octet_stream H221_SC_KEY 4 (0 # 0x4D # 0x63 # 0x44 # 0x6E # rest) = (Ok (), rest)"
  by (simp add: read_octet_stream_def H221_SC_KEY_def bindp_def read_length_one u8_read_def retp_def)

lemma preamble_parsed:
  assumes "write_msg (write_length l1) = Ok ls1" "write_msg (write_length l2) = Ok ls2" "l2 < 0x8000"
    and "unat node + 1001 < 65536"
  shows "conference_preamble ([c0, 5, o1, o2, o3, o4, o5] @ ls1 @ [c1] @ u16_be node @ [1, tag, res, sets, c2, 0,
      0x4D, 0x63, 0x44, 0x6E] @ ls2 @ rest) = (Ok l2, rest)"
proof -
  note l1 = read_length_written [OF assms(1)]
  have l2: "read_length (ls2 @ rest) = (Ok l2, rest)"
    using per_length.dec_enc [OF assms(3,2)] .
  have node: "read_integer_16 1001 (u16_be node @ s) = (Ok (node + 1001), s)" for s
    using assms(4) by (simp add: read_integer_16_def u16_read_def bindp_def retp_def liftp_def addw_def)
  have int: "read_integer (1 # tag # s) = (Ok (ucast tag), s)" for s
    by (simp add: read_integer_def bindp_def u8_read_def retp_def)
  have oid: "\<exists>b. read_object_identifier T124_02_98_OID (5 # o1 # o2 # o3 # o4 # o5 # s) = (Ok b, s)" for s
    using read_oid [of T124_02_98_OID] by (simp add: T124_02_98_OID_def)
  then obtain b where oid': "\<And>s. read_object_identifier T124_02_98_OID (5 # o1 # o2 # o3 # o4 # o5 # s) = (Ok b, s)"
    using read_oid [of T124_02_98_OID] by (simp add: T124_02_98_OID_def)
  show ?thesis
    by (simp add: conference_preamble_def read_choice_def read_enumerates_def read_number_of_set_def u8_read_def
        bindp_def oid' l1 node int read_sc_key l2)
qed

subsection \<open>Properties\<close>

text \<open>
  The core data block of the client has the fixed 212 bytes of the protocol, whatever
  the length of the computer name, as long as the name is ASCII: the name is cut or padded
  to sixteen UTF-16 characters.
\<close>

lemma client_core_data_size:
  assumes "\<forall>c \<in> set (cd_name p). c < 0x80"
  shows "\<exists>m bs. client_core_data (Some p) = Ok m \<and> write_msg m = Ok bs \<and> length bs = 212"
  by (rule client_core_data_length [OF assms])

lemma client_core_data_size_witness:
  "\<exists>m bs. client_core_data (Some \<lparr>cd_width = 800, cd_height = 600, cd_layout = US, cd_server_selected_protocol = 1,
     cd_rdp_version = RdpVersion5plus, cd_name = [109, 115, 116, 115, 99]\<rparr>) = Ok m \<and> write_msg m = Ok bs \<and> length bs = 212"
  by (rule client_core_data_size) simp

lemma conference_response_lemma:
  assumes "write_msg (write_length l1) = Ok ls1" "write_msg (write_length (of_nat (length sub))) = Ok ls2"
    and "length sub < 0x8000" "unat node + 1001 < 65536"
    and "length core + 8 < 65536" "length pad + 2 * length ids + 8 < 65536" "length sec = 8"
    and "sub = gcc_block 0x0C01 (u32_le v @ core) @ gcc_block 0x0C02 sec
        @ gcc_block 0x0C03 (u16_le 1003 @ u16_le (of_nat (length ids)) @ concat (map u16_le ids) @ pad)"
  shows "read_conference_create_response ([c0, 5, o1, o2, o3, o4, o5] @ ls1 @ [c1] @ u16_be node
      @ [1, tag, res, sets, c2, 0, 0x4D, 0x63, 0x44, 0x6E] @ ls2 @ sub @ rest)
    = Ok \<lparr>sd_channel_ids = ids, sd_rdp_version = version_from v\<rparr>"
proof -
  have n: "unat (of_nat (length sub) :: u16) = length sub" "(of_nat (length sub) :: u16) < 0x8000"
    using of_nat_16 [OF assms(3)] by auto
  note pre = preamble_parsed [OF assms(1,2) n(2) assms(4), of c0 o1 o2 o3 o4 o5 c1 tag res sets c2 "sub @ rest"]
  have "4 \<le> Suc (length sub)" using assms(7,8) by (simp add: gcc_block_def)
  from blocks_parsed [OF assms(5,6,7,8) this] obtain result net cm
    where r: "gcc_blocks (Suc (length sub)) Map.empty sub = Ok result" "result ScNet = Some net"
      "field net ''channelIdArray'' = Ok (MArray (map (\<lambda>i. MU16 (LE i)) ids) (Some (MU16 (LE 0))))"
      "result ScCore = Some cm" "field cm ''rdpVersion'' = Ok (MU32 (LE v))"
    by blast
  have "all_Ok (map (\<lambda>x. unwrap (cast_u16 x)) (map (\<lambda>i. MU16 (LE i)) ids)) = Ok ids"
    by (induction ids) (auto simp: cast_u16_def)
  then show ?thesis
    by (simp only: read_conference_create_response_def cursor_def pre prod.case outcome.case)
      (simp add: n(1) r map_index_def cast_trame_def cast_u32_def del: gcc_blocks.simps)
qed

text \<open>
  C23. The conference create response of the server is parsed as the protocol lays it out:
  for every node, tag, result, channel list and core block contents, in any trailing
  bytes, the client gets exactly the server's channels. The two known versions of the core block
  are exchanged: a server that names the old version, 0x00080001, is taken for
  one of version 5 and later, and a server that names 0x00080004 for the old one; every other version is unknown.
\<close>

theorem conference_response_parsed:
  assumes "write_msg (write_length l1) = Ok ls1" "write_msg (write_length (of_nat (length sub))) = Ok ls2"
    and "length sub < 0x8000" "unat node + 1001 < 65536"
    and "length core + 8 < 65536" "length pad + 2 * length ids + 8 < 65536" "length sec = 8"
    and "sub = gcc_block 0x0C01 (u32_le v @ core) @ gcc_block 0x0C02 sec
        @ gcc_block 0x0C03 (u16_le 1003 @ u16_le (of_nat (length ids)) @ concat (map u16_le ids) @ pad)"
  shows "\<exists>d. read_conference_create_response ([c0, 5, o1, o2, o3, o4, o5] @ ls1 @ [c1] @ u16_be node
      @ [1, tag, res, sets, c2, 0, 0x4D, 0x63, 0x44, 0x6E] @ ls2 @ sub @ rest) = Ok d
    \<and> sd_channel_ids d = ids
    \<and> (v = 0x00080001 \<longrightarrow> sd_rdp_version d = RdpVersion5plus) \<and> (v = 0x00080004 \<longrightarrow> sd_rdp_version d = RdpVersion)
    \<and> (v \<noteq> 0x00080001 \<and> v \<noteq> 0x00080004 \<longrightarrow> sd_rdp_version d = UnknownVersion)"
  unfolding conference_response_lemma [OF assms] by (simp add: version_from_def)

theorem conference_response_parsed_witness:
  "\<exists>d. read_conference_create_response ([0, 5, 0, 20, 124, 0, 1] @ [0x2A] @ [20] @ u16_be 0x760A
      @ [1, 1, 0, 1, 0xC0, 0, 0x4D, 0x63, 0x44, 0x6E] @ [32]
      @ (gcc_block 0x0C01 (u32_le 0x00080004 @ []) @ gcc_block 0x0C02 [0, 0, 0, 0, 0, 0, 0, 0]
        @ gcc_block 0x0C03 (u16_le 1003 @ u16_le (of_nat (length [1004 :: u16])) @ concat (map u16_le [1004]) @ [0, 0])) @ []) = Ok d
    \<and> sd_channel_ids d = [1004] \<and> sd_rdp_version d = RdpVersion"
  using conference_response_parsed [where ?l1.0 = "0x2A" and ?ls1.0 = "[0x2A]" and ?ls2.0 = "[32]" and node = "0x760A" and core = "[]"
    and pad = "[0, 0]" and sec = "[0, 0, 0, 0, 0, 0, 0, 0]" and v = "0x00080004" and ids = "[1004]" and rest = "[]"]
  by (simp add: write_length_bytes gcc_block_def)

text \<open>
  The version field is read the wrong way round: the code that stands for the old
  version is taken for version 5 and later, and the other way.
\<close>

lemma version_from_swapped:
  "version_from (version_code RdpVersion) = RdpVersion5plus \<and>
   version_from (version_code RdpVersion5plus) = RdpVersion"
  by (simp add: version_from_def)

text \<open>
  C24. What a server can send in place of a response ends the parse with data, with an
  error, or with one of two panics: a block length below four (or a node id that
  overflows), and a response without the network or the core block. The parse never
  loops, whatever the blocks say of their lengths.
\<close>

theorem conference_response_outcomes:
  "(\<exists>d. read_conference_create_response bs = Ok d) \<or> (\<exists>e. read_conference_create_response bs = Err e) \<or>
   read_conference_create_response bs = Panic ArithOverflow \<or> read_conference_create_response bs = Panic MissingKey"
  using wpo_outcome [OF wpo_response [of bs]] by auto

text \<open>
  Both panics are real: a block that claims fewer than four bytes underflows the
  length computation after any blocks read before it, and an empty block list finds no
  network block.
\<close>

lemma conference_block_underflow:
  assumes "unat l < 4"
  shows "gcc_blocks (Suc fuel) result (u16_le t @ u16_le l @ rest) = Panic ArithOverflow"
  using assms le_u16_u16_le [of l]
  by (simp add: u16_le_def gcc_blocks_step subw_def word_le_nat_alt del: gcc_blocks.simps)

lemma conference_block_underflow_witness:
  "gcc_blocks (Suc 4) Map.empty (u16_le 0x0C01 @ u16_le 3 @ [9]) = Panic ArithOverflow"
  using conference_block_underflow [where l = 3 and fuel = 4 and result = Map.empty and t = "0x0C01" and rest = "[9]"]
  by (simp only: unat_numeral) (simp del: gcc_blocks.simps)

end
