(* ===== verification/Mcs.thy ===== *)
theory Mcs
  imports X224 Gcc Der "HOL-Library.AList" "HOL-Library.Multiset"
begin

section \<open>The MCS layer\<close>

text \<open>
  \<^verbatim>\<open>src/src/core/mcs.rs\<close>: the connect, attach and join sequence, and the data requests and
  indications of the connected client. The map from channel names to ids is an association
  list; the order in which its hash map is walked is a parameter, \<open>iter\<close>.
\<close>

subsection \<open>Messages\<close>

datatype domain_mcspdu =
    ErectDomainRequest | DisconnectProviderUltimatum | AttachUserRequest | AttachUserConfirm
  | ChannelJoinRequest | ChannelJoinConfirm | SendDataRequest | SendDataIndication

fun domain_mcspdu_code :: "domain_mcspdu \<Rightarrow> u8" where
  "domain_mcspdu_code ErectDomainRequest = 1" | "domain_mcspdu_code DisconnectProviderUltimatum = 8"
| "domain_mcspdu_code AttachUserRequest = 10" | "domain_mcspdu_code AttachUserConfirm = 11"
| "domain_mcspdu_code ChannelJoinRequest = 14" | "domain_mcspdu_code ChannelJoinConfirm = 15"
| "domain_mcspdu_code SendDataRequest = 25" | "domain_mcspdu_code SendDataIndication = 26"

definition domain_parameters :: "u32 \<Rightarrow> u32 \<Rightarrow> u32 \<Rightarrow> u32 \<Rightarrow> u32 \<Rightarrow> u32 \<Rightarrow> u32 \<Rightarrow> u32 \<Rightarrow> asn1" where
  "domain_parameters max_channel_ids maw_user_ids max_token_ids num_priorities min_thoughput max_height
     max_mcs_pdu_size protocol_version = ASequence [
     (''maxChannelIds'', AInteger max_channel_ids),
     (''maxUserIds'', AInteger maw_user_ids),
     (''maxTokenIds'', AInteger max_token_ids),
     (''numPriorities'', AInteger num_priorities),
     (''minThoughput'', AInteger min_thoughput),
     (''maxHeight'', AInteger max_height),
     (''maxMCSPDUsize'', AInteger max_mcs_pdu_size),
     (''protocolVersion'', AInteger protocol_version)]"

definition connect_initial :: "u8 list option \<Rightarrow> asn1" where
  "connect_initial user_data = AImplicitTag (ApplicationTag 101) (ASequence [
     (''callingDomainSelector'', AOctetString [1]),
     (''calledDomainSelector'', AOctetString [1]),
     (''upwardFlag'', ABool True),
     (''targetParameters'', domain_parameters 34 2 0 1 0 1 0xffff 2),
     (''minimumParameters'', domain_parameters 1 1 1 1 0 1 0x420 2),
     (''maximumParameters'', domain_parameters 0xffff 0xfc17 0xffff 1 0 1 0xffff 2),
     (''userData'', AOctetString (case user_data of None \<Rightarrow> [] | Some u \<Rightarrow> u))])"

definition connect_response :: "u8 list option \<Rightarrow> asn1" where
  "connect_response user_data = AImplicitTag (ApplicationTag 102) (ASequence [
     (''result'', AEnumerate 0),
     (''calledConnectId'', AInteger 0),
     (''domainParameters'', domain_parameters 22 3 0 1 0 1 0xfff8 2),
     (''userData'', AOctetString (case user_data of None \<Rightarrow> [] | Some u \<Rightarrow> u))])"

definition mcs_pdu_header :: "domain_mcspdu option \<Rightarrow> u8 option \<Rightarrow> u8" where
  "mcs_pdu_header pdu opts =
     push_bit 2 (domain_mcspdu_code (case pdu of None \<Rightarrow> AttachUserConfirm | Some p \<Rightarrow> p))
       OR (case opts of None \<Rightarrow> 0 | Some o' \<Rightarrow> o')"

text \<open>A confirm is its header byte and the rest, read with a slice of no fixed length.\<close>

definition read_confirm :: "u8 list \<Rightarrow> (u8 \<times> u8 list) outcome" where
  "read_confirm buffer = bindo (on_buffer (read_msg (MTrame [MU8 0, MSlice []])) buffer) (\<lambda>confirm.
     bindo (bindo (nth_msg confirm 0) cast_u8) (\<lambda>h. bindo (bindo (nth_msg confirm 1) cast_slice) (\<lambda>r. Ok (h, r))))"

definition read_attach_user_confirm :: "u8 list \<Rightarrow> u16 outcome" where
  "read_attach_user_confirm buffer = bindo (read_confirm buffer) (\<lambda>(h, rest).
     if drop_bit 2 h \<noteq> drop_bit 2 (mcs_pdu_header (Some AttachUserConfirm) None) then Err (rdp_err InvalidData)
     else on_buffer (bindp read_enumerates (\<lambda>result.
       if result \<noteq> 0 then failp RejectedByServer else read_integer_16 1001)) rest)"

definition attach_user_request :: message where
  "attach_user_request = MU8 (mcs_pdu_header (Some AttachUserRequest) None)"

definition erect_domain_request :: "message outcome" where
  "erect_domain_request = bindo (trame_write [write_integer 0, write_integer 0]) (\<lambda>bs.
     Ok (MTrame [MU8 (mcs_pdu_header (Some ErectDomainRequest) None), MSlice bs]))"

definition channel_join_request :: "u16 option \<Rightarrow> u16 option \<Rightarrow> message outcome" where
  "channel_join_request user_id channel_id =
     bindo (subw (case user_id of None \<Rightarrow> 1001 | Some u \<Rightarrow> u) 1001) (\<lambda>d. Ok (MTrame [
       MU8 (mcs_pdu_header (Some ChannelJoinRequest) None), MU16 (BE d),
       MU16 (BE (case channel_id of None \<Rightarrow> 0 | Some c \<Rightarrow> c))]))"

definition read_channel_join_confirm :: "u16 \<Rightarrow> u16 \<Rightarrow> u8 list \<Rightarrow> bool outcome" where
  "read_channel_join_confirm user_id channel_id buffer = bindo (read_confirm buffer) (\<lambda>(h, rest).
     if drop_bit 2 h \<noteq> drop_bit 2 (mcs_pdu_header (Some ChannelJoinConfirm) None) then Err (rdp_err InvalidData)
     else on_buffer (bindp read_enumerates (\<lambda>confirm. bindp (read_integer_16 1001) (\<lambda>confirm_user_id.
       bindp (read_integer_16 0) (\<lambda>confirm_channel_id.
       if user_id \<noteq> confirm_user_id then failp InvalidData
       else if channel_id \<noteq> confirm_channel_id then failp InvalidData
       else retp (confirm = 0))))) rest)"

subsection \<open>The client\<close>

record mcs_client =
  m_x224 :: x224_client
  m_server_data :: "server_data option"
  m_user_id :: "u16 option"
  m_channel_ids :: "(string \<times> u16) list"

definition mcs_new :: "x224_client \<Rightarrow> mcs_client" where
  "mcs_new x224 = \<lparr>m_x224 = x224, m_server_data = None, m_user_id = None, m_channel_ids = []\<rparr>"

abbreviation on_x224 :: "(x224_client, 'a) prog \<Rightarrow> (mcs_client, 'a) prog" where
  "on_x224 \<equiv> zoom m_x224 (\<lambda>x c. c\<lparr>m_x224 := x\<rparr>)"

definition raw_payload :: "payload \<Rightarrow> u8 list outcome" where
  "raw_payload p = (case p of PRaw bs \<Rightarrow> Ok bs | PFastPath _ _ \<Rightarrow> Err (rdp_err InvalidCast))"

definition client_blocks :: "u16 \<Rightarrow> u16 \<Rightarrow> keyboard_layout \<Rightarrow> rstring \<Rightarrow> protocols \<Rightarrow> u8 list outcome" where
  "client_blocks screen_width screen_height keyboard_layout name selected =
     bindo (client_core_data (Some \<lparr>cd_width = screen_width, cd_height = screen_height,
       cd_layout = keyboard_layout, cd_server_selected_protocol = protocols_code selected,
       cd_rdp_version = RdpVersion5plus, cd_name = name\<rparr>)) (\<lambda>core.
     bindo (client_network_data []) (\<lambda>net.
     bindo (msg_length core) (\<lambda>n1. bindo (block_header (Some CsCore) (Some (of_nat n1))) (\<lambda>h1.
     bindo (msg_length client_security_data) (\<lambda>n2. bindo (block_header (Some CsSecurity) (Some (of_nat n2))) (\<lambda>h2.
     bindo (msg_length net) (\<lambda>n3. bindo (block_header (Some CsNet) (Some (of_nat n3))) (\<lambda>h3.
     to_vec (MTrame [MTrame [h1, core], MTrame [h2, client_security_data], MTrame [h3, net]])))))))))"

definition write_connect_initial ::
  "yasna \<Rightarrow> u16 \<Rightarrow> u16 \<Rightarrow> keyboard_layout \<Rightarrow> rstring \<Rightarrow> (mcs_client, unit) prog" where
  "write_connect_initial y screen_width screen_height keyboard_layout name =
     bindp (getp (\<lambda>c. get_selected_protocols (m_x224 c))) (\<lambda>selected.
     bindp (liftp (client_blocks screen_width screen_height keyboard_layout name selected)) (\<lambda>user_data.
     bindp (liftp (write_conference_create_request user_data)) (\<lambda>conference.
     on_x224 (x224_write (MSlice (to_der y (connect_initial (Some conference))))))))"

definition read_connect_response :: "yasna \<Rightarrow> (mcs_client, unit) prog" where
  "read_connect_response y =
     bindp (on_x224 x224_read) (\<lambda>p. bindp (liftp (raw_payload p)) (\<lambda>payload.
     bindp (liftp (bindo (from_ber y (connect_response None) payload) cast_sequence)) (\<lambda>inner.
     bindp (liftp (bindo (asn1_field inner ''userData'') cast_octets)) (\<lambda>cc_response.
     bindp (liftp (read_conference_create_response cc_response)) (\<lambda>d.
     modp (\<lambda>c. c\<lparr>m_server_data := Some d\<rparr>))))))"

text \<open>One requested channel: ask, and wait for the confirm. A refusal is only reported.\<close>

definition join_channel :: "u16 \<Rightarrow> (mcs_client, unit) prog" where
  "join_channel channel_id =
     bindp (getp m_user_id) (\<lambda>uid. bindp (liftp (channel_join_request uid (Some channel_id))) (\<lambda>m.
     bindp (on_x224 (x224_write m)) (\<lambda>_.
     bindp (liftp (unwrap_option uid)) (\<lambda>user_id.
     bindp (on_x224 x224_read) (\<lambda>p. bindp (liftp (raw_payload p)) (\<lambda>payload.
     bindp (liftp (read_channel_join_confirm user_id channel_id payload)) (\<lambda>accepted. retp ())))))))"

primrec join_channels :: "u16 list \<Rightarrow> (mcs_client, unit) prog" where
  "join_channels [] = retp ()"
| "join_channels (i # is) = bindp (join_channel i) (\<lambda>_. join_channels is)"

definition mcs_connect ::
  "yasna \<Rightarrow> ((string \<times> u16) list \<Rightarrow> (string \<times> u16) list) \<Rightarrow> rstring \<Rightarrow> u16 \<Rightarrow> u16 \<Rightarrow> keyboard_layout
   \<Rightarrow> (mcs_client, unit) prog" where
  "mcs_connect y iter name screen_width screen_height keyboard_layout =
     bindp (write_connect_initial y screen_width screen_height keyboard_layout name) (\<lambda>_.
     bindp (read_connect_response y) (\<lambda>_.
     bindp (liftp erect_domain_request) (\<lambda>m. bindp (on_x224 (x224_write m)) (\<lambda>_.
     bindp (on_x224 (x224_write attach_user_request)) (\<lambda>_.
     bindp (on_x224 x224_read) (\<lambda>p. bindp (liftp (raw_payload p)) (\<lambda>payload.
     bindp (liftp (read_attach_user_confirm payload)) (\<lambda>u.
     bindp (modp (\<lambda>c. c\<lparr>m_user_id := Some u,
       m_channel_ids := AList.update ''user'' u (AList.update ''global'' 1003 (m_channel_ids c))\<rparr>)) (\<lambda>_.
     bindp (getp m_channel_ids) (\<lambda>ids. join_channels (map snd (iter ids))))))))))))"

definition mcs_write :: "string \<Rightarrow> message \<Rightarrow> (mcs_client, unit) prog" where
  "mcs_write channel_name message =
     bindp (getp m_user_id) (\<lambda>uid. bindp (liftp (unwrap_option uid)) (\<lambda>u. bindp (liftp (subw u 1001)) (\<lambda>d.
     bindp (getp m_channel_ids) (\<lambda>ids. bindp (liftp (map_index (map_of ids) channel_name)) (\<lambda>channel.
     bindp (liftp (msg_length message)) (\<lambda>len.
     on_x224 (x224_write (MTrame [
       MU8 (mcs_pdu_header (Some SendDataRequest) None), MU16 (BE d), MU16 (BE channel), MU8 0x70,
       write_length (of_nat len), message]))))))))"

definition mcs_header :: "(u8 list, u16) prog" where
  "mcs_header = bindp u8_read (\<lambda>header.
     if drop_bit 2 header = domain_mcspdu_code DisconnectProviderUltimatum then failp Disconnect
     else if drop_bit 2 header \<noteq> domain_mcspdu_code SendDataIndication then failp InvalidData
     else bindp (read_integer_16 1001) (\<lambda>_. read_integer_16 0))"

definition mcs_read :: "((string \<times> u16) list \<Rightarrow> (string \<times> u16) list) \<Rightarrow> (mcs_client, string \<times> payload) prog" where
  "mcs_read iter = bindp (on_x224 x224_read) (\<lambda>message. case message of
       PRaw payload \<Rightarrow> bindp (liftp (cursor mcs_header payload)) (\<lambda>(channel_id, payload).
         bindp (getp m_channel_ids) (\<lambda>ids.
         case find (\<lambda>x. snd x = channel_id) (iter ids) of
           None \<Rightarrow> failp Unknown
         | Some entry \<Rightarrow>
             bindp (liftp (cursor (bindp read_enumerates (\<lambda>_. read_length)) payload)) (\<lambda>(_, payload).
             retp (fst entry, PRaw payload))))
     | PFastPath sec_flag payload \<Rightarrow> retp (''global'', PFastPath sec_flag payload))"

definition mcs_shutdown :: "(mcs_client, unit) prog" where
  "mcs_shutdown = bindp (on_x224 (x224_write (MTrame [
       MU8 (mcs_pdu_header (Some DisconnectProviderUltimatum) (Some 1)), write_enumerates 0x80,
       MSlice [0, 0, 0, 0, 0, 0]]))) (\<lambda>_. on_x224 x224_shutdown)"

definition is_rdp_version_5_plus :: "mcs_client \<Rightarrow> bool outcome" where
  "is_rdp_version_5_plus c = bindo (unwrap_option (m_server_data c)) (\<lambda>d. Ok (sd_rdp_version d = RdpVersion5plus))"

definition get_user_id :: "mcs_client \<Rightarrow> u16 outcome" where
  "get_user_id c = unwrap_option (m_user_id c)"

definition get_global_channel_id :: "mcs_client \<Rightarrow> u16 outcome" where
  "get_global_channel_id c = map_index (map_of (m_channel_ids c)) ''global''"

subsection \<open>Confirms\<close>

lemma read_confirm_bytes: "read_confirm (h # rest) = Ok (h, rest)" "read_confirm [] = Err (Io UnexpectedEof)"
  by (simp_all add: read_confirm_def on_buffer_def read_defs slice_read_def read_to_end_def cast_u8_def cast_slice_def)

lemma read_integer_16_bytes:
  "read_integer_16 m (a # b # r) = (addw (be_u16 [a, b]) m, r)"
  "length s < 2 \<Longrightarrow> read_integer_16 m s = (Err (Io UnexpectedEof), [])"
  by (simp_all add: read_integer_16_def u16_read_def bindp_def retp_def liftp_def rd_short)

lemma attach_confirm_bytes:
  "read_attach_user_confirm (h # r # a # b # rest) =
    (if drop_bit 2 h \<noteq> 11 then Err (rdp_err InvalidData)
     else if r \<noteq> 0 then Err (rdp_err RejectedByServer)
     else addw (be_u16 [a, b]) 1001)"
  by (simp add: read_attach_user_confirm_def read_confirm_bytes mcs_pdu_header_def on_buffer_def
      read_enumerates_def u8_read_def bindp_def failp_def read_integer_16_bytes)

lemma addw_ge: "addw a b = Ok c \<Longrightarrow> b \<le> c"
  using addw_Ok [of a b c] by (simp add: word_le_nat_alt)

lemma attach_confirm_id:
  assumes "read_attach_user_confirm bs = Ok u"
  shows "1001 \<le> u"
proof -
  from assms obtain w where "addw w 1001 = Ok u"
    by (auto simp: read_attach_user_confirm_def bindo_eq_Ok on_buffer_def bindp_eq_Ok failp_def
      read_integer_16_def liftp_def split: if_splits dest!: fst_bindp_Ok)
  then show ?thesis by (rule addw_ge)
qed

subsection \<open>The data request\<close>

abbreviation per_len :: "nat \<Rightarrow> u8 list" where
  "per_len n \<equiv> (if 0x7f < (of_nat n :: u16) then u16_be (of_nat n OR 0x8000) else [ucast (of_nat n :: u16)])"

definition data_request :: "u16 \<Rightarrow> u16 \<Rightarrow> u8 list \<Rightarrow> u8 list" where
  "data_request initiator ch bs = [0x64] @ u16_be initiator @ u16_be ch @ [0x70] @ per_len (length bs) @ bs"

lemma mcs_write_frame_lemma:
  assumes "m_user_id c = Some u" "1001 \<le> u" "map_of (m_channel_ids c) name = Some ch"
    and "write_msg m = Ok bs" "length bs + 15 < 65536"
    and "writes (stream_io (x_transport (m_x224 c))) = []"
  shows "\<exists>c'. mcs_write name m c = (Ok (), c') \<and> sent (x_transport (m_x224 c')) =
    sent (x_transport (m_x224 c)) @ slow_frame ([2, 0xF0, 0x80] @ data_request (u - 1001) ch bs)"
proof -
  let ?M = "MTrame [MU8 (mcs_pdu_header (Some SendDataRequest) None), MU16 (BE (u - 1001)), MU16 (BE ch), MU8 0x70,
       write_length (of_nat (length bs)), m]"
  have w: "write_msg ?M = Ok (data_request (u - 1001) ch bs)"
    using assms(4) by (simp add: write_length_bytes u8_write_def u16_write_def mcs_pdu_header_def data_request_def)
  have l: "length (data_request (u - 1001) ch bs) + 7 < 65536"
    using assms(5) by (simp add: data_request_def)
  obtain x' where "x224_write ?M (m_x224 c) = (Ok (), x')"
    "sent (x_transport x') = sent (x_transport (m_x224 c)) @ slow_frame ([2, 0xF0, 0x80] @ data_request (u - 1001) ch bs)"
    using x224.write_frame [OF assms(6) w l] by blast
  then show ?thesis
    using assms(1-4) msg_length_written [OF assms(4)]
    by (simp add: mcs_write_def getp_def bindp_def liftp_def unwrap_option_def subw_def map_index_def zoom_def
        del: write_msg.simps)
qed

subsection \<open>The data indication\<close>

definition data_indication :: "u8 \<Rightarrow> u16 \<Rightarrow> u16 \<Rightarrow> u8 \<Rightarrow> u8 list \<Rightarrow> u8 list" where
  "data_indication h initiator ch prio bs = [h] @ u16_be initiator @ u16_be ch @ [prio] @ per_len (length bs) @ bs"

lemma unat_16: "unat (w :: u16) < 65536"
  using unsigned_less [of w, where ?'a = nat] by simp

lemma find_unique:
  assumes "distinct (map snd ids)" "set ids' = set ids" "(name, ch) \<in> set ids"
  shows "find (\<lambda>x. snd x = ch) ids' = Some (name, ch)"
proof -
  note s = assms(2)
  have "\<And>x. x \<in> set ids' \<Longrightarrow> snd x = ch \<Longrightarrow> x = (name, ch)"
    using assms(1,3) s by (fastforce simp: distinct_map inj_on_def)
  moreover have "(name, ch) \<in> set ids'" using assms(3) s by simp
  moreover obtain y where y: "find (\<lambda>x. snd x = ch) ids' = Some y"
    using calculation(2) by (cases "find (\<lambda>x. snd x = ch) ids'") (force simp: find_None_iff)+
  then have "y \<in> set ids'" "snd y = ch" by (auto simp: find_Some_iff)
  ultimately show ?thesis using y by metis
qed

lemma per_len_read: "n < 0x8000 \<Longrightarrow> read_length (per_len n @ rest) = (Ok (of_nat n), rest)"
  using per_length.dec_enc [of "of_nat n" "per_len n" rest] of_nat_16 [of n]
  by (simp only: write_length_bytes simp_thms)

lemma mcs_read_indication_lemma:
  assumes "healthy (x_transport (m_x224 c))"
    and "pending (x_transport (m_x224 c)) = slow_frame ([2, 0xF0, 0x80] @ data_indication h initiator ch prio bs) @ rest"
    and "drop_bit 2 h = 26" "unat initiator + 1001 < 65536" "length bs < 0x8000"
    and "distinct (map snd (m_channel_ids c))" "set (iter (m_channel_ids c)) = set (m_channel_ids c)"
    and "(name, ch) \<in> set (m_channel_ids c)"
  shows "\<exists>c'. mcs_read iter c = (Ok (name, PRaw bs), c') \<and> pending (x_transport (m_x224 c')) = rest"
proof -
  let ?p = "data_indication h initiator ch prio bs"
  have "length ?p + 7 < 65536" using assms(5) by (simp add: data_indication_def)
  then obtain x' where x: "x224_read (m_x224 c) = (Ok (PRaw ?p), x')" "pending (x_transport x') = rest"
    using x224.read_frame [OF assms(1,2)] by blast
  have be: "be_u16 [ucast (drop_bit 8 w), ucast w] = w" for w
    using be_u16_u16_be [of w] by (simp add: u16_be_def)
  have head: "mcs_header ?p = (Ok ch, prio # per_len (length bs) @ bs)"
    using assms(3,4) unat_16 [of ch]
    by (simp add: mcs_header_def data_indication_def u16_be_def u8_read_def bindp_def read_integer_16_bytes be addw_def)
  have tail: "bindp read_enumerates (\<lambda>_. read_length) (prio # per_len (length bs) @ bs) = (Ok (of_nat (length bs)), bs)"
    using per_len_read [OF assms(5), of bs] by (simp add: read_enumerates_def u8_read_def bindp_def)
  show ?thesis
    using x find_unique [OF assms(6,7,8)] cursor_simps(1) [of mcs_header ?p, OF head]
      cursor_simps(1) [of "bindp read_enumerates (\<lambda>_. read_length)", OF tail]
    by (simp add: mcs_read_def zoom_def bindp_def [of "\<lambda>s. _ s"] bindp_def [of "zoom _ _ _"] bindp_def [of "getp _"]
        bindp_def [of "liftp _"] liftp_def getp_def retp_def)
qed

subsection \<open>After the connection\<close>

definition mcs_session :: "mcs_client \<Rightarrow> u16 option \<times> (string \<times> u16) list \<times> server_data option" where
  "mcs_session c = (m_user_id c, m_channel_ids c, m_server_data c)"

lemma keeps_on_x224 [keeps_intros]: "keeps mcs_session (on_x224 m)"
  by (rule keeps_zoom) (simp add: mcs_session_def)

lemma keeps_join [keeps_intros]: "keeps mcs_session (join_channels is)"
  by (induction "is") (auto simp: join_channel_def intro!: keeps_intros)

lemma keeps_mcs_io [keeps_intros]:
  "keeps mcs_session (mcs_write name m)" "keeps mcs_session mcs_shutdown"
  unfolding mcs_write_def mcs_shutdown_def by (intro keeps_intros)+

lemma keeps_mcs_read [keeps_intros]: "keeps mcs_session (mcs_read iter)"
  unfolding mcs_read_def by (auto intro!: keeps_intros split: payload.split option.split)

text \<open>A connected client: a user id in range, both static channels, the server's data.\<close>

definition mcs_connected :: "mcs_client \<Rightarrow> bool" where
  "mcs_connected c \<longleftrightarrow> (\<exists>u. m_user_id c = Some u \<and> 1001 \<le> u \<and> map_of (m_channel_ids c) ''user'' = Some u)
     \<and> map_of (m_channel_ids c) ''global'' = Some 1003 \<and> m_server_data c \<noteq> None"

lemma mcs_connected_session: "mcs_session c = mcs_session d \<Longrightarrow> mcs_connected c = mcs_connected d"
  by (simp add: mcs_session_def mcs_connected_def)

lemma mcs_connected_keeps: "keeps mcs_session m \<Longrightarrow> mcs_connected c \<Longrightarrow> mcs_connected (snd (m c))"
  by (metis keeps_def mcs_connected_session)

lemma post_connect: "post (mcs_connect y iter name w h layout) (\<lambda>_. mcs_connected) c"
proof -
  have same: "post m Q s" if "keeps mcs_session m" "\<And>a t. mcs_session t = mcs_session s \<Longrightarrow> Q a t"
    for m :: "(mcs_client, 'x) prog" and Q s
    using post_keeps [OF that(1)] that(2) by blast
  have connected: "post (bindp (modp (\<lambda>c. c\<lparr>m_user_id := Some u,
       m_channel_ids := AList.update ''user'' u (AList.update ''global'' 1003 (m_channel_ids c))\<rparr>)) (\<lambda>_.
     bindp (getp m_channel_ids) (\<lambda>ids. join_channels (map snd (iter ids))))) (\<lambda>_. mcs_connected) d"
    if "1001 \<le> u" "m_server_data d \<noteq> None" for u d
    using that
    by (auto simp: post_simps mcs_session_def mcs_connected_def update_conv intro!: post_keeps [OF keeps_join])
  have response: "post (read_connect_response y) (\<lambda>_ t. m_server_data t \<noteq> None) d" for d
    by (auto simp: read_connect_response_def post_simps post_liftp intro!: post_all)
  have rest: "post (bindp (liftp erect_domain_request) (\<lambda>m. bindp (on_x224 (x224_write m)) (\<lambda>_.
     bindp (on_x224 (x224_write attach_user_request)) (\<lambda>_.
     bindp (on_x224 x224_read) (\<lambda>p. bindp (liftp (raw_payload p)) (\<lambda>payload.
     bindp (liftp (read_attach_user_confirm payload)) (\<lambda>u.
     bindp (modp (\<lambda>c. c\<lparr>m_user_id := Some u,
       m_channel_ids := AList.update ''user'' u (AList.update ''global'' 1003 (m_channel_ids c))\<rparr>)) (\<lambda>_.
     bindp (getp m_channel_ids) (\<lambda>ids. join_channels (map snd (iter ids))))))))))) (\<lambda>_. mcs_connected) d"
    if "m_server_data d \<noteq> None" for d
    unfolding post_bindp [of "liftp _"] post_liftp post_bindp [of "on_x224 _"]
    using that
    by (auto intro!: post_keeps [OF keeps_on_x224] connected attach_confirm_id simp: mcs_session_def)
  show ?thesis
    unfolding mcs_connect_def post_bindp [of "write_connect_initial _ _ _ _ _"] post_bindp [of "read_connect_response _"]
    by (rule post_all, rule post_mono [OF response]) (rule rest)
qed

subsection \<open>Properties\<close>

text \<open>
  C13. Once the MCS connection has succeeded the client has everything its later
  operations unwrap: the server's data, a user id of at least 1001 and the ids of the two
  static channels; the getters and the version test answer, and every later read, write
  or shutdown keeps it so.
\<close>

theorem mcs_connect_establishes:
  assumes "mcs_connect y iter name w h layout c = (Ok (), c')"
  shows "(\<exists>u. get_user_id c' = Ok u \<and> 1001 \<le> u) \<and> get_global_channel_id c' = Ok 1003
     \<and> (\<exists>b. is_rdp_version_5_plus c' = Ok b) \<and> mcs_connected c'
     \<and> (\<forall>ch m. mcs_connected (snd (mcs_write ch m c'))) \<and> mcs_connected (snd (mcs_read iter c'))"
proof -
  have c: "mcs_connected c'" using postD [OF post_connect assms] .
  show ?thesis
    using c mcs_connected_keeps [OF keeps_mcs_io(1) c] mcs_connected_keeps [OF keeps_mcs_read c]
    by (auto simp: mcs_connected_def [of c'] get_user_id_def unwrap_option_def get_global_channel_id_def map_index_def
        is_rdp_version_5_plus_def)
qed

subsection \<open>A connection that succeeds\<close>

text \<open>The bytes that the client has written into its stream.\<close>

abbreviation mcs_sent :: "mcs_client \<Rightarrow> u8 list" where
  "mcs_sent c \<equiv> sent (x_transport (m_x224 c))"

lemma on_x224_write:
  assumes "conversation (m_x224 c) q" "write_msg m = Ok bs" "length bs + 7 < 65536"
  shows "\<exists>c'. on_x224 (x224_write m) c = (Ok (), c') \<and> conversation (m_x224 c') q \<and> mcs_session c' = mcs_session c
     \<and> mcs_sent c' = mcs_sent c @ data_frame bs"
  using conversation_write [OF assms] by (auto simp: zoom_def mcs_session_def)

lemma on_x224_read:
  assumes "conversation (m_x224 c) (data_frame bs @ q)" "length bs + 7 < 65536"
  shows "\<exists>c'. on_x224 x224_read c = (Ok (PRaw bs), c') \<and> conversation (m_x224 c') q \<and> mcs_session c' = mcs_session c
     \<and> mcs_sent c' = mcs_sent c"
  using conversation_read [OF assms] by (auto simp: zoom_def mcs_session_def)

lemma be_pair: "be_u16 [ucast (drop_bit 8 w), ucast w] = w"
  using be_u16_u16_be [of w] by (simp add: u16_be_def)

lemma sub_1001: "unat v + 1001 < 65536 \<Longrightarrow> subw (v + 1001) 1001 = Ok (v :: u16)" "unat v + 1001 < 65536 \<Longrightarrow> addw v 1001 = Ok (v + 1001)"
  by (simp_all add: subw_def addw_def word_le_nat_alt unat_word_ariths)

definition join_confirm :: "u8 \<Rightarrow> u16 \<Rightarrow> u16 \<Rightarrow> u8 list" where
  "join_confirm r v ch = [0x3E, r] @ u16_be v @ u16_be ch"

lemma join_confirm_read:
  "unat v + 1001 < 65536 \<Longrightarrow> read_channel_join_confirm (v + 1001) ch (join_confirm r v ch) = Ok (r = 0)"
  using unat_16 [of ch]
  by (simp add: read_channel_join_confirm_def join_confirm_def u16_be_def read_confirm_bytes mcs_pdu_header_def on_buffer_def
      read_enumerates_def u8_read_def bindp_def read_integer_16_bytes be_pair sub_1001 retp_def)
    (simp add: addw_def retp_def)

text \<open>The request to join a channel: the initiator relative to 1001, and the id of the channel.\<close>

definition join_request :: "u16 \<Rightarrow> u16 \<Rightarrow> u8 list" where
  "join_request v ch = [0x38] @ u16_be v @ u16_be ch"

lemma join_channel_run:
  assumes "conversation (m_x224 c) (data_frame (join_confirm r v ch) @ q)"
    and "m_user_id c = Some (v + 1001)" "unat v + 1001 < 65536"
  shows "\<exists>c'. join_channel ch c = (Ok (), c') \<and> conversation (m_x224 c') q \<and> mcs_session c' = mcs_session c
     \<and> mcs_sent c' = mcs_sent c @ data_frame (join_request v ch)"
proof -
  let ?m = "MTrame [MU8 (mcs_pdu_header (Some ChannelJoinRequest) None), MU16 (BE v), MU16 (BE ch)]"
  have "write_msg ?m = Ok (join_request v ch)"
    by (simp add: mcs_pdu_header_def u8_write_def u16_write_def join_request_def)
  then obtain c1 where c1: "on_x224 (x224_write ?m) c = (Ok (), c1)" "mcs_session c1 = mcs_session c"
    "conversation (m_x224 c1) (data_frame (join_confirm r v ch) @ q)" "mcs_sent c1 = mcs_sent c @ data_frame (join_request v ch)"
    using on_x224_write [OF assms(1), of ?m] by (auto simp: join_request_def)
  obtain c2 where c2: "on_x224 x224_read c1 = (Ok (PRaw (join_confirm r v ch)), c2)" "mcs_session c2 = mcs_session c1"
    "conversation (m_x224 c2) q" "mcs_sent c2 = mcs_sent c1"
    using on_x224_read [OF c1(3)] by (auto simp: join_confirm_def)
  show ?thesis
    using c1 c2 assms(2,3)
    by (auto simp: join_channel_def getp_def bindp_def liftp_def retp_def channel_join_request_def sub_1001
        unwrap_option_def raw_payload_def join_confirm_read)
qed

lemma join_channels_run:
  assumes "conversation (m_x224 c) (concat (map (\<lambda>ch. data_frame (join_confirm (r ch) v ch)) chs) @ q)"
    and "m_user_id c = Some (v + 1001)" "unat v + 1001 < 65536"
  shows "\<exists>c'. join_channels chs c = (Ok (), c') \<and> conversation (m_x224 c') q \<and> mcs_session c' = mcs_session c
     \<and> mcs_sent c' = mcs_sent c @ concat (map (\<lambda>ch. data_frame (join_request v ch)) chs)"
  using assms(1,2)
proof (induction chs arbitrary: c)
  case (Cons ch chs)
  obtain c1 where c1: "join_channel ch c = (Ok (), c1)" "mcs_session c1 = mcs_session c"
    "conversation (m_x224 c1) (concat (map (\<lambda>ch. data_frame (join_confirm (r ch) v ch)) chs) @ q)"
    "mcs_sent c1 = mcs_sent c @ data_frame (join_request v ch)"
    using join_channel_run [of c "r ch" v ch] Cons.prems assms(3) by auto
  moreover have "m_user_id c1 = Some (v + 1001)" using c1(2) Cons.prems(2) by (simp add: mcs_session_def)
  ultimately show ?case using Cons.IH [of c1] by auto
qed (simp add: retp_def)

lemma client_blocks_length:
  assumes "\<forall>c \<in> set name. c < 0x80"
  shows "\<exists>bs. client_blocks w h layout name selected = Ok bs \<and> length bs = 236"
proof -
  let ?p = "\<lparr>cd_width = w, cd_height = h, cd_layout = layout, cd_server_selected_protocol = protocols_code selected,
       cd_rdp_version = RdpVersion5plus, cd_name = name\<rparr>"
  obtain core bs where core: "client_core_data (Some ?p) = Ok core" "write_msg core = Ok bs" "length bs = 212"
    using client_core_data_length [of ?p] assms by auto
  show ?thesis
    using core msg_length_written [OF core(2)]
    by (simp add: client_blocks_def client_network_data_def client_security_data_def block_header_def addw_def
        to_vec_def u16_write_def u32_write_def slice_write_def add_filter_def u32_length_def slice_length_def)
qed

text \<open>
  What the client sends: the connect initial with its settings, which holds the encoding that the
  library gives, the erect domain request, the attach user request, and the join requests.
\<close>

definition client_initial :: "yasna \<Rightarrow> u16 \<Rightarrow> u16 \<Rightarrow> keyboard_layout \<Rightarrow> rstring \<Rightarrow> protocols \<Rightarrow> u8 list outcome" where
  "client_initial y w h layout name selected = bindo (client_blocks w h layout name selected) (\<lambda>ud.
     bindo (write_conference_create_request ud) (\<lambda>conference. Ok (to_der y (connect_initial (Some conference)))))"

definition mcs_opening :: "u8 list \<Rightarrow> u16 \<Rightarrow> u16 list \<Rightarrow> u8 list" where
  "mcs_opening ini v chs = data_frame ini @ data_frame [4, 1, 0, 1, 0] @ data_frame [0x28]
     @ concat (map (\<lambda>ch. data_frame (join_request v ch)) chs)"

text \<open>The content of the connect initial is 259 bytes, whatever the settings are.\<close>

lemma client_initial_content:
  assumes "\<forall>c \<in> set name. c < 0x80"
  obtains conference where "length conference = 259"
    "client_initial y w h layout name selected = Ok (to_der y (connect_initial (Some conference)))"
proof -
  obtain ud where ud: "client_blocks w h layout name selected = Ok ud" "length ud = 236"
    using client_blocks_length [OF assms] by blast
  obtain ls ls' where c: "write_msg (write_length (of_nat (length ud + 14))) = Ok ls" "write_msg (write_length (of_nat (length ud))) = Ok ls'"
      "write_conference_create_request ud = Ok ([0, 5, 0, 20, 124, 0, 1] @ ls @
          [0, 8, 0, 16, 0, 1, 0xc0, 0, 0x44, 0x75, 0x63, 0x61] @ ls' @ ud)"
    using conference_request_bytes [of ud] ud(2) by auto
  have "length ls = 2" "length ls' = 2" using c(1,2) by (auto simp: write_length_bytes ud(2) u16_be_def)
  then have "length ([0, 5, 0, 20, 124, 0, 1] @ ls @ [0, 8, 0, 16, 0, 1, 0xc0, 0, 0x44, 0x75, 0x63, 0x61] @ ls' @ ud) = 259"
    by (simp add: ud(2))
  then show ?thesis by (rule that) (simp add: client_initial_def ud(1) c(3))
qed

text \<open>A connect response of a server; the client looks at its user data only.\<close>

definition connect_answer :: "int \<Rightarrow> u32 \<Rightarrow> (nat \<Rightarrow> u32) \<Rightarrow> u8 list \<Rightarrow> asn1" where
  "connect_answer result called p cc = AImplicitTag (ApplicationTag 102) (ASequence [
     (''result'', AEnumerate result),
     (''calledConnectId'', AInteger called),
     (''domainParameters'', domain_parameters (p 0) (p 1) (p 2) (p 3) (p 4) (p 5) (p 6) (p 7)),
     (''userData'', AOctetString cc)])"

lemma connect_answer_read:
  assumes "parse_ber y (shape_of (connect_response None)) resp = Some (write_asn1 (connect_answer result called p cc))"
  shows "bindo (bindo (from_ber y (connect_response None) resp) cast_sequence) (\<lambda>inner. bindo (asn1_field inner ''userData'') cast_octets) = Ok cc"
proof -
  have "fills (connect_response None) (connect_answer result called p cc) (connect_answer result called p cc)"
    unfolding connect_response_def connect_answer_def domain_parameters_def by (auto intro!: fills_fills_fields_fills_each.intros)
  then have "from_ber y (connect_response None) resp = Ok (connect_answer result called p cc)"
    by (simp add: from_ber_def assms read_written_asn1(1))
  then show ?thesis by (simp add: connect_answer_def cast_sequence_def asn1_field_def cast_octets_def)
qed

lemma write_initial_run:
  assumes "conversation (m_x224 c) q" "client_initial y w h layout name (get_selected_protocols (m_x224 c)) = Ok ini" "length ini + 7 < 65536"
  shows "\<exists>c'. write_connect_initial y w h layout name c = (Ok (), c') \<and> conversation (m_x224 c') q \<and> mcs_session c' = mcs_session c
     \<and> mcs_sent c' = mcs_sent c @ data_frame ini"
proof -
  obtain ud conf where conf: "client_blocks w h layout name (get_selected_protocols (m_x224 c)) = Ok ud"
      "write_conference_create_request ud = Ok conf" "ini = to_der y (connect_initial (Some conf))"
    using assms(2) by (auto simp: client_initial_def bindo_eq_Ok)
  have "write_msg (MSlice ini) = Ok ini" by (simp add: slice_write_def)
  from on_x224_write [OF assms(1) this assms(3)] show ?thesis
    using conf by (auto simp: write_connect_initial_def getp_def bindp_def liftp_def)
qed

lemma read_response_run:
  assumes "conversation (m_x224 c) (data_frame resp @ q)" "length resp < 65000" "read_conference_create_response cc = Ok d"
    and "parse_ber y (shape_of (connect_response None)) resp = Some (write_asn1 (connect_answer result called p cc))"
  shows "\<exists>c'. read_connect_response y c = (Ok (), c') \<and> conversation (m_x224 c') q
     \<and> mcs_session c' = (m_user_id c, m_channel_ids c, Some d) \<and> mcs_sent c' = mcs_sent c"
proof -
  obtain c1 where c1: "on_x224 x224_read c = (Ok (PRaw resp), c1)" "conversation (m_x224 c1) q" "mcs_session c1 = mcs_session c"
      "mcs_sent c1 = mcs_sent c"
    using on_x224_read [OF assms(1)] assms(2) by auto
  obtain inner where i: "bindo (from_ber y (connect_response None) resp) cast_sequence = Ok inner"
      "bindo (asn1_field inner ''userData'') cast_octets = Ok cc"
    using connect_answer_read [OF assms(4)] by (auto simp: bindo_eq_Ok)
  have "read_connect_response y c = (Ok (), c1\<lparr>m_server_data := Some d\<rparr>)"
    using c1(1) assms(3) by (simp add: read_connect_response_def bindp_def liftp_def raw_payload_def i modp_def)
  then show ?thesis using c1 by (auto simp: mcs_session_def)
qed

lemma mcs_connect_run:
  fixes iter :: "(string \<times> u16) list \<Rightarrow> (string \<times> u16) list"
  defines "chs \<equiv> \<lambda>v. map snd (iter [(''global'', 1003), (''user'', v + 1001)])"
  assumes "client_initial y w h layout name (get_selected_protocols (m_x224 c)) = Ok ini" "length ini + 7 < 65536"
    and "parse_ber y (shape_of (connect_response None)) resp = Some (write_asn1 (connect_answer result called p cc))"
    and "read_conference_create_response cc = Ok d" "length resp < 65000"
    and "unat v + 1001 < 65536" "m_channel_ids c = []"
    and "conversation (m_x224 c) (data_frame resp @ data_frame ([0x2E, 0] @ u16_be v) @
       concat (map (\<lambda>ch. data_frame (join_confirm (r ch) v ch)) (chs v)) @ q)"
  shows "\<exists>c'. mcs_connect y iter name w h layout c = (Ok (), c') \<and> conversation (m_x224 c') q
     \<and> m_user_id c' = Some (v + 1001) \<and> m_channel_ids c' = [(''global'', 1003), (''user'', v + 1001)]
     \<and> m_server_data c' = Some d \<and> mcs_sent c' = mcs_sent c @ mcs_opening ini v (chs v)"
proof -
  let ?joins = "concat (map (\<lambda>ch. data_frame (join_confirm (r ch) v ch)) (chs v)) @ q"
  let ?attach = "[0x2E, 0] @ u16_be v"
  obtain c1 where c1: "write_connect_initial y w h layout name c = (Ok (), c1)" "mcs_session c1 = mcs_session c"
      "conversation (m_x224 c1) (data_frame resp @ data_frame ?attach @ ?joins)" "mcs_sent c1 = mcs_sent c @ data_frame ini"
    using write_initial_run [OF assms(9,2,3)] by blast
  obtain c2 where c2: "read_connect_response y c1 = (Ok (), c2)" "conversation (m_x224 c2) (data_frame ?attach @ ?joins)"
      "mcs_session c2 = (m_user_id c1, m_channel_ids c1, Some d)" "mcs_sent c2 = mcs_sent c1"
    using read_response_run [OF c1(3) assms(6,5,4)] by blast
  obtain m where m: "erect_domain_request = Ok m" "write_msg m = Ok [4, 1, 0, 1, 0]"
    by (simp add: erect_domain_request_def write_integer_bytes mcs_pdu_header_def u8_write_def slice_write_def)
  obtain c3 where c3: "on_x224 (x224_write m) c2 = (Ok (), c3)" "mcs_session c3 = mcs_session c2"
      "conversation (m_x224 c3) (data_frame ?attach @ ?joins)" "mcs_sent c3 = mcs_sent c2 @ data_frame [4, 1, 0, 1, 0]"
    using on_x224_write [OF c2(2) m(2)] by auto
  have "write_msg attach_user_request = Ok [0x28]"
    by (simp add: attach_user_request_def mcs_pdu_header_def u8_write_def)
  from on_x224_write [OF c3(3) this] obtain c4 where
    c4: "on_x224 (x224_write attach_user_request) c3 = (Ok (), c4)" "mcs_session c4 = mcs_session c3"
      "conversation (m_x224 c4) (data_frame ?attach @ ?joins)" "mcs_sent c4 = mcs_sent c3 @ data_frame [0x28]"
    by auto
  obtain c5 where c5: "on_x224 x224_read c4 = (Ok (PRaw ?attach), c5)" "mcs_session c5 = mcs_session c4"
      "conversation (m_x224 c5) ?joins" "mcs_sent c5 = mcs_sent c4"
    using on_x224_read [OF c4(3)] by auto
  have u: "read_attach_user_confirm ?attach = Ok (v + 1001)"
    using sub_1001(2) [OF assms(7)] by (simp add: u16_be_def attach_confirm_bytes be_pair)
  let ?c5 = "c5\<lparr>m_user_id := Some (v + 1001), m_channel_ids := [(''global'', 1003), (''user'', v + 1001)]\<rparr>"
  have ids: "m_channel_ids c5 = []" "m_server_data c5 = Some d"
    using c5(2) c4(2) c3(2) c2(3) c1(2) assms(8) by (simp_all add: mcs_session_def)
  obtain c6 where c6: "join_channels (chs v) ?c5 = (Ok (), c6)"
      "conversation (m_x224 c6) q" "mcs_session c6 = mcs_session ?c5"
      "mcs_sent c6 = mcs_sent ?c5 @ concat (map (\<lambda>ch. data_frame (join_request v ch)) (chs v))"
    using join_channels_run [of ?c5 r v "chs v" q] c5(3) assms(7) by auto
  have "mcs_sent c6 = mcs_sent c @ mcs_opening ini v (chs v)"
    using c1(4) c2(4) c3(4) c4(4) c5(4) c6(4) by (simp add: mcs_opening_def)
  then show ?thesis
    using c6 ids by (auto simp: mcs_connect_def bindp_def c1(1) c2(1) liftp_def m(1) c3(1) c4(1) c5(1) raw_payload_def u [simplified]
        modp_def getp_def mcs_session_def chs_def)
qed

text \<open>
  C12. The whole sequence against a server that answers in the expected order: a connect response
  with any result, the attach confirm with any initiator \<open>v\<close>, and a confirm per channel. The
  client sends, in this order and nothing else, its connect initial, the erect domain request, the attach
  user request and one join request for each of the channels 1003 and \<open>v + 1001\<close>, in the order in which its map is
  walked; it takes exactly the answers from the stream and ends with the announced user id, both channels and
  the server's data. The confirms may be refusals, and the response a rejection: the client only reports
  the former, does not look at the latter, and goes on as if it had joined.
\<close>

theorem mcs_connect_succeeds:
  assumes "client_initial y w h layout name (get_selected_protocols (m_x224 c)) = Ok ini" "length ini + 7 < 65536"
    and "parse_ber y (shape_of (connect_response None)) resp = Some (write_asn1 (connect_answer result called p cc))"
    and "read_conference_create_response cc = Ok d" "length resp < 65000"
    and "unat v + 1001 < 65536" "m_channel_ids c = []"
    and "mset (iter [(''global'', 1003), (''user'', v + 1001)]) = {#(''global'', 1003), (''user'', v + 1001)#}"
    and "conversation (m_x224 c) (data_frame resp @ data_frame ([0x2E, 0] @ u16_be v) @
       concat (map (\<lambda>ch. data_frame (join_confirm (r ch) v ch))
         (map snd (iter [(''global'', 1003), (''user'', v + 1001)]))) @ q)"
  shows "\<exists>c' chs. mset chs = {#1003, v + 1001#} \<and> chs = map snd (iter [(''global'', 1003), (''user'', v + 1001)])
     \<and> mcs_connect y iter name w h layout c = (Ok (), c') \<and> conversation (m_x224 c') q
     \<and> mcs_sent c' = mcs_sent c @ data_frame ini @ data_frame [4, 1, 0, 1, 0] @ data_frame [0x28]
         @ concat (map (\<lambda>ch. data_frame ([0x38] @ u16_be v @ u16_be ch)) chs)
     \<and> m_user_id c' = Some (v + 1001) \<and> m_channel_ids c' = [(''global'', 1003), (''user'', v + 1001)]
     \<and> m_server_data c' = Some d"
proof -
  have "mset (map snd (iter [(''global'', 1003), (''user'', v + 1001)])) = {#1003, v + 1001#}"
    using assms(8) by simp
  moreover obtain c' where "mcs_connect y iter name w h layout c = (Ok (), c')" "conversation (m_x224 c') q"
      "m_user_id c' = Some (v + 1001)" "m_channel_ids c' = [(''global'', 1003), (''user'', v + 1001)]" "m_server_data c' = Some d"
      "mcs_sent c' = mcs_sent c @ mcs_opening ini v (map snd (iter [(''global'', 1003), (''user'', v + 1001)]))"
    using mcs_connect_run [where iter = iter and r = r and q = q, OF assms(1-7,9)] by blast
  ultimately show ?thesis unfolding mcs_opening_def join_request_def by blast
qed

text \<open>A server's answers, for the examples: its connect response as the library would encode it.\<close>

definition sample_conference :: "u8 list" where
  "sample_conference = [0, 5, 0, 20, 124, 0, 1] @ [0x2A] @ [20] @ u16_be 0x760A
      @ [1, 1, 0, 1, 0xC0, 0, 0x4D, 0x63, 0x44, 0x6E] @ [32]
      @ (gcc_block 0x0C01 (u32_le 0x00080004 @ []) @ gcc_block 0x0C02 [0, 0, 0, 0, 0, 0, 0, 0]
        @ gcc_block 0x0C03 (u16_le 1003 @ u16_le (of_nat (length [1004 :: u16])) @ concat (map u16_le [1004]) @ [0, 0])) @ []"

lemma sample_conference_read:
  "read_conference_create_response sample_conference = Ok \<lparr>sd_channel_ids = [1004], sd_rdp_version = version_from 0x00080004\<rparr>"
  unfolding sample_conference_def
  by (rule conference_response_lemma [where ?l1.0 = "0x2A" and core = "[]" and pad = "[0, 0]" and sec = "[0, 0, 0, 0, 0, 0, 0, 0]"])
    (simp_all add: write_length_bytes gcc_block_def)

definition sample_answer :: der where
  "sample_answer = write_asn1 (connect_answer 0 0 (\<lambda>i. [34, 3, 0, 1, 0, 1, 0xFFF8, 2] ! i) sample_conference)"

abbreviation sample_response :: "u8 list" where
  "sample_response \<equiv> der_bytes sample_answer"

text \<open>The library of the examples writes every tree and parses what the server sends.\<close>

definition sample_yasna :: yasna where
  "sample_yasna = der_writer\<lparr>parse_ber := (\<lambda>sh bs. if sh = shape_of (connect_response None) \<and> bs = sample_response then Some sample_answer else None)\<rparr>"

text \<open>Its encoding of the connect initial is short, whatever the settings of the client are.\<close>

lemma connect_initial_short:
  assumes "length conference = 259"
  shows "length (der_bytes (write_asn1 (connect_initial (Some conference)))) < 400"
  by (simp add: der_simps connect_initial_def domain_parameters_def assms)

lemma sample_initial:
  assumes "\<forall>c \<in> set name. c < 0x80"
  obtains ini where "client_initial sample_yasna w h layout name selected = Ok ini" "length ini + 7 < 65536"
proof -
  obtain conference where "length conference = 259"
      "client_initial sample_yasna w h layout name selected = Ok (to_der sample_yasna (connect_initial (Some conference)))"
    using client_initial_content [OF assms] .
  then show ?thesis using that connect_initial_short by (fastforce simp: to_der_def sample_yasna_def der_writer_def)
qed

lemma sample_parsed:
  "parse_ber sample_yasna (shape_of (connect_response None)) sample_response
     = Some (write_asn1 (connect_answer 0 0 (\<lambda>i. [34, 3, 0, 1, 0, 1, 0xFFF8, 2] ! i) sample_conference))"
  by (simp add: sample_yasna_def sample_answer_def)

lemma sample_response_length: "length sample_response < 65000" "sample_response \<noteq> []"
  by (simp_all add: sample_answer_def connect_answer_def domain_parameters_def der_simps sample_conference_def gcc_block_def
      u16_le_def u32_le_def u16_be_def)

definition sample_mcs :: mcs_client where
  "sample_mcs = mcs_new \<lparr>x_transport = Raw \<lparr>rx = [Data (data_frame sample_response @ data_frame ([0x2E, 0] @ u16_be 6) @
     data_frame (join_confirm 0 6 1003) @ data_frame (join_confirm 0 6 1007))], tx = [], writes = []\<rparr>,
     x_selected = ProtocolSSL\<rparr>"

lemma sample_mcs_conversation: "conversation (m_x224 sample_mcs) (data_frame sample_response @ data_frame ([0x2E, 0] @ u16_be 6) @
     data_frame (join_confirm 0 6 1003) @ data_frame (join_confirm 0 6 1007))"
  by (simp add: conversation_def sample_mcs_def mcs_new_def healthy_def sound_rx_def pending_def slow_frame_def)

lemma sample_user: "unat (6 :: u16) + 1001 < 65536"
  by simp

theorem mcs_connect_succeeds_witness:
  "\<exists>ini c' chs. client_initial sample_yasna 800 600 French [0x6D, 0x73] ProtocolSSL = Ok ini \<and> length ini + 7 < 65536
     \<and> mset chs = {#1003, 6 + 1001#} \<and> mcs_connect sample_yasna (\<lambda>ids. ids) [0x6D, 0x73] 800 600 French sample_mcs = (Ok (), c')
     \<and> mcs_sent c' = data_frame ini @ data_frame [4, 1, 0, 1, 0] @ data_frame [0x28]
         @ concat (map (\<lambda>ch. data_frame ([0x38] @ u16_be 6 @ u16_be ch)) chs)
     \<and> m_user_id c' = Some (6 + 1001) \<and> m_channel_ids c' = [(''global'', 1003), (''user'', 6 + 1001)]
     \<and> m_server_data c' = Some \<lparr>sd_channel_ids = [1004], sd_rdp_version = version_from 0x00080004\<rparr>"
proof -
  have m: "get_selected_protocols (m_x224 sample_mcs) = ProtocolSSL" "m_channel_ids sample_mcs = []" "mcs_sent sample_mcs = []"
    by (simp_all add: sample_mcs_def mcs_new_def get_selected_protocols_def sent_def)
  have name: "\<forall>c \<in> set [0x6D, 0x73 :: nat]. c < 0x80" by simp
  obtain ini where i: "client_initial sample_yasna 800 600 French [0x6D, 0x73] ProtocolSSL = Ok ini" "length ini + 7 < 65536"
    using sample_initial [OF name] .
  have "conversation (m_x224 sample_mcs) (data_frame sample_response @ data_frame ([0x2E, 0] @ u16_be 6) @
       concat (map (\<lambda>ch. data_frame (join_confirm 0 6 ch)) (map snd [(''global'', 1003), (''user'', 6 + 1001)])) @ [])"
    using sample_mcs_conversation by simp
  moreover have "mset [(''global'', 1003), (''user'', 6 + 1001 :: u16)] = {#(''global'', 1003), (''user'', 6 + 1001)#}" by simp
  ultimately obtain c' chs where "mset chs = {#1003, 6 + 1001#}" "mcs_connect sample_yasna (\<lambda>ids. ids) [0x6D, 0x73] 800 600 French sample_mcs = (Ok (), c')"
      "mcs_sent c' = mcs_sent sample_mcs @ data_frame ini @ data_frame [4, 1, 0, 1, 0] @ data_frame [0x28]
         @ concat (map (\<lambda>ch. data_frame ([0x38] @ u16_be 6 @ u16_be ch)) chs)"
      "m_user_id c' = Some (6 + 1001)" "m_channel_ids c' = [(''global'', 1003), (''user'', 6 + 1001)]"
      "m_server_data c' = Some \<lparr>sd_channel_ids = [1004], sd_rdp_version = version_from 0x00080004\<rparr>"
    using mcs_connect_succeeds [where iter = "\<lambda>ids. ids" and r = "\<lambda>ch. 0" and q = "[]", OF i(1) [folded m(1)] i(2) sample_parsed
      sample_conference_read sample_response_length(1) sample_user m(2)] by blast
  then show ?thesis using i unfolding m(3) append_Nil by blast
qed

theorem mcs_connect_establishes_witness:
  "\<exists>c'. mcs_connect sample_yasna (\<lambda>ids. ids) [0x6D, 0x73] 800 600 French sample_mcs = (Ok (), c') \<and> mcs_connected c'"
proof -
  have m: "get_selected_protocols (m_x224 sample_mcs) = ProtocolSSL" "m_channel_ids sample_mcs = []"
    by (simp_all add: sample_mcs_def mcs_new_def get_selected_protocols_def)
  have name: "\<forall>c \<in> set [0x6D, 0x73 :: nat]. c < 0x80" by simp
  obtain ini where i: "client_initial sample_yasna 800 600 French [0x6D, 0x73] ProtocolSSL = Ok ini" "length ini + 7 < 65536"
    using sample_initial [OF name] .
  have "conversation (m_x224 sample_mcs) (data_frame sample_response @ data_frame ([0x2E, 0] @ u16_be 6) @
       concat (map (\<lambda>ch. data_frame (join_confirm 0 6 ch)) (map snd [(''global'', 1003), (''user'', 6 + 1001)])) @ [])"
    using sample_mcs_conversation by simp
  from mcs_connect_run [where iter = "\<lambda>ids. ids" and r = "\<lambda>ch. 0" and q = "[]", OF i(1) [folded m(1)] i(2) sample_parsed sample_conference_read sample_response_length(1) sample_user m(2) this]
  have "\<exists>c'. mcs_connect sample_yasna (\<lambda>ids. ids) [0x6D, 0x73] 800 600 French sample_mcs = (Ok (), c')"
    by blast
  then show ?thesis using mcs_connect_establishes by blast
qed

text \<open>
  A write on a named channel of a connected client puts one data request into the
  stream: the initiator relative to 1001, the channel's id, and the message with its PER length.
\<close>

lemma mcs_write_frame:
  assumes "m_user_id c = Some u" "1001 \<le> u" "map_of (m_channel_ids c) name = Some ch"
    and "write_msg m = Ok bs" "length bs + 15 < 65536"
    and "writes (stream_io (x_transport (m_x224 c))) = []"
  shows "\<exists>c'. mcs_write name m c = (Ok (), c') \<and> sent (x_transport (m_x224 c')) =
    sent (x_transport (m_x224 c)) @ data_frame (data_request (u - 1001) ch bs)"
  using mcs_write_frame_lemma [OF assms] .

definition sample_joined :: mcs_client where
  "sample_joined = \<lparr>m_x224 = \<lparr>x_transport = Raw \<lparr>rx = [Data (data_frame (data_indication 0x68 6 1003 0x70 [7, 8]))],
     tx = [], writes = []\<rparr>, x_selected = ProtocolSSL\<rparr>,
     m_server_data = None, m_user_id = Some 1007, m_channel_ids = [(''global'', 1003), (''user'', 1007)]\<rparr>"

lemma mcs_write_frame_witness:
  "\<exists>c'. mcs_write ''global'' (MU8 5) sample_joined = (Ok (), c') \<and> sent (x_transport (m_x224 c')) =
    sent (x_transport (m_x224 sample_joined)) @ data_frame (data_request (1007 - 1001) 1003 [5])"
  by (rule mcs_write_frame) (simp_all add: sample_joined_def u8_write_def)

text \<open>
  A data indication is delivered with its channel's name and exactly the bytes the
  server sent, whatever the order in which the map of channels is walked, as long as no two
  channels share an id; the rest of the stream is left for the next read.
\<close>

lemma mcs_read_indication:
  assumes "healthy (x_transport (m_x224 c))"
    and "pending (x_transport (m_x224 c)) = data_frame (data_indication h initiator ch prio bs) @ rest"
    and "drop_bit 2 h = 26" "unat initiator + 1001 < 65536" "length bs < 0x8000"
    and "distinct (map snd (m_channel_ids c))" "set (iter (m_channel_ids c)) = set (m_channel_ids c)"
    and "(name, ch) \<in> set (m_channel_ids c)"
  shows "\<exists>c'. mcs_read iter c = (Ok (name, PRaw bs), c') \<and> pending (x_transport (m_x224 c')) = rest"
  using assms by (intro mcs_read_indication_lemma)

lemma mcs_read_indication_witness:
  "\<exists>c'. mcs_read rev sample_joined = (Ok (''global'', PRaw [7, 8]), c') \<and> pending (x_transport (m_x224 c')) = []"
  by (rule mcs_read_indication [where h = "0x68" and initiator = 6 and ch = 1003 and prio = "0x70"])
    (auto simp: sample_joined_def healthy_def sound_rx_def pending_def slow_frame_def)

text \<open>
  The attach confirm is accepted exactly when its header and result say so, whatever
  the option bits of its header; the user id is the initiator plus 1001, and an initiator of
  64535 or more overflows the addition and panics.
\<close>

lemma attach_confirm_classified:
  "read_attach_user_confirm (h # r # a # b # rest) =
    (if drop_bit 2 h \<noteq> 11 then Err (rdp_err InvalidData)
     else if r \<noteq> 0 then Err (rdp_err RejectedByServer)
     else if unat (be_u16 [a, b]) \<ge> 64535 then Panic ArithOverflow
     else Ok (be_u16 [a, b] + 1001))"
  by (simp add: attach_confirm_bytes addw_def)

end
