(* ===== verification/License.thy ===== *)
theory License imports Mcs begin

section \<open>License exchange\<close>

text \<open>
  \<^verbatim>\<open>src/src/core/license.rs\<close>: the one message of the license exchange the client accepts.
  Size fields below four underflow the checked subtraction in the preamble.
\<close>

subsection \<open>Messages\<close>

datatype license_message = NewLicense | ErrorAlert message

datatype license_preambule = PreambleVersion20 | PreambleVersion30 | ExtendedErrorMsgSupported

fun license_preambule_code :: "license_preambule \<Rightarrow> u8" where
  "license_preambule_code PreambleVersion20 = 2" | "license_preambule_code PreambleVersion30 = 3"
| "license_preambule_code ExtendedErrorMsgSupported = 0x80"

datatype license_type =
    LicenseRequest | PlatformChallenge | NewLicenseMessage | UpgradeLicense | LicenseInfo
  | NewLicenseRequest | PlatformChallengeResponse | ErrorAlertMessage

definition license_type_of :: "u8 \<Rightarrow> license_type outcome" where
  "license_type_of b = (if b = 1 then Ok LicenseRequest else if b = 2 then Ok PlatformChallenge
     else if b = 3 then Ok NewLicenseMessage else if b = 4 then Ok UpgradeLicense
     else if b = 0x12 then Ok LicenseInfo else if b = 0x13 then Ok NewLicenseRequest
     else if b = 0x15 then Ok PlatformChallengeResponse else if b = 0xFF then Ok ErrorAlertMessage
     else Err (rdp_err InvalidCast))"

datatype license_error =
    ErrInvalidServerCertificate | ErrNoLicense | ErrInvalidScope | ErrNoLicenseServer | StatusValidClient
  | ErrInvalidClient | ErrInvalidProductid | ErrInvalidMessageLen | ErrInvalidMac

definition license_error_of :: "u32 \<Rightarrow> license_error outcome" where
  "license_error_of e = (if e = 1 then Ok ErrInvalidServerCertificate else if e = 2 then Ok ErrNoLicense
     else if e = 4 then Ok ErrInvalidScope else if e = 6 then Ok ErrNoLicenseServer
     else if e = 7 then Ok StatusValidClient else if e = 8 then Ok ErrInvalidClient
     else if e = 0xB then Ok ErrInvalidProductid else if e = 0xC then Ok ErrInvalidMessageLen
     else if e = 3 then Ok ErrInvalidMac else Err (rdp_err InvalidCast))"

datatype state_transition = StTotalAbort | StNoTransition | StResetPhaseToStart | StResendLastMessage

definition state_transition_of :: "u32 \<Rightarrow> state_transition outcome" where
  "state_transition_of t = (if t = 1 then Ok StTotalAbort else if t = 2 then Ok StNoTransition
     else if t = 3 then Ok StResetPhaseToStart else if t = 4 then Ok StResendLastMessage
     else Err (rdp_err InvalidCast))"

definition preamble :: message where
  "preamble = MComponent [
     (''bMsgtype'', MU8 0),
     (''flag'', MCheck (MU8 (license_preambule_code PreambleVersion30))),
     (''wMsgSize'', MDyn (MU16 (LE 0)) (\<lambda>size. bindo (subn (unat (view_u16 size)) 4) (\<lambda>n. Ok (Size ''message'' n)))),
     (''message'', MSlice [])]"

definition license_binary_blob :: message where
  "license_binary_blob = MComponent [
     (''wBlobType'', MU16 (LE 0)),
     (''wBlobLen'', MDyn (MU16 (LE 0)) (\<lambda>size. Ok (Size ''blobData'' (unat (view_u16 size))))),
     (''blobData'', MSlice [])]"

definition licensing_error_message :: message where
  "licensing_error_message = MComponent [
     (''dwErrorCode'', MU32 (LE 0)),
     (''dwStateTransition'', MU32 (LE 0)),
     (''blob'', license_binary_blob)]"

subsection \<open>The exchange\<close>

definition parse_payload :: "message \<Rightarrow> license_message outcome" where
  "parse_payload payload = bindo (bindo (field payload ''bMsgtype'') cast_u8) (\<lambda>b.
     bindo (license_type_of b) (\<lambda>t. case t of
       NewLicenseMessage \<Rightarrow> Ok NewLicense
     | ErrorAlertMessage \<Rightarrow> bindo (bindo (field payload ''message'') cast_slice) (\<lambda>bs.
         bindo (on_buffer (read_msg licensing_error_message) bs) (\<lambda>m. Ok (ErrorAlert m)))
     | _ \<Rightarrow> Err (rdp_err NotImplemented)))"

definition client_connect :: "(u8 list, unit) prog" where
  "client_connect = bindp (read_msg preamble) (\<lambda>license_message.
     bindp (liftp (parse_payload license_message)) (\<lambda>m. case m of
       NewLicense \<Rightarrow> retp ()
     | ErrorAlert blob \<Rightarrow> liftp (
         bindo (bindo (field blob ''dwErrorCode'') cast_u32) (\<lambda>e. bindo (license_error_of e) (\<lambda>code.
         if code = StatusValidClient then
           bindo (bindo (field blob ''dwStateTransition'') cast_u32) (\<lambda>t. bindo (state_transition_of t) (\<lambda>transition.
           if transition = StNoTransition then Ok () else Err (rdp_err InvalidRespond)))
         else Err (rdp_err InvalidRespond))))))"

subsection \<open>The verdict on a license message\<close>

text \<open>What the client concludes from the type and the body of a license message.\<close>

fun alert_verdict :: "u8 list \<Rightarrow> unit outcome" where
  "alert_verdict (e0 # e1 # e2 # e3 # t0 # t1 # t2 # t3 # b0 # b1 # l0 # l1 # blob) =
     (if length blob < unat (le_u16 [l0, l1]) then Err (Io UnexpectedEof)
      else bindo (license_error_of (le_u32 [e0, e1, e2, e3])) (\<lambda>code.
        if code \<noteq> StatusValidClient then Err (rdp_err InvalidRespond)
        else bindo (state_transition_of (le_u32 [t0, t1, t2, t3])) (\<lambda>transition.
          if transition = StNoTransition then Ok () else Err (rdp_err InvalidRespond))))"
| "alert_verdict _ = Err (Io UnexpectedEof)"

definition license_verdict :: "u8 \<Rightarrow> u8 list \<Rightarrow> unit outcome" where
  "license_verdict t body = (if t = 3 then Ok () else if t = 0xFF then alert_verdict body
     else if t \<in> {1, 2, 4, 0x12, 0x13, 0x15} then Err (rdp_err NotImplemented)
     else Err (rdp_err InvalidCast))"

lemma quiet_license: "quiet licensing_error_message" "min_size licensing_error_message = 12"
  by (simp_all add: licensing_error_message_def license_binary_blob_def)

lemma read_error_message:
  "on_buffer (read_msg licensing_error_message)
     (e0 # e1 # e2 # e3 # t0 # t1 # t2 # t3 # b0 # b1 # l0 # l1 # blob) =
   (let n = unat (le_u16 [l0, l1]) in if length blob < n then Err (Io UnexpectedEof)
    else Ok (MComponent [(''dwErrorCode'', MU32 (LE (le_u32 [e0, e1, e2, e3]))),
      (''dwStateTransition'', MU32 (LE (le_u32 [t0, t1, t2, t3]))),
      (''blob'', MComponent [(''wBlobType'', MU16 (LE (le_u16 [b0, b1]))),
        (''wBlobLen'', MDyn (MU16 (LE (le_u16 [l0, l1]))) (\<lambda>size. Ok (Size ''blobData'' (unat (view_u16 size))))),
        (''blobData'', MSlice (take n blob))])]))"
  by (simp add: licensing_error_message_def license_binary_blob_def on_buffer_def read_defs dyn_options_def
      read_local_def slice_read_def read_to_end_def read_exact_def Let_def)

lemma read_preamble:
  "read_msg preamble (t # f # s0 # s1 # rest) =
   (let n = unat (le_u16 [s0, s1]) in
    if f \<noteq> 3 then (Err (rdp_err InvalidConst), s0 # s1 # rest)
    else if n < 4 then (Panic ArithOverflow, rest)
    else if length rest < n - 4 then (Err (Io UnexpectedEof), [])
    else (Ok (MComponent [(''bMsgtype'', MU8 t), (''flag'', MCheck (MU8 3)),
      (''wMsgSize'', MDyn (MU16 (LE (le_u16 [s0, s1])))
         (\<lambda>size. bindo (subn (unat (view_u16 size)) 4) (\<lambda>n. Ok (Size ''message'' n)))),
      (''message'', MSlice (take (n - 4) rest))]), drop (n - 4) rest))"
  by (auto simp: preamble_def on_buffer_def read_defs dyn_options_def subn_def
      read_local_def slice_read_def read_to_end_def read_exact_def Let_def)

lemma read_error_short:
  assumes "length m < 12"
  shows "on_buffer (read_msg licensing_error_message) m = Err (Io UnexpectedEof)" "alert_verdict m = Err (Io UnexpectedEof)"
  using assms
  by (cases m rule: alert_verdict.cases; simp add: licensing_error_message_def license_binary_blob_def on_buffer_def
      read_defs rd_short)+

lemma alert_bytes:
  "bindo (on_buffer (read_msg licensing_error_message) m) (\<lambda>blob.
     bindo (bindo (field blob ''dwErrorCode'') cast_u32) (\<lambda>e. bindo (license_error_of e) (\<lambda>code.
         if code = StatusValidClient then
           bindo (bindo (field blob ''dwStateTransition'') cast_u32) (\<lambda>t. bindo (state_transition_of t) (\<lambda>transition.
           if transition = StNoTransition then Ok () else Err (rdp_err InvalidRespond)))
         else Err (rdp_err InvalidRespond)))) = alert_verdict m"
proof (cases "length m < 12")
  case False
  then obtain e0 e1 e2 e3 t0 t1 t2 t3 b0 b1 l0 l1 blob where
    "m = e0 # e1 # e2 # e3 # t0 # t1 # t2 # t3 # b0 # b1 # l0 # l1 # blob"
    by (cases m rule: alert_verdict.cases) auto
  then show ?thesis
    by (auto simp: read_error_message Let_def cast_u32_def intro!: bindo_cong)
qed (simp add: read_error_short)

lemma license_bytes:
  "fst (client_connect (t # f # s0 # s1 # rest)) =
   (let n = unat (le_u16 [s0, s1]) in
    if f \<noteq> 3 then Err (rdp_err InvalidConst)
    else if n < 4 then Panic ArithOverflow
    else if length rest < n - 4 then Err (Io UnexpectedEof)
    else license_verdict t (take (n - 4) rest))"
  using alert_bytes [of "take (unat (le_u16 [s0, s1]) - 4) rest"]
  by (cases "on_buffer (read_msg licensing_error_message) (take (unat (le_u16 [s0, s1]) - 4) rest)")
    (auto simp: client_connect_def read_preamble Let_def bindp_def parse_payload_def cast_u8_def cast_slice_def
     license_type_of_def license_verdict_def liftp_def retp_def)

subsection \<open>Properties\<close>

text \<open>
  C26. Every license message of at least four bytes is classified by its version, its size and
  its verdict: only a new license, or an alert that says "valid client, no transition", lets
  the client through; a size field below four makes it panic.
\<close>

theorem license_classified:
  "fst (client_connect (t # f # s0 # s1 # rest)) =
   (let n = unat (le_u16 [s0, s1]) in
    if f \<noteq> 3 then Err (rdp_err InvalidConst)
    else if n < 4 then Panic ArithOverflow
    else if length rest < n - 4 then Err (Io UnexpectedEof)
    else license_verdict t (take (n - 4) rest))"
  by (rule license_bytes)

end
