(* ===== verification/Mcs_Session.thy ===== *)
theory Mcs_Session imports Mcs begin

section \<open>A joined MCS session\<close>

text \<open>
  What the layers above MCS rely on once the connection has been established: the session
  (user id, channels, server data) no longer changes, a message written to the global
  channel is one data request, and the server's data indications on that channel are read
  one by one. This is the duplex contract, interpreted here on the operations of
  \<^verbatim>\<open>src/src/core/mcs.rs\<close>; the requests of the client and the indications of the server are
  framed differently.
\<close>

type_synonym mcs_session = "u16 option \<times> (string \<times> u16) list \<times> server_data option"

type_synonym id_order = "(string \<times> u16) list \<Rightarrow> (string \<times> u16) list"

definition session_ok :: "id_order \<Rightarrow> u16 \<Rightarrow> mcs_session \<Rightarrow> bool" where
  "session_ok iter u sess = (case sess of (uid, ids, sd) \<Rightarrow> uid = Some u \<and> 1001 \<le> u \<and>
     map_of ids ''global'' = Some 1003 \<and> distinct (map snd ids) \<and> set (iter ids) = set ids)"

definition joined :: "id_order \<Rightarrow> u16 \<Rightarrow> mcs_session \<Rightarrow> mcs_client \<Rightarrow> u8 list \<Rightarrow> bool" where
  "joined iter u sess c q \<longleftrightarrow> conversation (m_x224 c) q \<and> mcs_session c = sess \<and> session_ok iter u sess"

definition global_request :: "u16 \<Rightarrow> u8 list \<Rightarrow> u8 list" where
  "global_request u bs = data_frame (data_request (u - 1001) 1003 bs)"

definition global_indication :: "u8 \<Rightarrow> u16 \<Rightarrow> u8 \<Rightarrow> u8 list \<Rightarrow> u8 list" where
  "global_indication h i prio bs = data_frame (data_indication h i 1003 prio bs)"

definition indication_ok :: "u8 \<Rightarrow> u16 \<Rightarrow> bool" where
  "indication_ok h i \<longleftrightarrow> drop_bit 2 h = 26 \<and> unat i + 1001 < 65536"

lemma joined_write:
  assumes "joined iter u sess c q" "write_msg m = Ok bs" "length bs < 0x8000"
  shows "\<exists>c'. mcs_write ''global'' m c = (Ok (), c') \<and> joined iter u sess c' q \<and> mcs_sent c' = mcs_sent c @ global_request u bs"
proof -
  note c = assms(1) [unfolded joined_def session_ok_def mcs_session_def]
  let ?M = "MTrame [MU8 (mcs_pdu_header (Some SendDataRequest) None), MU16 (BE (u - 1001)), MU16 (BE 1003), MU8 0x70,
       write_length (of_nat (length bs)), m]"
  have w: "write_msg ?M = Ok (data_request (u - 1001) 1003 bs)"
    using assms(2) by (simp add: write_length_bytes u8_write_def u16_write_def mcs_pdu_header_def data_request_def)
  have l: "length (data_request (u - 1001) 1003 bs) + 7 < 65536"
    using assms(3) by (simp add: data_request_def)
  have cv: "conversation (m_x224 c) q" using c by auto
  obtain x' where x': "x224_write ?M (m_x224 c) = (Ok (), x')" "conversation x' q"
    "sent (x_transport x') = sent (x_transport (m_x224 c)) @ data_frame (data_request (u - 1001) 1003 bs)"
    using x224_client.send_step [OF cv w l] by blast
  have "mcs_write ''global'' m c = (Ok (), c\<lparr>m_x224 := x'\<rparr>)"
    using c x'(1) msg_length_written [OF assms(2)]
    by (auto simp: mcs_write_def getp_def bindp_def liftp_def unwrap_option_def subw_def map_index_def zoom_def
        simp del: write_msg.simps)
  then show ?thesis
    using x' assms(1) by (auto simp: joined_def mcs_session_def global_request_def)
qed

lemma joined_read:
  assumes "joined iter u sess c (global_indication h i prio bs @ q)" "indication_ok h i" "length bs < 0x8000"
  shows "\<exists>c'. mcs_read iter c = (Ok (''global'', PRaw bs), c') \<and> joined iter u sess c' q \<and> mcs_sent c' = mcs_sent c"
proof -
  note c = assms(1) [unfolded joined_def session_ok_def mcs_session_def]
  have g: "(''global'', 1003) \<in> set (m_channel_ids c)" using c by (auto dest: map_of_SomeD)
  let ?p = "data_indication h i 1003 prio bs"
  have "length ?p + 7 < 65536" using assms(3) by (simp add: data_indication_def)
  then obtain x' where x': "x224_read (m_x224 c) = (Ok (PRaw ?p), x')" "conversation x' q"
    "sent (x_transport x') = sent (x_transport (m_x224 c))"
    using x224_client.recv_step [of "m_x224 c" ?p q] c by (auto simp: global_indication_def)
  have head: "mcs_header ?p = (Ok 1003, prio # per_len (length bs) @ bs)"
    using assms(2) by (simp add: mcs_header_def data_indication_def u16_be_def u8_read_def bindp_def read_integer_16_bytes
        be_pair be_u16_def [of "[_, numeral _]"] addw_def indication_ok_def)
  have tail: "bindp read_enumerates (\<lambda>_. read_length) (prio # per_len (length bs) @ bs) = (Ok (of_nat (length bs)), bs)"
    using per_len_read [OF assms(3), of bs] by (simp add: read_enumerates_def u8_read_def bindp_def)
  have f: "find (\<lambda>x. snd x = 1003) (iter (m_channel_ids c)) = Some (''global'', 1003)"
    using find_unique [of "m_channel_ids c"] c g by auto
  have "mcs_read iter c = (Ok (''global'', PRaw bs), c\<lparr>m_x224 := x'\<rparr>)"
    using x'(1) f cursor_simps(1) [of mcs_header ?p, OF head]
      cursor_simps(1) [of "bindp read_enumerates (\<lambda>_. read_length)", OF tail]
    by (simp add: mcs_read_def zoom_def bindp_def [of "\<lambda>s. _ s"] bindp_def [of "zoom _ _ _"] bindp_def [of "getp _"]
        bindp_def [of "liftp _"] liftp_def getp_def retp_def)
  then show ?thesis using x' assms(1) by (auto simp: joined_def mcs_session_def)
qed

text \<open>The payload of the next message, whatever its channel.\<close>

definition mcs_next :: "id_order \<Rightarrow> (mcs_client, payload) prog" where
  "mcs_next iter = bindp (mcs_read iter) (\<lambda>(name, p). retp p)"

interpretation mcs_global: duplex "mcs_write ''global''" "mcs_next iter"
  "\<lambda>c q. joined iter u sess c q \<and> indication_ok h i" mcs_sent "global_request u" "global_indication h i prio"
  "\<lambda>bs. length bs < 0x8000" for iter u sess h i prio
proof
  show "\<exists>c'. mcs_write ''global'' m c = (Ok (), c') \<and> (joined iter u sess c' q \<and> indication_ok h i)
      \<and> mcs_sent c' = mcs_sent c @ global_request u bs"
    if "joined iter u sess c q \<and> indication_ok h i" "write_msg m = Ok bs" "length bs < 0x8000" for c q m bs
    using that joined_write by blast
  show "\<exists>c'. mcs_next iter c = (Ok (PRaw bs), c') \<and> (joined iter u sess c' q \<and> indication_ok h i) \<and> mcs_sent c' = mcs_sent c"
    if a: "joined iter u sess c (global_indication h i prio bs @ q) \<and> indication_ok h i" and l: "length bs < 0x8000" for c bs q
    using joined_read [of iter u sess c h i prio bs q] a l by (auto simp: mcs_next_def bindp_def retp_def)
qed

end
