(* ===== verification/Sec.thy ===== *)
theory Sec imports Mcs_Session License begin

section \<open>The security layer\<close>

text \<open>
  \<^verbatim>\<open>src/src/core/sec.rs\<close>: the information packet with the credentials and the license
  exchange that follows it, both on the global channel of a joined MCS session.
\<close>

subsection \<open>Messages\<close>

datatype security_flag =
    SecExchangePkt | SecTransportReq | RdpSecTransportRsp | SecEncrypt | SecResetSeqno | SecIgnoreSeqno
  | SecInfoPkt | SecLicensePkt | SecLicenseEncryptCs | SecRedirectionPkt | SecSecureChecksum
  | SecAutodetectReq | SecAutodetectRsp | SecHeartbeat | SecFlagshiValid

fun security_flag_code :: "security_flag \<Rightarrow> u16" where
  "security_flag_code SecExchangePkt = 0x0001" | "security_flag_code SecTransportReq = 0x0002"
| "security_flag_code RdpSecTransportRsp = 0x0004" | "security_flag_code SecEncrypt = 0x0008"
| "security_flag_code SecResetSeqno = 0x0010" | "security_flag_code SecIgnoreSeqno = 0x0020"
| "security_flag_code SecInfoPkt = 0x0040" | "security_flag_code SecLicensePkt = 0x0080"
| "security_flag_code SecLicenseEncryptCs = 0x0200" | "security_flag_code SecRedirectionPkt = 0x0400"
| "security_flag_code SecSecureChecksum = 0x0800" | "security_flag_code SecAutodetectReq = 0x1000"
| "security_flag_code SecAutodetectRsp = 0x2000" | "security_flag_code SecHeartbeat = 0x4000"
| "security_flag_code SecFlagshiValid = 0x8000"

datatype info_flag =
    InfoMouse | InfoDisablectrlaltdel | InfoAutologon | InfoUnicode | InfoMaximizeshell | InfoLogonnotify
  | InfoCompression | InfoEnablewindowskey | InfoRemoteconsoleaudio | InfoForceEncryptedCsPdu | InfoRail
  | InfoLogonerrors | InfoMouseHasWheel | InfoPasswordIsScPin | InfoNoaudioplayback | InfoUsingSavedCreds
  | InfoAudiocapture | InfoVideoDisable | InfoCompressionTypeMask

fun info_flag_code :: "info_flag \<Rightarrow> u32" where
  "info_flag_code InfoMouse = 0x00000001" | "info_flag_code InfoDisablectrlaltdel = 0x00000002"
| "info_flag_code InfoAutologon = 0x00000008" | "info_flag_code InfoUnicode = 0x00000010"
| "info_flag_code InfoMaximizeshell = 0x00000020" | "info_flag_code InfoLogonnotify = 0x00000040"
| "info_flag_code InfoCompression = 0x00000080" | "info_flag_code InfoEnablewindowskey = 0x00000100"
| "info_flag_code InfoRemoteconsoleaudio = 0x00002000" | "info_flag_code InfoForceEncryptedCsPdu = 0x00004000"
| "info_flag_code InfoRail = 0x00008000" | "info_flag_code InfoLogonerrors = 0x00010000"
| "info_flag_code InfoMouseHasWheel = 0x00020000" | "info_flag_code InfoPasswordIsScPin = 0x00040000"
| "info_flag_code InfoNoaudioplayback = 0x00080000" | "info_flag_code InfoUsingSavedCreds = 0x00100000"
| "info_flag_code InfoAudiocapture = 0x00200000" | "info_flag_code InfoVideoDisable = 0x00400000"
| "info_flag_code InfoCompressionTypeMask = 0x00001E00"

datatype af_inet = AfInet | AfInet6

fun af_inet_code :: "af_inet \<Rightarrow> u16" where
  "af_inet_code AfInet = 2" | "af_inet_code AfInet6 = 0x17"

definition rdp_extended_infos :: message where
  "rdp_extended_infos = MComponent [
     (''clientAddressFamily'', MU16 (LE (af_inet_code AfInet))),
     (''cbClientAddress'', MDyn (MU16 (LE 0)) (\<lambda>x. Ok (Size ''clientAddress'' (unat (view_u16 x) + 2)))),
     (''clientAddress'', MSlice [0, 0]),
     (''cbClientDir'', MU16 (LE 0)),
     (''clientDir'', MSlice [0, 0]),
     (''clientTimeZone'', MSlice (replicate 172 0)),
     (''clientSessionId'', MU32 (LE 0)),
     (''performanceFlags'', MU32 (LE 0))]"

definition rdp_infos :: "bool \<Rightarrow> rstring \<Rightarrow> rstring \<Rightarrow> rstring \<Rightarrow> bool \<Rightarrow> message" where
  "rdp_infos is_extended_info domain username password auto_logon = (let
     domain_format = to_unicode domain @ [0, 0];
     username_format = to_unicode username @ [0, 0];
     password_format = to_unicode password @ [0, 0] in MComponent [
     (''codePage'', MU32 (LE 0)),
     (''flag'', MU32 (LE (info_flag_code InfoMouse OR info_flag_code InfoUnicode OR info_flag_code InfoLogonnotify
        OR info_flag_code InfoLogonerrors OR info_flag_code InfoDisablectrlaltdel OR info_flag_code InfoEnablewindowskey
        OR (if auto_logon then info_flag_code InfoAutologon else 0)))),
     (''cbDomain'', MU16 (LE (of_nat (length domain_format - 2)))),
     (''cbUserName'', MU16 (LE (of_nat (length username_format - 2)))),
     (''cbPassword'', MU16 (LE (of_nat (length password_format - 2)))),
     (''cbAlternateShell'', MU16 (LE 0)),
     (''cbWorkingDir'', MU16 (LE 0)),
     (''domain'', MSlice domain_format),
     (''userName'', MSlice username_format),
     (''password'', MSlice password_format),
     (''alternateShell'', MSlice [0, 0]),
     (''workingDir'', MSlice [0, 0]),
     (''extendedInfos'', if is_extended_info then rdp_extended_infos else MComponent [])])"

definition security_header :: message where
  "security_header = MComponent [(''securityFlag'', MU16 (LE 0)), (''securityFlagHi'', MU16 (LE 0))]"

subsection \<open>The exchange\<close>

definition sec_license :: "(u8 list, unit) prog" where
  "sec_license = bindp (read_msg security_header) (\<lambda>header.
     bindp (liftp (bindo (field header ''securityFlag'') cast_u16)) (\<lambda>flag.
     if flag AND security_flag_code SecLicensePkt = 0 then failp InvalidData else client_connect))"

definition sec_connect :: "id_order \<Rightarrow> rstring \<Rightarrow> rstring \<Rightarrow> rstring \<Rightarrow> bool \<Rightarrow> (mcs_client, unit) prog" where
  "sec_connect iter domain username password auto_logon =
     bindp (getp is_rdp_version_5_plus) (\<lambda>v. bindp (liftp v) (\<lambda>is_extended_info.
     bindp (mcs_write ''global'' (MTrame [MU16 (LE (security_flag_code SecInfoPkt)), MU16 (LE 0),
       rdp_infos is_extended_info domain username password auto_logon])) (\<lambda>_.
     bindp (mcs_read iter) (\<lambda>(channel_name, payload).
     bindp (liftp (raw_payload payload)) (\<lambda>stream. liftp (on_buffer sec_license stream))))))"

subsection \<open>The bytes of the information packet\<close>

definition info_packet :: "bool \<Rightarrow> rstring \<Rightarrow> rstring \<Rightarrow> rstring \<Rightarrow> bool \<Rightarrow> u8 list" where
  "info_packet ext d u p auto = (let text = (\<lambda>s. u16_le (of_nat (length (to_unicode s)))) in
     u16_le 0x40 @ u16_le 0 @ u32_le 0 @ u32_le (if auto then 0x1015B else 0x10153) @
     text d @ text u @ text p @ u16_le 0 @ u16_le 0 @
     to_unicode d @ [0, 0] @ to_unicode u @ [0, 0] @ to_unicode p @ [0, 0] @ [0, 0] @ [0, 0] @
     (if ext then u16_le 2 @ u16_le 0 @ [0, 0] @ u16_le 0 @ [0, 0] @ replicate 172 0 @ u32_le 0 @ u32_le 0 else []))"

lemma info_packet_written:
  "write_msg (MTrame [MU16 (LE (security_flag_code SecInfoPkt)), MU16 (LE 0), rdp_infos ext d u p auto]) = Ok (info_packet ext d u p auto)"
  by (simp add: rdp_infos_def rdp_extended_infos_def info_packet_def Let_def u16_write_def u32_write_def slice_write_def
      dyn_options_def add_filter_def)

lemma sec_license_bytes:
  "on_buffer sec_license ([f0, f1, g0, g1] @ body) =
   (if le_u16 [f0, f1] AND 0x80 = 0 then Err (rdp_err InvalidData) else fst (client_connect body))"
  by (simp add: sec_license_def on_buffer_def security_header_def read_defs cast_u16_def)

lemma sec_connect_run:
  assumes "joined iter u sess c (global_indication h i prio lic @ q)" "indication_ok h i" "length lic < 0x8000"
    and "snd (snd sess) = Some sd" "length (info_packet (sd_rdp_version sd = RdpVersion5plus) d n p auto) < 0x8000"
  shows "\<exists>c'. sec_connect iter d n p auto c = (on_buffer sec_license lic, c') \<and> joined iter u sess c' q \<and>
     mcs_sent c' = mcs_sent c @ global_request u (info_packet (sd_rdp_version sd = RdpVersion5plus) d n p auto)"
proof -
  let ?m = "MTrame [MU16 (LE (security_flag_code SecInfoPkt)), MU16 (LE 0), rdp_infos (sd_rdp_version sd = RdpVersion5plus) d n p auto]"
  have v: "is_rdp_version_5_plus c = Ok (sd_rdp_version sd = RdpVersion5plus)"
    using assms(1,4) by (auto simp: joined_def mcs_session_def is_rdp_version_5_plus_def unwrap_option_def)
  obtain c1 where c1: "mcs_write ''global'' ?m c = (Ok (), c1)" "joined iter u sess c1 (global_indication h i prio lic @ q)"
    "mcs_sent c1 = mcs_sent c @ global_request u (info_packet (sd_rdp_version sd = RdpVersion5plus) d n p auto)"
    using joined_write [OF assms(1) info_packet_written assms(5)] by blast
  obtain c2 where c2: "mcs_read iter c1 = (Ok (''global'', PRaw lic), c2)" "joined iter u sess c2 q" "mcs_sent c2 = mcs_sent c1"
    using joined_read [OF c1(2) assms(2,3)] by blast
  show ?thesis using v c1(1,3) c2
    by (simp add: sec_connect_def bindp_def getp_def liftp_def raw_payload_def)
qed

subsection \<open>Properties\<close>

text \<open>
  C27. On a joined session the security layer sends one information packet, with the
  extended part exactly when the server's version asks for it, and then lets the license
  message that follows decide: without the license flag it is refused, otherwise its
  verdict is the result. Nothing else of the stream is consumed.
\<close>

theorem sec_connect_exchange:
  assumes "joined iter u sess c (global_indication h i prio ([f0, f1, g0, g1] @ body) @ q)" "indication_ok h i"
    and "length body + 4 < 0x8000" "snd (snd sess) = Some sd"
    and "length (info_packet (sd_rdp_version sd = RdpVersion5plus) d n p auto) < 0x8000"
  shows "\<exists>c'. sec_connect iter d n p auto c =
      (if le_u16 [f0, f1] AND 0x80 = 0 then Err (rdp_err InvalidData) else fst (client_connect body), c')
     \<and> joined iter u sess c' q
     \<and> mcs_sent c' = mcs_sent c @ global_request u (info_packet (sd_rdp_version sd = RdpVersion5plus) d n p auto)"
  using sec_connect_run [OF assms(1,2) _ assms(4,5)] assms(3) by (simp add: sec_license_bytes del: append_Cons)

definition sample_session :: mcs_session where
  "sample_session = (Some 1007, [(''global'', 1003), (''user'', 1007)],
     Some \<lparr>sd_channel_ids = [], sd_rdp_version = RdpVersion\<rparr>)"

definition sample_client :: "u8 list \<Rightarrow> mcs_client" where
  "sample_client q = \<lparr>m_x224 = \<lparr>x_transport = Raw \<lparr>rx = [Data q], tx = [], writes = []\<rparr>, x_selected = ProtocolSSL\<rparr>,
     m_server_data = snd (snd sample_session), m_user_id = fst sample_session, m_channel_ids = fst (snd sample_session)\<rparr>"

lemma sample_joined: "q \<noteq> [] \<Longrightarrow> joined rev 1007 sample_session (sample_client q) q"
  by (auto simp: joined_def session_ok_def sample_session_def sample_client_def conversation_def mcs_session_def
      healthy_def sound_rx_def pending_def)

theorem sec_connect_exchange_witness:
  "\<exists>c'. sec_connect rev [100] [117] [112] True
      (sample_client (global_indication 0x68 6 0x70 ([0x80, 0, 0, 0] @ [3, 3, 4, 0]))) = (Ok (), c')
     \<and> joined rev 1007 sample_session c' []"
proof -
  let ?q = "global_indication 0x68 6 0x70 ([0x80, 0, 0, 0] @ [3, 3, 4, 0])"
  have "?q \<noteq> []" by (simp add: global_indication_def slow_frame_def)
  then have "joined rev 1007 sample_session (sample_client ?q) (?q @ [])" using sample_joined by simp
  from sec_connect_exchange [OF this, of "\<lparr>sd_channel_ids = [], sd_rdp_version = RdpVersion\<rparr>" "[100]" "[117]" "[112]" True]
  show ?thesis
    by (auto simp: indication_ok_def sample_session_def info_packet_def to_unicode_def encode_utf16_def license_bytes
        license_verdict_def le_u16_def)
qed

end
