(* ===== verification/Capability.thy ===== *)
theory Capability imports X224 Gcc begin

section \<open>Capabilities\<close>

text \<open>
  \<^verbatim>\<open>src/src/core/capability.rs\<close>: the capability sets that both sides announce. A capability is
  a type and a component; on the wire it is its type, its length and its bytes.
\<close>

primrec unwrap_or :: "'a option \<Rightarrow> 'a \<Rightarrow> 'a" where
  "unwrap_or None d = d"
| "unwrap_or (Some a) d = a"

subsection \<open>Types and flags\<close>

datatype capability_set_type =
    CapstypeGeneral | CapstypeBitmap | CapstypeOrder | CapstypeBitmapcache
  | CapstypeControl | CapstypeActivation | CapstypePointer | CapstypeShare
  | CapstypeColorcache | CapstypeSound | CapstypeInput | CapstypeFont
  | CapstypeBrush | CapstypeGlyphcache | CapstypeOffscreencache | CapstypeBitmapcacheHostsupport
  | CapstypeBitmapcacheRev2 | CapstypeVirtualchannel | CapstypeDrawninegridcache | CapstypeDrawgdiplus
  | CapstypeRail | CapstypeWindow | CapsettypeCompdesk | CapsettypeMultifragmentupdate
  | CapsettypeLargePointer | CapsettypeSurfaceCommands | CapsettypeBitmapCodecs | CapssettypeFrameAcknowledge

fun capability_set_type_code :: "capability_set_type \<Rightarrow> u16" where
  "capability_set_type_code CapstypeGeneral = 0x1" | "capability_set_type_code CapstypeBitmap = 0x2"
| "capability_set_type_code CapstypeOrder = 0x3" | "capability_set_type_code CapstypeBitmapcache = 0x4"
| "capability_set_type_code CapstypeControl = 0x5" | "capability_set_type_code CapstypeActivation = 0x7"
| "capability_set_type_code CapstypePointer = 0x8" | "capability_set_type_code CapstypeShare = 0x9"
| "capability_set_type_code CapstypeColorcache = 0xA" | "capability_set_type_code CapstypeSound = 0xC"
| "capability_set_type_code CapstypeInput = 0xD" | "capability_set_type_code CapstypeFont = 0xE"
| "capability_set_type_code CapstypeBrush = 0xF" | "capability_set_type_code CapstypeGlyphcache = 0x10"
| "capability_set_type_code CapstypeOffscreencache = 0x11" | "capability_set_type_code CapstypeBitmapcacheHostsupport = 0x12"
| "capability_set_type_code CapstypeBitmapcacheRev2 = 0x13" | "capability_set_type_code CapstypeVirtualchannel = 0x14"
| "capability_set_type_code CapstypeDrawninegridcache = 0x15" | "capability_set_type_code CapstypeDrawgdiplus = 0x16"
| "capability_set_type_code CapstypeRail = 0x17" | "capability_set_type_code CapstypeWindow = 0x18"
| "capability_set_type_code CapsettypeCompdesk = 0x19" | "capability_set_type_code CapsettypeMultifragmentupdate = 0x1A"
| "capability_set_type_code CapsettypeLargePointer = 0x1B" | "capability_set_type_code CapsettypeSurfaceCommands = 0x1C"
| "capability_set_type_code CapsettypeBitmapCodecs = 0x1D" | "capability_set_type_code CapssettypeFrameAcknowledge = 0x1E"

definition capability_set_types :: "capability_set_type list" where
  "capability_set_types = [CapstypeGeneral, CapstypeBitmap, CapstypeOrder, CapstypeBitmapcache,
     CapstypeControl, CapstypeActivation, CapstypePointer, CapstypeShare, CapstypeColorcache,
     CapstypeSound, CapstypeInput, CapstypeFont, CapstypeBrush, CapstypeGlyphcache, CapstypeOffscreencache,
     CapstypeBitmapcacheHostsupport, CapstypeBitmapcacheRev2, CapstypeVirtualchannel, CapstypeDrawninegridcache, CapstypeDrawgdiplus,
     CapstypeRail, CapstypeWindow, CapsettypeCompdesk, CapsettypeMultifragmentupdate, CapsettypeLargePointer,
     CapsettypeSurfaceCommands, CapsettypeBitmapCodecs, CapssettypeFrameAcknowledge]"

definition capability_set_type_of :: "u16 \<Rightarrow> capability_set_type outcome" where
  "capability_set_type_of c = (case find (\<lambda>t. capability_set_type_code t = c) capability_set_types of
       Some t \<Rightarrow> Ok t | None \<Rightarrow> Err (rdp_err InvalidCast))"

record capability =
  cap_type :: capability_set_type
  cap_message :: message

datatype major_type =
    OsmajortypeUnspecified | OsmajortypeWindows | OsmajortypeOs2 | OsmajortypeMacintosh
  | OsmajortypeUnix | OsmajortypeIos | OsmajortypeOsx | OsmajortypeAndroid

fun major_type_code :: "major_type \<Rightarrow> u16" where
  "major_type_code OsmajortypeUnspecified = 0" | "major_type_code OsmajortypeWindows = 1" | "major_type_code OsmajortypeOs2 = 2"
| "major_type_code OsmajortypeMacintosh = 3" | "major_type_code OsmajortypeUnix = 4" | "major_type_code OsmajortypeIos = 5"
| "major_type_code OsmajortypeOsx = 6" | "major_type_code OsmajortypeAndroid = 7"

datatype minor_type =
    OsminortypeUnspecified | OsminortypeWindows31x | OsminortypeWindows95 | OsminortypeWindowsNt
  | OsminortypeOs2V21 | OsminortypePowerPc | OsminortypeMacintosh | OsminortypeNativeXserver
  | OsminortypePseudoXserver | OsminortypeWindowsRt

fun minor_type_code :: "minor_type \<Rightarrow> u16" where
  "minor_type_code OsminortypeUnspecified = 0" | "minor_type_code OsminortypeWindows31x = 1" | "minor_type_code OsminortypeWindows95 = 2"
| "minor_type_code OsminortypeWindowsNt = 3" | "minor_type_code OsminortypeOs2V21 = 4" | "minor_type_code OsminortypePowerPc = 5"
| "minor_type_code OsminortypeMacintosh = 6" | "minor_type_code OsminortypeNativeXserver = 7" | "minor_type_code OsminortypePseudoXserver = 8"
| "minor_type_code OsminortypeWindowsRt = 9"

datatype general_extra_flag =
    FastpathOutputSupported | NoBitmapCompressionHdr | LongCredentialsSupported | AutoreconnectSupported
  | EncSaltedChecksum

fun general_extra_flag_code :: "general_extra_flag \<Rightarrow> u16" where
  "general_extra_flag_code FastpathOutputSupported = 0x0001" | "general_extra_flag_code NoBitmapCompressionHdr = 0x0400" | "general_extra_flag_code LongCredentialsSupported = 0x0004"
| "general_extra_flag_code AutoreconnectSupported = 0x0008" | "general_extra_flag_code EncSaltedChecksum = 0x0010"

subsection \<open>The capabilities of the client\<close>

definition ts_general_capability_set :: "u16 option \<Rightarrow> capability" where
  "ts_general_capability_set extra_flags = \<lparr>cap_type = CapstypeGeneral, cap_message = MComponent [
     (''osMajorType'', MU16 (LE (major_type_code OsmajortypeWindows))),
     (''osMinorType'', MU16 (LE (minor_type_code OsminortypeWindowsNt))),
     (''protocolVersion'', MCheck (MU16 (LE 0x0200))),
     (''pad2octetsA'', MU16 (LE 0)),
     (''generalCompressionTypes'', MCheck (MU16 (LE 0))),
     (''extraFlags'', MU16 (LE (unwrap_or extra_flags 0))),
     (''updateCapabilityFlag'', MCheck (MU16 (LE 0))),
     (''remoteUnshareFlag'', MCheck (MU16 (LE 0))),
     (''generalCompressionLevel'', MCheck (MU16 (LE 0))),
     (''refreshRectSupport'', MU8 0),
     (''suppressOutputSupport'', MU8 0)]\<rparr>"

definition ts_bitmap_capability_set :: "u16 option \<Rightarrow> u16 option \<Rightarrow> u16 option \<Rightarrow> capability" where
  "ts_bitmap_capability_set preferred_bits_per_pixel desktop_width desktop_height = \<lparr>cap_type = CapstypeBitmap, cap_message = MComponent [
     (''preferredBitsPerPixel'', MU16 (LE (unwrap_or preferred_bits_per_pixel 0))),
     (''receive1BitPerPixel'', MCheck (MU16 (LE 0x0001))),
     (''receive4BitsPerPixel'', MCheck (MU16 (LE 0x0001))),
     (''receive8BitsPerPixel'', MCheck (MU16 (LE 0x0001))),
     (''desktopWidth'', MU16 (LE (unwrap_or desktop_width 0))),
     (''desktopHeight'', MU16 (LE (unwrap_or desktop_height 0))),
     (''pad2octets'', MU16 (LE 0)),
     (''desktopResizeFlag'', MU16 (LE 0)),
     (''bitmapCompressionFlag'', MCheck (MU16 (LE 0x0001))),
     (''highColorFlags'', MCheck (MU8 0)),
     (''drawingFlags'', MU8 0),
     (''multipleRectangleSupport'', MCheck (MU16 (LE 0x0001))),
     (''pad2octetsB'', MU16 (LE 0))]\<rparr>"

datatype order_flag =
    NEGOTIATEORDERSUPPORT | ZEROBOUNDSDELTASSUPPORT | COLORINDEXSUPPORT | SOLIDPATTERNBRUSHONLY
  | OrderflagsExtraFlags

fun order_flag_code :: "order_flag \<Rightarrow> u16" where
  "order_flag_code NEGOTIATEORDERSUPPORT = 0x0002" | "order_flag_code ZEROBOUNDSDELTASSUPPORT = 0x0008" | "order_flag_code COLORINDEXSUPPORT = 0x0020"
| "order_flag_code SOLIDPATTERNBRUSHONLY = 0x0040" | "order_flag_code OrderflagsExtraFlags = 0x0080"

definition ts_order_capability_set :: "u16 option \<Rightarrow> capability" where
  "ts_order_capability_set order_flags = \<lparr>cap_type = CapstypeOrder, cap_message = MComponent [
     (''terminalDescriptor'', MSlice (replicate 16 0)),
     (''pad4octetsA'', MU32 (LE 0)),
     (''desktopSaveXGranularity'', MU16 (LE 1)),
     (''desktopSaveYGranularity'', MU16 (LE 20)),
     (''pad2octetsA'', MU16 (LE 0)),
     (''maximumOrderLevel'', MU16 (LE 1)),
     (''numberFonts'', MU16 (LE 0)),
     (''orderFlags'', MU16 (LE (unwrap_or order_flags (order_flag_code NEGOTIATEORDERSUPPORT)))),
     (''orderSupport'', MSlice (replicate 32 0)),
     (''textFlags'', MU16 (LE 0)),
     (''orderSupportExFlags'', MU16 (LE 0)),
     (''pad4octetsB'', MU32 (LE 0)),
     (''desktopSaveSize'', MU32 (LE (480 * 480))),
     (''pad2octetsC'', MU16 (LE 0)),
     (''pad2octetsD'', MU16 (LE 0)),
     (''textANSICodePage'', MU16 (LE 0)),
     (''pad2octetsE'', MU16 (LE 0))]\<rparr>"

definition ts_bitmap_cache_capability_set :: capability where
  "ts_bitmap_cache_capability_set = \<lparr>cap_type = CapstypeBitmapcache, cap_message = MComponent [
     (''pad1'', MU32 (LE 0)),
     (''pad2'', MU32 (LE 0)),
     (''pad3'', MU32 (LE 0)),
     (''pad4'', MU32 (LE 0)),
     (''pad5'', MU32 (LE 0)),
     (''pad6'', MU32 (LE 0)),
     (''cache0Entries'', MU16 (LE 0)),
     (''cache0MaximumCellSize'', MU16 (LE 0)),
     (''cache1Entries'', MU16 (LE 0)),
     (''cache1MaximumCellSize'', MU16 (LE 0)),
     (''cache2Entries'', MU16 (LE 0)),
     (''cache2MaximumCellSize'', MU16 (LE 0))]\<rparr>"

definition ts_pointer_capability_set :: capability where
  "ts_pointer_capability_set = \<lparr>cap_type = CapstypePointer, cap_message = MComponent [
     (''colorPointerFlag'', MU16 (LE 0)),
     (''colorPointerCacheSize'', MU16 (LE 20))]\<rparr>"

datatype input_flag =
    InputFlagScancodes | InputFlagMousex | InputFlagFastpathInput | InputFlagUnicode
  | InputFlagFastpathInput2 | InputFlagUnused1 | InputFlagUnused2 | TsInputFlagMouseHwheel

fun input_flag_code :: "input_flag \<Rightarrow> u16" where
  "input_flag_code InputFlagScancodes = 0x0001" | "input_flag_code InputFlagMousex = 0x0004" | "input_flag_code InputFlagFastpathInput = 0x0008"
| "input_flag_code InputFlagUnicode = 0x0010" | "input_flag_code InputFlagFastpathInput2 = 0x0020" | "input_flag_code InputFlagUnused1 = 0x0040"
| "input_flag_code InputFlagUnused2 = 0x0080" | "input_flag_code TsInputFlagMouseHwheel = 0x0100"

definition ts_input_capability_set :: "u16 option \<Rightarrow> keyboard_layout option \<Rightarrow> capability" where
  "ts_input_capability_set input_flags keyboard_layout = \<lparr>cap_type = CapstypeInput, cap_message = MComponent [
     (''inputFlags'', MU16 (LE (unwrap_or input_flags 0))),
     (''pad2octetsA'', MU16 (LE 0)),
     (''keyboardLayout'', MU32 (LE (keyboard_layout_code (unwrap_or keyboard_layout French)))),
     (''keyboardType'', MU32 (LE (keyboard_type_code Ibm101102Keys))),
     (''keyboardSubType'', MU32 (LE 0)),
     (''keyboardFunctionKey'', MU32 (LE 12)),
     (''imeFileName'', MSlice (replicate 64 0))]\<rparr>"

definition ts_brush_capability_set :: capability where
  "ts_brush_capability_set = \<lparr>cap_type = CapstypeBrush, cap_message = MComponent [
     (''brushSupportLevel'', MU32 (LE 0))]\<rparr>"

definition cache_entry :: message where
  "cache_entry = MComponent [(''cacheEntries'', MU16 (LE 0)), (''cacheMaximumCellSize'', MU16 (LE 0))]"

definition ts_glyph_capability_set :: capability where
  "ts_glyph_capability_set = \<lparr>cap_type = CapstypeGlyphcache, cap_message = MComponent [
     (''glyphCache'', MTrame (replicate 10 cache_entry)),
     (''fragCache'', MU32 (LE 0)),
     (''glyphSupportLevel'', MU16 (LE 0)),
     (''pad2octets'', MU16 (LE 0))]\<rparr>"

definition ts_offscreen_capability_set :: capability where
  "ts_offscreen_capability_set = \<lparr>cap_type = CapstypeOffscreencache, cap_message = MComponent [
     (''offscreenSupportLevel'', MU32 (LE 0)),
     (''offscreenCacheSize'', MU16 (LE 0)),
     (''offscreenCacheEntries'', MU16 (LE 0))]\<rparr>"

definition ts_virtualchannel_capability_set :: capability where
  "ts_virtualchannel_capability_set = \<lparr>cap_type = CapstypeVirtualchannel, cap_message = MComponent [
     (''flags'', MU32 (LE 0)),
     (''VCChunkSize'', MOpt (Some (MU32 (LE 0))))]\<rparr>"

definition ts_sound_capability_set :: capability where
  "ts_sound_capability_set = \<lparr>cap_type = CapstypeSound, cap_message = MComponent [
     (''soundFlags'', MU16 (LE 0)),
     (''pad2octetsA'', MU16 (LE 0))]\<rparr>"

definition ts_multifragment_update_capability_ts :: capability where
  "ts_multifragment_update_capability_ts = \<lparr>cap_type = CapsettypeMultifragmentupdate, cap_message = MComponent [
     (''MaxRequestSize'', MU32 (LE 0))]\<rparr>"

subsection \<open>Capability sets\<close>

definition capability_set :: "capability option \<Rightarrow> message outcome" where
  "capability_set capability = (let c = unwrap_or capability \<lparr>cap_type = CapstypeGeneral, cap_message = MComponent []\<rparr> in
     bindo (msg_length (cap_message c)) (\<lambda>n. bindo (addw (of_nat n) 4) (\<lambda>len.
     bindo (to_vec (cap_message c)) (\<lambda>bs. Ok (MComponent [
       (''capabilitySetType'', MU16 (LE (capability_set_type_code (cap_type c)))),
       (''lengthCapability'', MDyn (MU16 (LE len))
          (\<lambda>v. bindo (subn (unat (view_u16 v)) 4) (\<lambda>n. Ok (Size ''capabilitySet'' n)))),
       (''capabilitySet'', MSlice bs)])))))"

text \<open>The template a capability of this type is parsed into.\<close>

definition capability_template :: "capability_set_type \<Rightarrow> capability outcome" where
  "capability_template t = (case t of
       CapstypeGeneral \<Rightarrow> Ok (ts_general_capability_set None)
     | CapstypeBitmap \<Rightarrow> Ok (ts_bitmap_capability_set None None None)
     | CapstypeOrder \<Rightarrow> Ok (ts_order_capability_set None)
     | CapstypeBitmapcache \<Rightarrow> Ok ts_bitmap_cache_capability_set
     | CapstypePointer \<Rightarrow> Ok ts_pointer_capability_set
     | CapstypeInput \<Rightarrow> Ok (ts_input_capability_set None None)
     | CapstypeBrush \<Rightarrow> Ok ts_brush_capability_set
     | CapstypeGlyphcache \<Rightarrow> Ok ts_glyph_capability_set
     | CapstypeOffscreencache \<Rightarrow> Ok ts_offscreen_capability_set
     | CapstypeVirtualchannel \<Rightarrow> Ok ts_virtualchannel_capability_set
     | CapstypeSound \<Rightarrow> Ok ts_sound_capability_set
     | CapsettypeMultifragmentupdate \<Rightarrow> Ok ts_multifragment_update_capability_ts
     | _ \<Rightarrow> Err (rdp_err Unknown))"

definition from_capability_set :: "message \<Rightarrow> capability outcome" where
  "from_capability_set cset = bindo (bindo (field cset ''capabilitySetType'') cast_u16) (\<lambda>c.
     bindo (capability_set_type_of c) (\<lambda>t. bindo (capability_template t) (\<lambda>capability.
     bindo (bindo (field cset ''capabilitySet'') cast_slice) (\<lambda>bs.
     bindo (on_buffer (read_msg (cap_message capability)) bs) (\<lambda>m. Ok (capability\<lparr>cap_message := m\<rparr>))))))"

subsection \<open>Reading a capability set\<close>

abbreviation set_length :: "dyn_view \<Rightarrow> message_option outcome" where
  "set_length \<equiv> \<lambda>v. bindo (subn (unat (view_u16 v)) 4) (\<lambda>n. Ok (Size ''capabilitySet'' n))"

definition raw_set :: "u16 \<Rightarrow> u16 \<Rightarrow> u8 list \<Rightarrow> message" where
  "raw_set t l bs = MComponent [(''capabilitySetType'', MU16 (LE t)), (''lengthCapability'', MDyn (MU16 (LE l)) set_length),
     (''capabilitySet'', MSlice bs)]"

lemma capability_set_None: "capability_set None = Ok (raw_set 1 4 [])"
  by (simp add: capability_set_def raw_set_def addw_def to_vec_def)

lemma capability_set_Some:
  assumes "write_msg (cap_message c) = Ok bs" "length bs + 4 < 65536"
  shows "capability_set (Some c) = Ok (raw_set (capability_set_type_code (cap_type c)) (of_nat (length bs) + 4) bs)"
  using assms by (simp add: capability_set_def raw_set_def msg_length_written addw_def to_vec_def unat_of_nat take_bit_eq_mod)

lemma read_raw_set:
  "read_msg (raw_set 1 4 []) (t0 # t1 # l0 # l1 # rest) =
   (let n = unat (le_u16 [l0, l1]) in
    if n < 4 then (Panic ArithOverflow, rest)
    else if length rest < n - 4 then (Err (Io UnexpectedEof), [])
    else (Ok (raw_set (le_u16 [t0, t1]) (le_u16 [l0, l1]) (take (n - 4) rest)), drop (n - 4) rest))"
  by (auto simp: raw_set_def on_buffer_def read_defs dyn_options_def subn_def
      read_local_def slice_read_def read_to_end_def read_exact_def Let_def)

lemma from_raw_set:
  "from_capability_set (raw_set t l bs) = bindo (capability_set_type_of t) (\<lambda>t. bindo (capability_template t) (\<lambda>c.
     bindo (on_buffer (read_msg (cap_message c)) bs) (\<lambda>m. Ok (c\<lparr>cap_message := m\<rparr>))))"
  by (simp add: from_capability_set_def raw_set_def cast_u16_def cast_slice_def)

lemma capability_set_type_of_code [simp]: "capability_set_type_of (capability_set_type_code t) = Ok t"
  by (cases t) (simp_all add: capability_set_type_of_def capability_set_types_def)

lemma capability_template_type: "capability_template t = Ok c \<Longrightarrow> cap_type c = t"
  by (cases t) (auto simp: capability_template_def ts_general_capability_set_def ts_bitmap_capability_set_def
     ts_order_capability_set_def ts_bitmap_cache_capability_set_def ts_pointer_capability_set_def
     ts_input_capability_set_def ts_brush_capability_set_def ts_glyph_capability_set_def
     ts_offscreen_capability_set_def ts_virtualchannel_capability_set_def ts_sound_capability_set_def
     ts_multifragment_update_capability_ts_def)

lemmas capability_defs = ts_general_capability_set_def ts_bitmap_capability_set_def
     ts_order_capability_set_def ts_bitmap_cache_capability_set_def ts_pointer_capability_set_def
     ts_input_capability_set_def ts_brush_capability_set_def ts_glyph_capability_set_def
     ts_offscreen_capability_set_def ts_virtualchannel_capability_set_def ts_sound_capability_set_def
     ts_multifragment_update_capability_ts_def cache_entry_def

lemma quiet_template: "capability_template t = Ok c \<Longrightarrow> quiet (cap_message c)"
  by (cases t) (auto simp: capability_template_def capability_defs)

lemma calm_from_capability_set: "calm (from_capability_set (raw_set t l bs))"
  unfolding from_raw_set
proof (intro calm_bindo)
  show "calm (capability_set_type_of t)" by (auto simp: capability_set_type_of_def split: option.split)
  show "calm (capability_template c)" for c by (cases c) (auto simp: capability_template_def)
  show "calm (on_buffer (read_msg (cap_message c)) bs)" if "capability_template k = Ok c" for k c
    using safe_outcome [OF safe_read_msg [OF quiet_template [OF that]], of bs]
    by (cases "fst (read_msg (cap_message c) bs)") (auto simp: on_buffer_def)
qed simp

subsection \<open>What is written is read back\<close>

definition restorable :: "capability \<Rightarrow> bool" where
  "restorable c \<longleftrightarrow> (\<exists>t. capability_template (cap_type c) = Ok t \<and>
     reads_as True (cap_message t) (cap_message c) (cap_message c))"

lemmas reads_intros = reads_as_reads_list_reads_elems_reads_fields.intros

lemma restore:
  assumes "restorable c" "write_msg (cap_message c) = Ok bs"
  shows "from_capability_set (raw_set (capability_set_type_code (cap_type c)) l bs) = Ok c"
proof -
  obtain t where t: "capability_template (cap_type c) = Ok t" "reads_as True (cap_message t) (cap_message c) (cap_message c)"
    using assms(1) by (auto simp: restorable_def)
  have "read_msg (cap_message t) bs = (Ok (cap_message c), [])"
    using read_written [OF t(2) assms(2), of "[]"] by simp
  then show ?thesis
    using t(1) capability_template_type [OF t(1)] by (simp add: from_raw_set on_buffer_def)
qed

lemma reads_static:
  "name \<notin> F \<Longrightarrow> S name = None \<Longrightarrow> reads_as (fin \<and> ts' = []) t m r \<Longrightarrow> options m = Ok NoOption \<Longrightarrow> options r = Ok NoOption
    \<Longrightarrow> reads_fields fin F S ts' ms' rs'
    \<Longrightarrow> reads_fields fin F S ((name, t) # ts') ((name, m) # ms') ((name, r) # rs')"
  by (rule rf_plain) (auto simp: add_filter_def add_size_def)

lemmas static_intros = ra_u8 ra_u16_le ra_u32_le ra_slice ra_trame ra_check ra_some ra_component
  rl_nil rl_cons rf_nil reads_static

lemma restorable_capabilities:
  "restorable (ts_general_capability_set x)" "restorable (ts_bitmap_capability_set b w h)"
  "restorable (ts_order_capability_set x)" "restorable ts_bitmap_cache_capability_set"
  "restorable ts_pointer_capability_set" "restorable ts_sound_capability_set"
  "restorable (ts_input_capability_set x k)" "restorable ts_brush_capability_set"
  "restorable ts_glyph_capability_set" "restorable ts_offscreen_capability_set"
  "restorable ts_virtualchannel_capability_set" "restorable ts_multifragment_update_capability_ts"
  by (simp add: restorable_def capability_template_def capability_defs val_eq_def numeral_eq_Suc;
     (intro static_intros; simp add: val_eq_def))+

subsection \<open>Properties\<close>

definition client_capability :: "capability \<Rightarrow> bool" where
  "client_capability c \<longleftrightarrow> (\<exists>x b w h k. c \<in> {ts_general_capability_set x, ts_bitmap_capability_set b w h,
     ts_order_capability_set x, ts_bitmap_cache_capability_set, ts_pointer_capability_set, ts_sound_capability_set,
     ts_input_capability_set x k, ts_brush_capability_set, ts_glyph_capability_set, ts_offscreen_capability_set,
     ts_virtualchannel_capability_set, ts_multifragment_update_capability_ts})"

lemma restorable_client: "client_capability c \<Longrightarrow> restorable c"
  unfolding client_capability_def using restorable_capabilities by blast

text \<open>
  C28. Every capability the client can build survives the wire: its set is written as type,
  length and bytes, the reader of sets takes exactly these bytes, and parsing the set gives
  the same capability back, with all its fields.
\<close>

theorem capability_round_trip:
  assumes "client_capability c" "write_msg (cap_message c) = Ok bs" "length bs + 4 < 65536"
    and "capability_set (Some c) = Ok s" "write_msg s = Ok cs" "capability_set None = Ok t"
  shows "\<exists>r. read_msg t (cs @ rest) = (Ok r, rest) \<and> from_capability_set r = Ok c \<and> length cs = length bs + 4"
proof -
  let ?l = "of_nat (length bs) + 4 :: u16"
  have u: "unat ?l = length bs + 4"
    using assms(3) by (simp add: unat_word_ariths unat_of_nat take_bit_eq_mod)
  have s: "s = raw_set (capability_set_type_code (cap_type c)) ?l bs"
    using assms(4) capability_set_Some [OF assms(2,3)] by simp
  have t: "t = raw_set 1 4 []" using assms(6) by (simp add: capability_set_None)
  have cs: "cs = u16_le (capability_set_type_code (cap_type c)) @ u16_le ?l @ bs"
    using assms(5) u by (simp add: s raw_set_def u16_write_def slice_write_def dyn_options_def add_filter_def)
  have l: "le_u16 [ucast w, ucast (drop_bit 8 w)] = w" for w
    using le_u16_u16_le [of w] by (simp add: u16_le_def)
  have "read_msg t (cs @ rest) = (Ok (raw_set (capability_set_type_code (cap_type c)) ?l bs), rest)"
    using u by (simp add: t cs u16_le_def read_raw_set l Let_def)
  then show ?thesis
    using restore [OF restorable_client [OF assms(1)] assms(2)] cs by auto
qed

theorem capability_round_trip_witness:
  "\<exists>r. read_msg (raw_set 1 4 []) ([8, 0, 8, 0, 0, 0, 20, 0] @ [9]) = (Ok r, [9]) \<and>
     from_capability_set r = Ok ts_pointer_capability_set \<and> length [8, 0, 8, 0, 0, 0, 20, 0 :: u8] = length [0, 0, 20, 0 :: u8] + 4"
proof (rule capability_round_trip)
  show "client_capability ts_pointer_capability_set" by (auto simp: client_capability_def)
  show w: "write_msg (cap_message ts_pointer_capability_set) = Ok [0, 0, 20, 0]"
    by (simp add: ts_pointer_capability_set_def u16_write_def u16_le_def add_filter_def)
  show "capability_set (Some ts_pointer_capability_set) = Ok (raw_set 8 8 [0, 0, 20, 0])"
    using capability_set_Some [OF w] by (simp add: ts_pointer_capability_set_def)
  show "write_msg (raw_set 8 8 [0, 0, 20, 0]) = Ok [8, 0, 8, 0, 0, 0, 20, 0]"
    by (simp add: raw_set_def u16_write_def slice_write_def u16_le_def dyn_options_def add_filter_def)
qed (simp_all add: capability_set_None)

text \<open>
  Parsing the set of a server gives a capability of the announced type or an error,
  whatever the type and the bytes; it never panics.
\<close>

lemma capability_parse_total:
  "(\<exists>c. from_capability_set (raw_set t l bs) = Ok c \<and> capability_set_type_code (cap_type c) = t)
   \<or> (\<exists>e. from_capability_set (raw_set t l bs) = Err e)"
proof (cases "from_capability_set (raw_set t l bs)")
  case (Ok c)
  then obtain k m where k: "capability_set_type_of t = Ok k" "capability_template k = Ok m" "cap_type c = cap_type m"
    by (auto simp: from_raw_set bindo_eq_Ok)
  then have "capability_set_type_code k = t"
    by (auto simp: capability_set_type_of_def find_Some_iff split: option.splits)
  then show ?thesis using Ok k capability_template_type by auto
qed (use calm_from_capability_set [of t l bs] in auto)

end
