(* ===== verification/Event.thy ===== *)
theory Event imports Rle begin

section \<open>Events\<close>

text \<open>
  \<^verbatim>\<open>src/src/core/event.rs\<close>: the events exchanged with the user of the library, and the
  decompression of a bitmap event, which picks a decoder by its depth. The loop that flips
  an uncompressed 16 bit bitmap computes its indices in 16 bit words, checked.
\<close>

subsection \<open>Types\<close>

record bitmap_event =
  b_dest_left :: u16
  b_dest_top :: u16
  b_dest_right :: u16
  b_dest_bottom :: u16
  b_width :: u16
  b_height :: u16
  b_bpp :: u16
  b_is_compress :: bool
  b_data :: "u8 list"

datatype pointer_button = ButtonNone | ButtonLeft | ButtonRight | ButtonMiddle

definition pointer_button_of :: "u8 \<Rightarrow> pointer_button outcome" where
  "pointer_button_of b = (if b = 0 then Ok ButtonNone else if b = 1 then Ok ButtonLeft
     else if b = 2 then Ok ButtonRight else if b = 3 then Ok ButtonMiddle else Err (rdp_err InvalidCast))"

record pointer_event =
  pe_x :: u16
  pe_y :: u16
  pe_button :: pointer_button
  pe_down :: bool

record keyboard_event =
  ke_code :: u16
  ke_down :: bool

datatype rdp_event = Bitmap bitmap_event | Pointer pointer_event | Key keyboard_event

subsection \<open>Decompression\<close>

text \<open>Run a program on a buffer and return the buffer.\<close>

definition filled :: "('s, unit) prog \<Rightarrow> 's \<Rightarrow> 's outcome" where
  "filled m s = bindo (cursor m s) (\<lambda>(_, t). Ok t)"

definition raw_source :: "u16 \<Rightarrow> u16 \<Rightarrow> u16 \<Rightarrow> u16 \<Rightarrow> nat outcome" where
  "raw_source width height i j = bindo (subw height i) (\<lambda>a. bindo (subw a 1) (\<lambda>b. bindo (mulw b width) (\<lambda>c.
     bindo (addw c j) (\<lambda>d. bindo (mulw d 2) (\<lambda>src. Ok (unat src))))))"

definition raw_target :: "u16 \<Rightarrow> u16 \<Rightarrow> u16 \<Rightarrow> nat outcome" where
  "raw_target width i j = bindo (mulw i width) (\<lambda>a. bindo (addw a j) (\<lambda>k. Ok (unat k)))"

definition raw_pixel :: "bitmap_event \<Rightarrow> u16 \<Rightarrow> u16 \<Rightarrow> (u16 list, unit) prog" where
  "raw_pixel e i j =
     bindp (liftp (raw_source (b_width e) (b_height e) i j)) (\<lambda>src.
     bindp (liftp (slice_get (b_data e) (src + 1))) (\<lambda>hi. bindp (liftp (slice_get (b_data e) src)) (\<lambda>lo.
     bindp (liftp (raw_target (b_width e) i j)) (\<lambda>k.
     bindp get_state (\<lambda>r. bindp (liftp (slice_set r k (push_bit 8 (ucast hi) OR ucast lo))) (\<lambda>r. modp (\<lambda>_. r)))))))"

definition raw_pixels :: "bitmap_event \<Rightarrow> (u16 list, unit) prog" where
  "raw_pixels e = forp [0..<unat (b_height e)] (\<lambda>i. forp [0..<unat (b_width e)] (\<lambda>j. raw_pixel e (of_nat i) (of_nat j)))"

definition decompress :: "bitmap_event \<Rightarrow> u8 list outcome" where
  "decompress e = (let w = unat (b_width e); h = unat (b_height e) in
     if b_bpp e = 32 then
       (if b_is_compress e
        then filled (rle_32_decompress (b_data e) (ucast (b_width e)) (ucast (b_height e))) (replicate (w * h * 4) 0)
        else Ok (b_data e))
     else if b_bpp e = 16 then
       bindo (if b_is_compress e
         then filled (rle_16_decompress (b_data e) w h) (replicate (w * h * 2) 0)
         else filled (raw_pixels e) (replicate (w * h) 0)) (\<lambda>r. rgb565torgb32 r w h)
     else Err (rdp_err NotImplemented))"

subsection \<open>The uncompressed loop\<close>

definition raw_at :: "bitmap_event \<Rightarrow> nat \<Rightarrow> nat \<Rightarrow> u16" where
  "raw_at e i j = (let src = ((unat (b_height e) - 1 - i) * unat (b_width e) + j) * 2 in
     le_u16 [b_data e ! src, b_data e ! (src + 1)])"

lemma unat_of_nat_u16: "n < 65536 \<Longrightarrow> unat (of_nat n :: u16) = n"
  by (simp add: unat_of_nat take_bit_nat_eq_self)

lemma raw_source_value:
  assumes "i < unat h" "j < unat w"
  shows "raw_source w h (of_nat i) (of_nat j) = (let d = (unat h - 1 - i) * unat w + j in
     if d < 32768 then Ok (d * 2) else Panic ArithOverflow)"
proof -
  have b: "unat h < 65536" "unat w < 65536" using unsigned_less [of h, where 'a = nat] unsigned_less [of w, where 'a = nat] by auto
  have i: "unat (of_nat i :: u16) = i" "unat (of_nat j :: u16) = j" using assms b by (simp_all add: unat_of_nat_u16)
  have s1: "unat (h - of_nat i) = unat h - i" using assms(1) i by (simp add: unat_sub word_le_nat_alt)
  have s2: "unat (h - of_nat i - 1) = unat h - 1 - i" using assms(1) s1 by (simp add: unat_sub word_le_nat_alt)
  have le: "of_nat i \<le> h" "(1 :: u16) \<le> h - of_nat i" using assms(1) i s1 by (simp_all add: word_le_nat_alt)
  let ?c = "(unat h - 1 - i) * unat w"
  consider "65536 \<le> ?c" | "?c < 65536" "65536 \<le> ?c + j" | "?c + j < 65536" by linarith
  then show ?thesis
  proof cases
    case 3
    have m: "unat ((h - of_nat i - 1) * w) = ?c" using 3 s2 by (simp add: unat_word_ariths)
    have a: "unat ((h - of_nat i - 1) * w + of_nat j) = ?c + j" using 3 m i by (simp add: unat_word_ariths)
    show ?thesis using le s2 m a i 3 by (simp add: raw_source_def subw_def mulw_def addw_def Let_def unat_word_ariths)
      (intro impI mod_less, linarith)
  qed (use le s2 i in \<open>auto simp: raw_source_def subw_def mulw_def addw_def Let_def unat_word_ariths\<close>)
qed

lemma raw_target_value:
  assumes "i * unat w + j < 65536" "i < 65536"
  shows "raw_target w (of_nat i) (of_nat j) = Ok (i * unat w + j)"
proof -
  have i: "unat (of_nat i :: u16) = i" "unat (of_nat j :: u16) = j" using assms by (simp_all add: unat_of_nat_u16)
  have m: "unat (of_nat i * w) = i * unat w" using assms i by (simp add: unat_word_ariths)
  then show ?thesis using assms i by (simp add: raw_target_def mulw_def addw_def unat_word_ariths)
qed

lemma pair_le: "push_bit 8 (ucast hi) OR ucast lo = le_u16 [lo, hi]"
  by (simp add: le_u16_def)

lemma row_index: "i < h \<Longrightarrow> j < w \<Longrightarrow> i * w + j < h * (w :: nat)"
  by (metis add.commute add_less_cancel_left less_le_trans mult_Suc mult_le_mono1 Suc_leI)

lemma source_index:
  assumes "i < h" "j < w" shows "((h - 1 - i) * w + j) * 2 + 1 < 2 * (w * (h :: nat))"
  using row_index [of "h - 1 - i" h j w] assms by (simp add: algebra_simps)

definition flipped :: "bitmap_event \<Rightarrow> nat \<Rightarrow> u16 list \<Rightarrow> bool" where
  "flipped e n r \<longleftrightarrow> length r = unat (b_width e) * unat (b_height e) \<and>
     (\<forall>k < n. r ! k = raw_at e (k div unat (b_width e)) (k mod unat (b_width e)))"

lemma wp_raw_pixel:
  assumes dims: "w = unat (b_width e)" "h = unat (b_height e)" and enough: "2 * (w * h) \<le> length (b_data e)"
    and ij: "i < h" "j < w" and r: "length r = w * h" "i * w + j < 65536"
  shows "wp (raw_pixel e (of_nat i) (of_nat j))
     (\<lambda>_ t. (h - 1 - i) * w + j < 32768 \<and> t = r[i * w + j := raw_at e i j])
     (if w * h \<le> 32768 then {} else {ArithOverflow}) r"
proof -
  have d: "(h - 1 - i) * w + j < w * h" using row_index [of "h - 1 - i" h j w] ij by (simp add: mult.commute)
  have t: "i * w + j < w * h" using row_index [of i h j w] ij by (simp add: mult.commute)
  have i: "i < 65536" using ij(1) dims(2) unsigned_less [of "b_height e", where 'a = nat] by simp
  note src = raw_source_value [OF ij [unfolded dims], folded dims, unfolded Let_def]
  have idx: "((h - 1 - i) * w + j) * 2 + 1 < length (b_data e)"
    using source_index [OF ij] enough by linarith
  show ?thesis
  proof (cases "(h - 1 - i) * w + j < 32768")
    case True
    then show ?thesis
      using idx t r(1) raw_target_value [of i "b_width e" j] r(2) i dims
      by (simp add: raw_pixel_def src wp_simps raw_at_def Let_def pair_le)
  next
    case False
    then show ?thesis using d by (simp add: raw_pixel_def src wp_simps)
  qed
qed

lemma wp_raw_pixels:
  assumes dims: "w = unat (b_width e)" "h = unat (b_height e)" and enough: "2 * (w * h) \<le> length (b_data e)"
    and small: "w * h \<le> 32768"
  shows "wp (raw_pixels e) (\<lambda>_. flipped e (w * h)) {} (replicate (w * h) 0)"
proof -
  have row: "wp (forp [0..<w] (\<lambda>j. raw_pixel e (of_nat i) (of_nat j))) (\<lambda>_. flipped e (Suc i * w)) {} r"
    if i: "i < h" and r: "flipped e (i * w) r" for i r
  proof -
    have "wp (forp [0..<w] (\<lambda>j. raw_pixel e (of_nat i) (of_nat j))) (\<lambda>_. flipped e (i * w + w)) {} r"
    proof (rule wp_for_upt [where I = "\<lambda>j. flipped e (i * w + j)"])
      fix t j assume j: "j < w" "flipped e (i * w + j) t"
      have k: "i * w + j < w * h" using row_index [OF i j(1)] by (simp add: mult.commute)
      have l: "length t = w * h" using j(2) dims by (simp add: flipped_def)
      have "wp (raw_pixel e (of_nat i) (of_nat j))
        (\<lambda>_ u. (h - 1 - i) * w + j < 32768 \<and> u = t[i * w + j := raw_at e i j]) {} t"
        using wp_raw_pixel [OF dims enough i j(1) l] k small by simp
      then show "wp (raw_pixel e (of_nat i) (of_nat j)) (\<lambda>_. flipped e (i * w + Suc j)) {} t"
        by (rule wp_mono) (use j k l dims in \<open>auto simp: flipped_def nth_list_update less_Suc_eq\<close>)
    qed (use r in simp)
    then show ?thesis by (simp add: add.commute)
  qed
  have "wp (raw_pixels e) (\<lambda>_. flipped e (h * w)) {} (replicate (w * h) 0)"
    unfolding raw_pixels_def dims [symmetric]
    by (rule wp_for_upt [where I = "\<lambda>i. flipped e (i * w)"]) (use row dims in \<open>auto simp: flipped_def\<close>)
  then show ?thesis by (simp add: mult.commute)
qed

text \<open>
  When the bitmap is too large for its indices or its data is too short, the first row already
  fails, at the last row of the data: at the first index past either limit.
\<close>

definition raw_failure :: "nat \<Rightarrow> nat \<Rightarrow> nat \<Rightarrow> panic" where
  "raw_failure w h len = (if 32768 \<le> (h - 1) * w \<or> 65536 \<le> len then ArithOverflow else OutOfBounds)"

lemma wp_raw_pixel_fails:
  assumes dims: "w = unat (b_width e)" "h = unat (b_height e)" and j: "0 < h" "j < w" "length r = w * h"
    and first: "j = 0 \<or> (h - 1) * w + j \<le> min 32768 (length (b_data e) div 2)"
  shows "wp (raw_pixel e (of_nat 0) (of_nat j))
     (\<lambda>_ t. (h - 1) * w + j < 32768 \<and> 2 * ((h - 1) * w + j) + 1 < length (b_data e) \<and> length t = w * h)
     {raw_failure w h (length (b_data e))} r"
proof -
  let ?d = "(h - 1) * w + j"
  note src = raw_source_value [of 0 "b_height e" j "b_width e", folded dims, OF j(1,2), unfolded Let_def]
  have b: "j < 65536" using j(2) dims(1) unsigned_less [of "b_width e", where 'a = nat] by simp
  have "j < w * h" using row_index [OF j(1,2)] j(2) by (simp add: mult.commute)
  then have t: "raw_target (b_width e) (of_nat 0) (of_nat j) = Ok j" "j < length r"
    using raw_target_value [of 0 "b_width e" j] b j(3) by simp_all
  consider "32768 \<le> ?d" | "?d < 32768" "length (b_data e) \<le> 2 * ?d + 1" | "?d < 32768" "2 * ?d + 1 < length (b_data e)"
    by linarith
  then show ?thesis
  proof cases
    case 1
    then have "raw_failure w h (length (b_data e)) = ArithOverflow" using first by (auto simp: raw_failure_def)
    then show ?thesis using 1 src by (simp add: raw_pixel_def wp_simps)
  next
    case 2
    then have "raw_failure w h (length (b_data e)) = OutOfBounds" by (auto simp: raw_failure_def)
    then show ?thesis using 2 src by (simp add: raw_pixel_def wp_simps mult.commute)
  next
    case 3
    then show ?thesis using src t j(3) by (simp add: raw_pixel_def wp_simps mult.commute)
  qed
qed

lemma wp_raw_fails:
  assumes dims: "w = unat (b_width e)" "h = unat (b_height e)"
    and fails: "length (b_data e) < 2 * (w * h) \<or> 32768 < w * h"
  shows "wp (raw_pixels e) (\<lambda>_ _. False) {raw_failure w h (length (b_data e))} (replicate (w * h) 0)"
proof -
  have pos: "0 < w" "0 < h" using fails by (auto intro!: Nat.gr0I)
  let ?P = "{raw_failure w h (length (b_data e))}"
  let ?I = "\<lambda>j r. length r = w * h \<and> (j = 0 \<or> (h - 1) * w + j \<le> min 32768 (length (b_data e) div 2))"
  have "wp (forp [0..<w] (\<lambda>j. raw_pixel e (of_nat 0) (of_nat j))) (\<lambda>_. ?I w) ?P (replicate (w * h) 0)"
  proof (rule wp_for_upt [where I = ?I])
    fix t :: "u16 list" and j assume j: "j < w" "?I j t"
    then show "wp (raw_pixel e (of_nat 0) (of_nat j)) (\<lambda>_. ?I (Suc j)) ?P t"
      by (intro wp_mono [OF wp_raw_pixel_fails [OF dims pos(2) j(1)]]) auto
  qed simp
  then have "wp (forp [0..<w] (\<lambda>j. raw_pixel e (of_nat 0) (of_nat j))) (\<lambda>_ _. False) ?P (replicate (w * h) 0)"
  proof (rule wp_mono)
    fix r :: "u16 list" assume "?I w r"
    moreover have "(h - 1) * w + w = w * h" using pos by (cases h) simp_all
    ultimately show False using fails pos by auto
  qed simp
  then have "wp (forp (0 # [1..<h]) (\<lambda>i. forp [0..<w] (\<lambda>j. raw_pixel e (of_nat i) (of_nat j)))) (\<lambda>_ _. False) ?P (replicate (w * h) 0)"
    unfolding forp.simps wp_bindp by (rule wp_mono) auto
  then show ?thesis
    unfolding raw_pixels_def dims [symmetric] using pos(2) by (simp add: upt_conv_Cons)
qed

lemma infallible_raw_pixels: "infallible (raw_pixels e)"
proof -
  have "raw_source w h i j \<noteq> Err x" "raw_target w i j \<noteq> Err x" for w h i j x
    by (auto simp: raw_source_def raw_target_def subw_def mulw_def addw_def)
  then show ?thesis
    unfolding raw_pixels_def raw_pixel_def
    by (intro infallible_forp infallible_bindp infallible_liftp infallible_state) (auto simp: slice_get_def slice_set_def)
qed

lemma filled_wp:
  assumes "wp m (\<lambda>_. Q) P s"
  shows "wpo (filled m s) Q P"
  using assms by (auto simp: wp_def wpo_def filled_def cursor_def split: prod.splits outcome.splits)

lemma rgb565torgb32_length:
  assumes "w * h \<le> length r"
  shows "\<exists>bs. rgb565torgb32 r w h = Ok bs \<and> length bs = w * h * 4"
  using rgb565torgb32_Ok [OF assms] by (auto simp: converted_def)

lemma decompress_16:
  assumes "b_bpp e = 16" "b_is_compress e"
    and "OutOfBounds \<in> P \<and> UnwrapFailed \<in> P \<or> 0 < unat (b_width e)" "{ArithOverflow, ExplicitPanic} \<subseteq> P"
  shows "wpo (decompress e) (\<lambda>bs. length bs = unat (b_width e) * unat (b_height e) * 4) P"
proof -
  let ?w = "unat (b_width e)" and ?h = "unat (b_height e)"
  have "wpo (filled (rle_16_decompress (b_data e) ?w ?h) (replicate (?w * ?h * 2) 0)) (\<lambda>r. length r = ?w * ?h * 2) P"
    using filled_wp [OF wp_rle_16_decompress [of P ?w ?h "replicate (?w * ?h * 2) 0" "b_data e"]] assms(3,4) by auto
  then have "wpo (bindo (filled (rle_16_decompress (b_data e) ?w ?h) (replicate (?w * ?h * 2) 0)) (\<lambda>r. rgb565torgb32 r ?w ?h))
      (\<lambda>bs. length bs = ?w * ?h * 4) P"
    unfolding wpo_bindo
  proof (rule wpo_mono)
    fix r :: "u16 list" assume "length r = ?w * ?h * 2"
    then have "?w * ?h \<le> length r" by simp
    from rgb565torgb32_length [OF this]
    show "wpo (rgb565torgb32 r ?w ?h) (\<lambda>bs. length bs = ?w * ?h * 4) P" by auto
  qed simp
  then show ?thesis using assms(1,2) by (simp add: decompress_def Let_def)
qed

lemma decompress_16_raw:
  assumes "b_bpp e = 16" "\<not> b_is_compress e" "w = unat (b_width e)" "h = unat (b_height e)"
  shows "2 * (w * h) \<le> length (b_data e) \<Longrightarrow> w * h \<le> 32768
      \<Longrightarrow> \<exists>r bs. decompress e = Ok bs \<and> flipped e (w * h) r \<and> converted r (w * h) bs (w * h)"
    and "length (b_data e) < 2 * (w * h) \<or> 32768 < w * h \<Longrightarrow> decompress e = Panic (raw_failure w h (length (b_data e)))"
proof -
  obtain x r where x: "raw_pixels e (replicate (w * h) 0) = (x, r)" by (metis surj_pair)
  have d: "decompress e = bindo (filled (raw_pixels e) (replicate (w * h) 0)) (\<lambda>r. rgb565torgb32 r w h)"
    using assms by (simp add: decompress_def Let_def)
  show "\<exists>r bs. decompress e = Ok bs \<and> flipped e (w * h) r \<and> converted r (w * h) bs (w * h)"
    if "2 * (w * h) \<le> length (b_data e)" "w * h \<le> 32768"
  proof -
    have ok: "x = Ok ()" "flipped e (w * h) r"
      using wp_outcome [OF wp_raw_pixels [OF assms(3,4) that] x] infallibleD [OF infallible_raw_pixels] x by auto
    then have "w * h \<le> length r" using assms(3,4) by (simp add: flipped_def)
    from rgb565torgb32_Ok [OF this] ok x show ?thesis
      by (auto simp: d filled_def cursor_def)
  qed
  show "decompress e = Panic (raw_failure w h (length (b_data e)))" if "length (b_data e) < 2 * (w * h) \<or> 32768 < w * h"
  proof -
    have "x = Panic (raw_failure w h (length (b_data e)))"
      using wp_outcome [OF wp_raw_fails [OF assms(3,4) that] x] infallibleD [OF infallible_raw_pixels] x by auto
    then show ?thesis using x by (simp add: d filled_def cursor_def)
  qed
qed

text \<open>The images of 32 bits, and the bitmaps of no width.\<close>

lemma decompress_32:
  assumes "b_bpp e = 32" "b_is_compress e"
  shows "wpo (decompress e) (\<lambda>bs. length bs = unat (b_width e) * unat (b_height e) * 4) {ArithOverflow, OutOfBounds}"
proof -
  let ?n = "unat (b_width e) * unat (b_height e) * 4"
  have "wpo (filled (rle_32_decompress (b_data e) (ucast (b_width e)) (ucast (b_height e))) (replicate ?n 0)) (\<lambda>bs. length bs = ?n)
     {ArithOverflow, OutOfBounds}"
    by (rule filled_wp, rule wp_mono [OF wp_rle_32_decompress]) auto
  then show ?thesis using assms by (simp add: decompress_def Let_def)
qed

subsection \<open>Properties\<close>

text \<open>
  C29. What becomes of any uncompressed 16 bit bitmap: with at least two bytes per pixel and at most 32768 pixels it is
  turned upside down and converted pixel by pixel. Otherwise, and only then, the decompression panics in its first row: with
  the overflow of the 16 bit index computation when an index past 32767 comes first, although dimensions and data
  are within the protocol's limits, and with an index out of the data when the data ends first.
\<close>

theorem uncompressed_16_bitmap:
  assumes "b_bpp e = 16" "\<not> b_is_compress e" "w = unat (b_width e)" "h = unat (b_height e)"
  shows "if 2 * (w * h) \<le> length (b_data e) \<and> w * h \<le> 32768
    then \<exists>bs. decompress e = Ok bs \<and> length bs = w * h * 4 \<and>
      (\<forall>i < h. \<forall>j < w. take 4 (drop ((i * w + j) * 4) bs) =
         bgra (let src = ((h - 1 - i) * w + j) * 2 in le_u16 [b_data e ! src, b_data e ! (src + 1)]))
    else decompress e = Panic (if 32768 \<le> (h - 1) * w \<or> 65536 \<le> length (b_data e) then ArithOverflow else OutOfBounds)"
proof (cases "2 * (w * h) \<le> length (b_data e) \<and> w * h \<le> 32768")
  case True
  then obtain r bs where r: "decompress e = Ok bs" "flipped e (w * h) r" "converted r (w * h) bs (w * h)"
    using decompress_16_raw(1) [OF assms] by blast
  have "take 4 (drop ((i * w + j) * 4) bs) = bgra (raw_at e i j)" if "i < h" "j < w" for i j
  proof -
    have k: "i * w + j < w * h" using row_index [OF that] by (simp add: mult.commute)
    then have "take 4 (drop ((i * w + j) * 4) bs) = bgra (r ! (i * w + j))"
      using r(3) unfolding converted_def by blast
    moreover have "r ! (i * w + j) = raw_at e ((i * w + j) div w) ((i * w + j) mod w)"
      using r(2) k assms(3) unfolding flipped_def by blast
    ultimately show ?thesis using that by simp
  qed
  then show ?thesis using r True assms(3,4) by (auto simp: converted_def raw_at_def)
next
  case False
  then have "length (b_data e) < 2 * (w * h) \<or> 32768 < w * h" by auto
  from decompress_16_raw(2) [OF assms this] False show ?thesis by (simp add: raw_failure_def)
qed

definition sample_bitmap :: "u16 \<Rightarrow> u16 \<Rightarrow> bool \<Rightarrow> u8 list \<Rightarrow> bitmap_event" where
  "sample_bitmap w h c bs = \<lparr>b_dest_left = 0, b_dest_top = 0, b_dest_right = w - 1, b_dest_bottom = h - 1,
     b_width = w, b_height = h, b_bpp = 16, b_is_compress = c, b_data = bs\<rparr>"

theorem uncompressed_16_bitmap_witness:
  "decompress (sample_bitmap 256 129 False (replicate 66048 0)) = Panic ArithOverflow
    \<and> decompress (sample_bitmap 2 2 False [1, 2, 3, 4, 5, 6, 7]) = Panic OutOfBounds"
proof
  show "decompress (sample_bitmap 256 129 False (replicate 66048 0)) = Panic ArithOverflow"
    using uncompressed_16_bitmap [of "sample_bitmap 256 129 False (replicate 66048 0)" 256 129] by (simp add: sample_bitmap_def)
  define e where "e = sample_bitmap 2 2 False [1, 2, 3, 4, 5, 6, 7]"
  have e: "b_bpp e = 16" "\<not> b_is_compress e" "2 = unat (b_width e)" "2 = unat (b_height e)" "length (b_data e) = 7"
    by (simp_all add: e_def sample_bitmap_def)
  have "\<not> (2 * (2 * 2) \<le> length (b_data e) \<and> 2 * 2 \<le> (32768 :: nat))" using e(5) by simp
  from uncompressed_16_bitmap [OF e(1-4), unfolded if_not_P [OF this]] e(5)
  show "decompress (sample_bitmap 2 2 False [1, 2, 3, 4, 5, 6, 7]) = Panic OutOfBounds" by (simp add: e_def)
qed

text \<open>
  C30. Every compressed bitmap, of any depth, size and data, is decompressed to an image of exactly four bytes per pixel, an
  error, or a panic, and the decompression ends. The panics are: for 16 bits and a width that is not zero, the two
  left in the decoder, which never leaves its buffers; for 16 bits and no width, also an index out of them and a missing line; for 32 bits,
  an overflow and an index out of them. Other depths are not implemented.
\<close>

theorem compressed_bitmap:
  assumes "b_is_compress e"
  shows "(\<exists>bs. decompress e = Ok bs \<and> length bs = unat (b_width e) * unat (b_height e) * 4 \<and> (b_bpp e = 16 \<or> b_bpp e = 32))
    \<or> (\<exists>x. decompress e = Err x \<and> (b_bpp e \<noteq> 16 \<and> b_bpp e \<noteq> 32 \<longrightarrow> x = rdp_err NotImplemented))
    \<or> (\<exists>p. decompress e = Panic p \<and> p \<in> (if b_bpp e = 16 \<and> b_width e \<noteq> 0 then {ArithOverflow, ExplicitPanic}
        else if b_bpp e = 16 then {ArithOverflow, ExplicitPanic, OutOfBounds, UnwrapFailed}
        else if b_bpp e = 32 then {ArithOverflow, OutOfBounds} else {}))"
proof -
  consider "b_bpp e = 16" "b_width e \<noteq> 0" | "b_bpp e = 16" "b_width e = 0" | "b_bpp e = 32" | "b_bpp e \<noteq> 16" "b_bpp e \<noteq> 32" by blast
  then show ?thesis
  proof cases
    case 1
    then show ?thesis using wpo_outcome [OF decompress_16 [OF 1(1) assms, of "{ArithOverflow, ExplicitPanic}"]]
      by (auto simp: word_neq_0_conv word_less_nat_alt)
  next
    case 2
    then show ?thesis
      using wpo_outcome [OF decompress_16 [OF 2(1) assms, of "{ArithOverflow, ExplicitPanic, OutOfBounds, UnwrapFailed}"]] by auto
  next
    case 3
    then show ?thesis using wpo_outcome [OF decompress_32 [OF 3 assms]] by auto
  next
    case 4
    then show ?thesis by (simp add: decompress_def Let_def)
  qed
qed

theorem compressed_bitmap_witness:
  "(\<exists>bs. decompress (sample_bitmap 2 1 True [0x62, 0x1F, 0]) = Ok bs \<and> length bs = 8)
    \<or> (\<exists>x. decompress (sample_bitmap 2 1 True [0x62, 0x1F, 0]) = Err x)
    \<or> decompress (sample_bitmap 2 1 True [0x62, 0x1F, 0]) = Panic ArithOverflow
    \<or> decompress (sample_bitmap 2 1 True [0x62, 0x1F, 0]) = Panic ExplicitPanic"
  using compressed_bitmap [of "sample_bitmap 2 1 True [0x62, 0x1F, 0]"] by (auto simp: sample_bitmap_def)

end
