(* ===== verification/Global.thy ===== *)
theory Global imports Sec Capability Event begin

section \<open>The global channel\<close>

text \<open>
  \<^verbatim>\<open>src/src/core/global.rs\<close>: the PDUs of the global channel, the connection sequence as a
  state machine over the payloads MCS delivers, the fast path updates and the input events.
  The callback that receives the events is modelled by the list of events it is given.
\<close>

subsection \<open>PDUs\<close>

datatype pdu_type =
    PdutypeDemandactivepdu | PdutypeConfirmactivepdu | PdutypeDeactivateallpdu | PdutypeDatapdu | PdutypeServerRedirPkt

fun pdu_type_code :: "pdu_type \<Rightarrow> u16" where
  "pdu_type_code PdutypeDemandactivepdu = 0x11" | "pdu_type_code PdutypeConfirmactivepdu = 0x13"
| "pdu_type_code PdutypeDeactivateallpdu = 0x16" | "pdu_type_code PdutypeDatapdu = 0x17"
| "pdu_type_code PdutypeServerRedirPkt = 0x1A"

definition pdu_type_of :: "u16 \<Rightarrow> pdu_type outcome" where
  "pdu_type_of t = (if t = 0x11 then Ok PdutypeDemandactivepdu else if t = 0x13 then Ok PdutypeConfirmactivepdu
     else if t = 0x16 then Ok PdutypeDeactivateallpdu else if t = 0x17 then Ok PdutypeDatapdu
     else if t = 0x1A then Ok PdutypeServerRedirPkt else Err (rdp_err InvalidCast))"

record pdu =
  pdu_kind :: pdu_type
  pdu_message :: message

datatype pdu_type2 =
    Pdutype2Update | Pdutype2Control | Pdutype2Pointer | Pdutype2Input | Pdutype2Synchronize
  | Pdutype2RefreshRect | Pdutype2PlaySound | Pdutype2SuppressOutput | Pdutype2ShutdownRequest
  | Pdutype2ShutdownDenied | Pdutype2SaveSessionInfo | Pdutype2Fontlist | Pdutype2Fontmap
  | Pdutype2SetKeyboardIndicators | Pdutype2BitmapcachePersistentList | Pdutype2BitmapcacheErrorPdu
  | Pdutype2SetKeyboardImeStatus | Pdutype2OffscrcacheErrorPdu | Pdutype2SetErrorInfoPdu
  | Pdutype2DrawninegridErrorPdu | Pdutype2DrawgdiplusErrorPdu | Pdutype2ArcStatusPdu
  | Pdutype2StatusInfoPdu | Pdutype2MonitorLayoutPdu | Pdutype2Unknown

fun pdu_type2_code :: "pdu_type2 \<Rightarrow> u8" where
  "pdu_type2_code Pdutype2Update = 0x02" | "pdu_type2_code Pdutype2Control = 0x14"
| "pdu_type2_code Pdutype2Pointer = 0x1B" | "pdu_type2_code Pdutype2Input = 0x1C"
| "pdu_type2_code Pdutype2Synchronize = 0x1F" | "pdu_type2_code Pdutype2RefreshRect = 0x21"
| "pdu_type2_code Pdutype2PlaySound = 0x22" | "pdu_type2_code Pdutype2SuppressOutput = 0x23"
| "pdu_type2_code Pdutype2ShutdownRequest = 0x24" | "pdu_type2_code Pdutype2ShutdownDenied = 0x25"
| "pdu_type2_code Pdutype2SaveSessionInfo = 0x26" | "pdu_type2_code Pdutype2Fontlist = 0x27"
| "pdu_type2_code Pdutype2Fontmap = 0x28" | "pdu_type2_code Pdutype2SetKeyboardIndicators = 0x29"
| "pdu_type2_code Pdutype2BitmapcachePersistentList = 0x2B" | "pdu_type2_code Pdutype2BitmapcacheErrorPdu = 0x2C"
| "pdu_type2_code Pdutype2SetKeyboardImeStatus = 0x2D" | "pdu_type2_code Pdutype2OffscrcacheErrorPdu = 0x2E"
| "pdu_type2_code Pdutype2SetErrorInfoPdu = 0x2F" | "pdu_type2_code Pdutype2DrawninegridErrorPdu = 0x30"
| "pdu_type2_code Pdutype2DrawgdiplusErrorPdu = 0x31" | "pdu_type2_code Pdutype2ArcStatusPdu = 0x32"
| "pdu_type2_code Pdutype2StatusInfoPdu = 0x36" | "pdu_type2_code Pdutype2MonitorLayoutPdu = 0x37"
| "pdu_type2_code Pdutype2Unknown = 0x38"

definition pdu_types2 :: "pdu_type2 list" where
  "pdu_types2 = [Pdutype2Update, Pdutype2Control, Pdutype2Pointer, Pdutype2Input, Pdutype2Synchronize,
     Pdutype2RefreshRect, Pdutype2PlaySound, Pdutype2SuppressOutput, Pdutype2ShutdownRequest,
     Pdutype2ShutdownDenied, Pdutype2SaveSessionInfo, Pdutype2Fontlist, Pdutype2Fontmap,
     Pdutype2SetKeyboardIndicators, Pdutype2BitmapcachePersistentList, Pdutype2BitmapcacheErrorPdu,
     Pdutype2SetKeyboardImeStatus, Pdutype2OffscrcacheErrorPdu, Pdutype2SetErrorInfoPdu,
     Pdutype2DrawninegridErrorPdu, Pdutype2DrawgdiplusErrorPdu, Pdutype2ArcStatusPdu,
     Pdutype2StatusInfoPdu, Pdutype2MonitorLayoutPdu, Pdutype2Unknown]"

definition pdu_type2_of :: "u8 \<Rightarrow> pdu_type2 outcome" where
  "pdu_type2_of c = (case find (\<lambda>t. pdu_type2_code t = c) pdu_types2 of
       Some t \<Rightarrow> Ok t | None \<Rightarrow> Err (rdp_err InvalidCast))"

record data_pdu =
  data_kind :: pdu_type2
  data_message :: message

text \<open>The size option of a length field that counts \<open>k\<close> bytes more than the field it measures.\<close>

definition sized :: "string \<Rightarrow> nat \<Rightarrow> dyn_view \<Rightarrow> message_option outcome" where
  "sized name k = (\<lambda>v. bindo (subn (unat (view_u16 v)) k) (\<lambda>n. Ok (Size name n)))"

definition ts_demand_active_pdu :: "pdu outcome" where
  "ts_demand_active_pdu = bindo (capability_set None) (\<lambda>factory. Ok \<lparr>pdu_kind = PdutypeDemandactivepdu,
     pdu_message = MComponent [
     (''shareId'', MU32 (LE 0)),
     (''lengthSourceDescriptor'', MDyn (MU16 (LE 0)) (sized ''sourceDescriptor'' 0)),
     (''lengthCombinedCapabilities'', MDyn (MU16 (LE 0)) (sized ''capabilitySets'' 4)),
     (''sourceDescriptor'', MSlice []),
     (''numberCapabilities'', MU16 (LE 0)),
     (''pad2Octets'', MU16 (LE 0)),
     (''capabilitySets'', MArray [] (Some factory)),
     (''sessionId'', MU32 (LE 0))]\<rparr>)"

text \<open>The array argument is the list of its elements and its factory's value.\<close>

definition ts_confirm_active_pdu :: "u32 option \<Rightarrow> u8 list option \<Rightarrow> (message list \<times> message option) option \<Rightarrow> pdu outcome" where
  "ts_confirm_active_pdu share_id source capabilities_set =
     bindo (capability_set None) (\<lambda>factory. let (ms, f) = unwrap_or capabilities_set ([], Some factory);
       default_source = unwrap_or source [] in
     bindo (msg_length (MArray ms f)) (\<lambda>n. bindo (addw (of_nat n) 4) (\<lambda>len.
     Ok \<lparr>pdu_kind = PdutypeConfirmactivepdu, pdu_message = MComponent [
     (''shareId'', MU32 (LE (unwrap_or share_id 0))),
     (''originatorId'', MCheck (MU16 (LE 0x03EA))),
     (''lengthSourceDescriptor'', MDyn (MU16 (LE (of_nat (length default_source)))) (sized ''sourceDescriptor'' 0)),
     (''lengthCombinedCapabilities'', MDyn (MU16 (LE len)) (sized ''capabilitySets'' 4)),
     (''sourceDescriptor'', MSlice default_source),
     (''numberCapabilities'', MU16 (LE (of_nat (length ms)))),
     (''pad2Octets'', MU16 (LE 0)),
     (''capabilitySets'', MArray ms f)]\<rparr>)))"

definition ts_deactivate_all_pdu :: pdu where
  "ts_deactivate_all_pdu = \<lparr>pdu_kind = PdutypeDeactivateallpdu, pdu_message = MComponent [
     (''shareId'', MU32 (LE 0)),
     (''lengthSourceDescriptor'', MDyn (MU16 (LE 0)) (sized ''sourceDescriptor'' 0)),
     (''sourceDescriptor'', MSlice [])]\<rparr>"

definition share_data_header :: "u32 option \<Rightarrow> pdu_type2 option \<Rightarrow> u8 list option \<Rightarrow> pdu outcome" where
  "share_data_header share_id pdu_type_2 message = (let default_message = unwrap_or message [] in
     bindo (addw (of_nat (slice_length default_message)) 18) (\<lambda>len. Ok \<lparr>pdu_kind = PdutypeDatapdu,
     pdu_message = MComponent [
     (''shareId'', MU32 (LE (unwrap_or share_id 0))),
     (''pad1'', MU8 0),
     (''streamId'', MU8 1),
     (''uncompressedLength'', MDyn (MU16 (LE len)) (sized ''payload'' 18)),
     (''pduType2'', MU8 (pdu_type2_code (unwrap_or pdu_type_2 Pdutype2ArcStatusPdu))),
     (''compressedType'', MU8 0),
     (''compressedLength'', MU16 (LE 0)),
     (''payload'', MSlice default_message)]\<rparr>))"

definition share_control_header :: "pdu_type option \<Rightarrow> u16 option \<Rightarrow> u8 list option \<Rightarrow> message outcome" where
  "share_control_header pdu_type pdu_source message = (let default_message = unwrap_or message [] in
     bindo (addw (of_nat (slice_length default_message)) 6) (\<lambda>len. Ok (MComponent [
     (''totalLength'', MDyn (MU16 (LE len)) (sized ''pduMessage'' 6)),
     (''pduType'', MU16 (LE (pdu_type_code (unwrap_or pdu_type PdutypeDemandactivepdu)))),
     (''PDUSource'', MOpt (Some (MU16 (LE (unwrap_or pdu_source 0))))),
     (''pduMessage'', MSlice default_message)])))"

definition pdu_from_control :: "message \<Rightarrow> pdu outcome" where
  "pdu_from_control control = bindo (bindo (field control ''pduType'') cast_u16) (\<lambda>t.
     bindo (pdu_type_of t) (\<lambda>t.
     bindo (case t of
         PdutypeDemandactivepdu \<Rightarrow> ts_demand_active_pdu
       | PdutypeDatapdu \<Rightarrow> share_data_header None None None
       | PdutypeConfirmactivepdu \<Rightarrow> ts_confirm_active_pdu None None None
       | PdutypeDeactivateallpdu \<Rightarrow> Ok ts_deactivate_all_pdu
       | _ \<Rightarrow> Err (rdp_err NotImplemented)) (\<lambda>p.
     bindo (bindo (field control ''pduMessage'') cast_slice) (\<lambda>bs.
     bindo (on_buffer (read_msg (pdu_message p)) bs) (\<lambda>m. Ok (p\<lparr>pdu_message := m\<rparr>))))))"

definition pdu_from_stream :: "(u8 list, pdu) prog" where
  "pdu_from_stream = bindp (liftp (share_control_header None None None)) (\<lambda>header.
     bindp (read_msg header) (\<lambda>header. liftp (pdu_from_control header)))"

subsection \<open>Data PDUs\<close>

definition ts_synchronize_pdu :: "u16 option \<Rightarrow> data_pdu" where
  "ts_synchronize_pdu target_user = \<lparr>data_kind = Pdutype2Synchronize, data_message = MComponent [
     (''messageType'', MCheck (MU16 (LE 1))),
     (''targetUser'', MOpt (Some (MU16 (LE (unwrap_or target_user 0)))))]\<rparr>"

definition ts_font_list_pdu :: data_pdu where
  "ts_font_list_pdu = \<lparr>data_kind = Pdutype2Fontlist, data_message = MComponent [
     (''numberFonts'', MU16 (LE 0)), (''totalNumFonts'', MU16 (LE 0)),
     (''listFlags'', MU16 (LE 0x0003)), (''entrySize'', MU16 (LE 0x0032))]\<rparr>"

definition ts_set_error_info_pdu :: data_pdu where
  "ts_set_error_info_pdu = \<lparr>data_kind = Pdutype2SetErrorInfoPdu, data_message = MComponent [(''errorInfo'', MU32 (LE 0))]\<rparr>"

datatype ctrl_action = CtrlactionRequestControl | CtrlactionGrantedControl | CtrlactionDetach | CtrlactionCooperate

fun ctrl_action_code :: "ctrl_action \<Rightarrow> u16" where
  "ctrl_action_code CtrlactionRequestControl = 1" | "ctrl_action_code CtrlactionGrantedControl = 2"
| "ctrl_action_code CtrlactionDetach = 3" | "ctrl_action_code CtrlactionCooperate = 4"

definition ts_control_pdu :: "ctrl_action option \<Rightarrow> data_pdu" where
  "ts_control_pdu action = \<lparr>data_kind = Pdutype2Control, data_message = MComponent [
     (''action'', MU16 (LE (ctrl_action_code (unwrap_or action CtrlactionCooperate)))),
     (''grantId'', MU16 (LE 0)), (''controlId'', MU32 (LE 0))]\<rparr>"

definition ts_font_map_pdu :: data_pdu where
  "ts_font_map_pdu = \<lparr>data_kind = Pdutype2Fontmap, data_message = MComponent [
     (''numberEntries'', MU16 (LE 0)), (''totalNumEntries'', MU16 (LE 0)),
     (''mapFlags'', MU16 (LE 0x0003)), (''entrySize'', MU16 (LE 0x0004))]\<rparr>"

definition data_pdu_from_pdu :: "pdu \<Rightarrow> data_pdu outcome" where
  "data_pdu_from_pdu p = bindo (bindo (field (pdu_message p) ''pduType2'') cast_u8) (\<lambda>c.
     bindo (pdu_type2_of c) (\<lambda>t.
     bindo (case t of
         Pdutype2Synchronize \<Rightarrow> Ok (ts_synchronize_pdu None)
       | Pdutype2Control \<Rightarrow> Ok (ts_control_pdu None)
       | Pdutype2Fontlist \<Rightarrow> Ok ts_font_list_pdu
       | Pdutype2Fontmap \<Rightarrow> Ok ts_font_map_pdu
       | Pdutype2SetErrorInfoPdu \<Rightarrow> Ok ts_set_error_info_pdu
       | _ \<Rightarrow> Err (rdp_err NotImplemented)) (\<lambda>r.
     bindo (bindo (field (pdu_message p) ''payload'') cast_slice) (\<lambda>bs.
     bindo (on_buffer (read_msg (data_message r)) bs) (\<lambda>m. Ok (r\<lparr>data_message := m\<rparr>))))))"

subsection \<open>Input events\<close>

datatype input_event_type =
    InputEventSync | InputEventUnused | InputEventScancode | InputEventUnicode | InputEventMouse | InputEventMousex

fun input_event_type_code :: "input_event_type \<Rightarrow> u16" where
  "input_event_type_code InputEventSync = 0x0000" | "input_event_type_code InputEventUnused = 0x0002"
| "input_event_type_code InputEventScancode = 0x0004" | "input_event_type_code InputEventUnicode = 0x0005"
| "input_event_type_code InputEventMouse = 0x8001" | "input_event_type_code InputEventMousex = 0x8002"

record ts_input =
  ti_type :: input_event_type
  ti_message :: message

datatype pointer_flag =
    PtrflagsHwheel | PtrflagsWheel | PtrflagsWheelNegative | WheelRotationMask | PtrflagsMove | PtrflagsDown
  | PtrflagsButton1 | PtrflagsButton2 | PtrflagsButton3

fun pointer_flag_code :: "pointer_flag \<Rightarrow> u16" where
  "pointer_flag_code PtrflagsHwheel = 0x0400" | "pointer_flag_code PtrflagsWheel = 0x0200"
| "pointer_flag_code PtrflagsWheelNegative = 0x0100" | "pointer_flag_code WheelRotationMask = 0x01FF"
| "pointer_flag_code PtrflagsMove = 0x0800" | "pointer_flag_code PtrflagsDown = 0x8000"
| "pointer_flag_code PtrflagsButton1 = 0x1000" | "pointer_flag_code PtrflagsButton2 = 0x2000"
| "pointer_flag_code PtrflagsButton3 = 0x4000"

definition ts_input_event :: "input_event_type option \<Rightarrow> u8 list option \<Rightarrow> message" where
  "ts_input_event message_type data = MComponent [
     (''eventTime'', MU32 (LE 0)),
     (''messageType'', MU16 (LE (input_event_type_code (unwrap_or message_type InputEventMouse)))),
     (''slowPathInputData'', MSlice (unwrap_or data []))]"

definition ts_input_pdu_data :: "(message list \<times> message option) option \<Rightarrow> data_pdu" where
  "ts_input_pdu_data events = (let (ms, f) = unwrap_or events ([], Some (ts_input_event None None)) in
     \<lparr>data_kind = Pdutype2Input, data_message = MComponent [
     (''numEvents'', MU16 (LE (of_nat (length ms)))),
     (''pad2Octets'', MU16 (LE 0)),
     (''slowPathInputEvents'', MArray ms f)]\<rparr>)"

definition ts_pointer_event :: "u16 option \<Rightarrow> u16 option \<Rightarrow> u16 option \<Rightarrow> ts_input" where
  "ts_pointer_event flags x y = \<lparr>ti_type = InputEventMouse, ti_message = MComponent [
     (''pointerFlags'', MU16 (LE (unwrap_or flags 0))),
     (''xPos'', MU16 (LE (unwrap_or x 0))), (''yPos'', MU16 (LE (unwrap_or y 0)))]\<rparr>"

datatype keyboard_flag = KbdflagsExtended | KbdflagsDown | KbdflagsRelease

fun keyboard_flag_code :: "keyboard_flag \<Rightarrow> u16" where
  "keyboard_flag_code KbdflagsExtended = 0x0100" | "keyboard_flag_code KbdflagsDown = 0x4000"
| "keyboard_flag_code KbdflagsRelease = 0x8000"

definition ts_keyboard_event :: "u16 option \<Rightarrow> u16 option \<Rightarrow> ts_input" where
  "ts_keyboard_event flags key_code = \<lparr>ti_type = InputEventScancode, ti_message = MComponent [
     (''keyboardFlags'', MU16 (LE (unwrap_or flags 0))),
     (''keyCode'', MU16 (LE (unwrap_or key_code 0))), (''pad2Octets'', MU16 (LE 0))]\<rparr>"

subsection \<open>Fast path updates\<close>

definition ts_fp_update :: message where
  "ts_fp_update = MComponent [
     (''updateHeader'', MDyn (MU8 0) (\<lambda>v. Ok (
        if drop_bit 4 (view_u8 v) AND 2 = 0 then SkipField ''compressionFlags'' else NoOption))),
     (''compressionFlags'', MU8 0),
     (''size'', MDyn (MU16 (LE 0)) (sized ''updateData'' 0)),
     (''updateData'', MSlice [])]"

datatype fp_update_type =
    FastpathUpdatetypeOrders | FastpathUpdatetypeBitmap | FastpathUpdatetypePalette | FastpathUpdatetypeSynchronize
  | FastpathUpdatetypeSurfcmds | FastpathUpdatetypePtrNull | FastpathUpdatetypePtrDefault
  | FastpathUpdatetypePtrPosition | FastpathUpdatetypeColor | FastpathUpdatetypeCached
  | FastpathUpdatetypePointer | FastpathUpdatetypeUnknown

definition fp_update_type_of :: "u8 \<Rightarrow> fp_update_type outcome" where
  "fp_update_type_of b = (if b = 0 then Ok FastpathUpdatetypeOrders else if b = 1 then Ok FastpathUpdatetypeBitmap
     else if b = 2 then Ok FastpathUpdatetypePalette else if b = 3 then Ok FastpathUpdatetypeSynchronize
     else if b = 4 then Ok FastpathUpdatetypeSurfcmds else if b = 5 then Ok FastpathUpdatetypePtrNull
     else if b = 6 then Ok FastpathUpdatetypePtrDefault else if b = 8 then Ok FastpathUpdatetypePtrPosition
     else if b = 9 then Ok FastpathUpdatetypeColor else if b = 0xA then Ok FastpathUpdatetypeCached
     else if b = 0xB then Ok FastpathUpdatetypePointer else if b = 0xC then Ok FastpathUpdatetypeUnknown
     else Err (rdp_err InvalidCast))"

record fp_update =
  fp_type :: fp_update_type
  fp_message :: message

definition ts_cd_header :: message where
  "ts_cd_header = MComponent [
     (''cbCompFirstRowSize'', MCheck (MU16 (LE 0))), (''cbCompMainBodySize'', MU16 (LE 0)),
     (''cbScanWidth'', MU16 (LE 0)), (''cbUncompressedSize'', MU16 (LE 0))]"

datatype bitmap_flag = BitmapCompression | NoBitmapComprHdr

fun bitmap_flag_code :: "bitmap_flag \<Rightarrow> u16" where
  "bitmap_flag_code BitmapCompression = 0x0001" | "bitmap_flag_code NoBitmapComprHdr = 0x0400"

definition ts_bitmap_data :: message where
  "ts_bitmap_data = MComponent [
     (''destLeft'', MU16 (LE 0)), (''destTop'', MU16 (LE 0)),
     (''destRight'', MU16 (LE 0)), (''destBottom'', MU16 (LE 0)),
     (''width'', MU16 (LE 0)), (''height'', MU16 (LE 0)), (''bitsPerPixel'', MU16 (LE 0)),
     (''flags'', MDyn (MU16 (LE 0)) (\<lambda>v. Ok (
        if view_u16 v AND bitmap_flag_code BitmapCompression = 0 \<or> view_u16 v AND bitmap_flag_code NoBitmapComprHdr \<noteq> 0
        then SkipField ''bitmapComprHdr'' else NoOption))),
     (''bitmapLength'', MDyn (MU16 (LE 0)) (sized ''bitmapDataStream'' 0)),
     (''bitmapComprHdr'', MDyn ts_cd_header (\<lambda>v. bindo (view_field v ''cbCompMainBodySize'') (\<lambda>w.
        Ok (Size ''bitmapDataStream'' (unat (view_u16 w)))))),
     (''bitmapDataStream'', MSlice [])]"

definition ts_fp_update_bitmap :: fp_update where
  "ts_fp_update_bitmap = \<lparr>fp_type = FastpathUpdatetypeBitmap, fp_message = MComponent [
     (''header'', MCheck (MU16 (LE 1))),
     (''numberRectangles'', MU16 (LE 0)),
     (''rectangles'', MArray [] (Some ts_bitmap_data))]\<rparr>"

definition ts_colorpointerattribute :: fp_update where
  "ts_colorpointerattribute = \<lparr>fp_type = FastpathUpdatetypeColor, fp_message = MComponent [
     (''cacheIndex '', MU16 (LE 0)), (''hotSpot '', MU32 (LE 0)),
     (''width'', MU16 (LE 0)), (''height'', MU16 (LE 0)),
     (''lengthAndMask'', MDyn (MU16 (LE 0)) (sized ''andMaskData'' 0)),
     (''lengthXorMask'', MDyn (MU16 (LE 0)) (sized ''xorMaskData'' 0)),
     (''xorMaskData'', MSlice []), (''andMaskData'', MSlice []),
     (''pad'', MOpt (Some (MU8 0)))]\<rparr>"

definition ts_fp_update_synchronize :: fp_update where
  "ts_fp_update_synchronize = \<lparr>fp_type = FastpathUpdatetypeSynchronize, fp_message = MComponent []\<rparr>"

definition ts_fp_systempointerhiddenattribute :: fp_update where
  "ts_fp_systempointerhiddenattribute = \<lparr>fp_type = FastpathUpdatetypePtrNull, fp_message = MComponent []\<rparr>"

definition from_fp :: "message \<Rightarrow> fp_update outcome" where
  "from_fp fast_path = bindo (bindo (field fast_path ''updateHeader'') cast_u8) (\<lambda>h.
     bindo (fp_update_type_of (h AND 0xf)) (\<lambda>t.
     bindo (case t of
         FastpathUpdatetypeBitmap \<Rightarrow> Ok ts_fp_update_bitmap
       | FastpathUpdatetypeColor \<Rightarrow> Ok ts_colorpointerattribute
       | FastpathUpdatetypeSynchronize \<Rightarrow> Ok ts_fp_update_synchronize
       | FastpathUpdatetypePtrNull \<Rightarrow> Ok ts_fp_systempointerhiddenattribute
       | _ \<Rightarrow> Err (rdp_err NotImplemented)) (\<lambda>r.
     bindo (bindo (field fast_path ''updateData'') cast_slice) (\<lambda>bs.
     bindo (on_buffer (read_msg (fp_message r)) bs) (\<lambda>m. Ok (r\<lparr>fp_message := m\<rparr>))))))"

subsection \<open>The client of the global channel\<close>

datatype client_state =
    DemandActivePDU | SynchronizePDU | ControlCooperate | ControlGranted | FontMap | DataState

record global_client =
  g_state :: client_state
  g_user_id :: u16
  g_channel_id :: u16
  g_width :: u16
  g_height :: u16
  g_layout :: keyboard_layout
  g_share_id :: "u32 option"
  g_server_capabilities :: "capability list"
  g_name :: rstring

definition global_new :: "u16 \<Rightarrow> u16 \<Rightarrow> u16 \<Rightarrow> u16 \<Rightarrow> keyboard_layout \<Rightarrow> rstring \<Rightarrow> global_client" where
  "global_new user_id channel_id width height layout name = \<lparr>g_state = DemandActivePDU, g_user_id = user_id,
     g_channel_id = channel_id, g_width = width, g_height = height, g_layout = layout, g_share_id = None,
     g_server_capabilities = [], g_name = name\<rparr>"

text \<open>\<open>match r { Ok(a) => .., Err(e) => println!(..) }\<close>: an error is printed, a panic is not caught.\<close>

fun caught :: "'a outcome \<Rightarrow> 'a option outcome" where
  "caught (Ok a) = Ok (Some a)"
| "caught (Err e) = Ok None"
| "caught (Panic p) = Panic p"
| "caught Diverge = Diverge"

subsection \<open>Reading\<close>

primrec store_capabilities :: "message list \<Rightarrow> (global_client, unit) prog" where
  "store_capabilities [] = retp ()"
| "store_capabilities (m # ms) = bindp (liftp (cast_component m)) (\<lambda>cset.
     bindp (liftp (caught (from_capability_set cset))) (\<lambda>capability.
     bindp (case capability of
         Some c \<Rightarrow> modp (\<lambda>g. g\<lparr>g_server_capabilities := g_server_capabilities g @ [c]\<rparr>)
       | None \<Rightarrow> retp ()) (\<lambda>_. store_capabilities ms)))"

definition read_demand_active_pdu :: "u8 list \<Rightarrow> (global_client, bool) prog" where
  "read_demand_active_pdu stream = bindp (liftp (on_buffer pdu_from_stream stream)) (\<lambda>p.
     if pdu_kind p = PdutypeDemandactivepdu then
       bindp (liftp (bindo (field (pdu_message p) ''capabilitySets'') cast_trame)) (\<lambda>sets.
       bindp (store_capabilities sets) (\<lambda>_.
       bindp (liftp (bindo (field (pdu_message p) ''shareId'') cast_u32)) (\<lambda>share_id.
       bindp (modp (\<lambda>g. g\<lparr>g_share_id := Some share_id\<rparr>)) (\<lambda>_. retp True))))
     else retp False)"

definition read_synchronize_pdu :: "u8 list \<Rightarrow> bool outcome" where
  "read_synchronize_pdu stream = bindo (on_buffer pdu_from_stream stream) (\<lambda>p.
     if pdu_kind p \<noteq> PdutypeDatapdu then Ok False
     else bindo (data_pdu_from_pdu p) (\<lambda>d. Ok (data_kind d = Pdutype2Synchronize)))"

definition read_control_pdu :: "u8 list \<Rightarrow> ctrl_action \<Rightarrow> bool outcome" where
  "read_control_pdu stream action = bindo (on_buffer pdu_from_stream stream) (\<lambda>p.
     if pdu_kind p \<noteq> PdutypeDatapdu then Ok False
     else bindo (data_pdu_from_pdu p) (\<lambda>d.
       if data_kind d \<noteq> Pdutype2Control then Ok False
       else bindo (bindo (field (data_message d) ''action'') cast_u16) (\<lambda>a.
         if a \<noteq> ctrl_action_code action then Err (rdp_err UnexpectedType) else Ok True)))"

definition read_font_map_pdu :: "u8 list \<Rightarrow> bool outcome" where
  "read_font_map_pdu stream = bindo (on_buffer pdu_from_stream stream) (\<lambda>p.
     if pdu_kind p \<noteq> PdutypeDatapdu then Ok False
     else bindo (data_pdu_from_pdu p) (\<lambda>d. Ok (data_kind d = Pdutype2Fontmap)))"

definition handle_pdu :: "message \<Rightarrow> (global_client, unit) prog" where
  "handle_pdu m = bindp (liftp (bindo (cast_component m) pdu_from_control)) (\<lambda>p.
     if pdu_kind p = PdutypeDeactivateallpdu then modp (\<lambda>g. g\<lparr>g_state := DemandActivePDU\<rparr>)
     else if pdu_kind p \<noteq> PdutypeDatapdu then retp ()
     else bindp (liftp (caught (data_pdu_from_pdu p))) (\<lambda>data_pdu. case data_pdu of
         Some d \<Rightarrow> if data_kind d = Pdutype2SetErrorInfoPdu
           then bindp (liftp (bindo (field (data_message d) ''errorInfo'') cast_u32)) (\<lambda>_. retp ()) else retp ()
       | None \<Rightarrow> retp ()))"

primrec handle_pdus :: "message list \<Rightarrow> (global_client, unit) prog" where
  "handle_pdus [] = retp ()"
| "handle_pdus (m # ms) = bindp (handle_pdu m) (\<lambda>_. handle_pdus ms)"

text \<open>The elements of an array.\<close>

definition array_inner :: "message \<Rightarrow> message list outcome" where
  "array_inner m = cast_trame m"

definition read_data_pdu :: "u8 list \<Rightarrow> (global_client, unit) prog" where
  "read_data_pdu stream = bindp (liftp (bindo (share_control_header None None None) (\<lambda>factory.
       bindo (on_buffer (read_msg (MArray [] (Some factory))) stream) array_inner))) handle_pdus"

definition bitmap_of_rectangle :: "message \<Rightarrow> bitmap_event outcome" where
  "bitmap_of_rectangle rectangle = bindo (cast_component rectangle) (\<lambda>bitmap.
     let u16_field = (\<lambda>name. bindo (field bitmap name) cast_u16) in
     bindo (u16_field ''destLeft'') (\<lambda>dest_left. bindo (u16_field ''destTop'') (\<lambda>dest_top.
     bindo (u16_field ''destRight'') (\<lambda>dest_right. bindo (u16_field ''destBottom'') (\<lambda>dest_bottom.
     bindo (u16_field ''width'') (\<lambda>width. bindo (u16_field ''height'') (\<lambda>height.
     bindo (u16_field ''bitsPerPixel'') (\<lambda>bpp. bindo (u16_field ''flags'') (\<lambda>flags.
     bindo (bindo (field bitmap ''bitmapDataStream'') cast_slice) (\<lambda>data.
     Ok \<lparr>b_dest_left = dest_left, b_dest_top = dest_top, b_dest_right = dest_right, b_dest_bottom = dest_bottom,
       b_width = width, b_height = height, b_bpp = bpp,
       b_is_compress = (flags AND bitmap_flag_code BitmapCompression \<noteq> 0), b_data = data\<rparr>))))))))))"

primrec emit_bitmaps :: "message list \<Rightarrow> (rdp_event list, unit) prog" where
  "emit_bitmaps [] = retp ()"
| "emit_bitmaps (r # rs) = bindp (liftp (bitmap_of_rectangle r)) (\<lambda>b.
     bindp (modp (\<lambda>es. es @ [Bitmap b])) (\<lambda>_. emit_bitmaps rs))"

primrec handle_updates :: "message list \<Rightarrow> (rdp_event list, unit) prog" where
  "handle_updates [] = retp ()"
| "handle_updates (m # ms) = bindp (liftp (bindo (cast_component m) (\<lambda>c. caught (from_fp c)))) (\<lambda>order.
     bindp (case order of
         Some u \<Rightarrow> if fp_type u = FastpathUpdatetypeBitmap
           then bindp (liftp (bindo (field (fp_message u) ''rectangles'') cast_trame)) emit_bitmaps else retp ()
       | None \<Rightarrow> retp ()) (\<lambda>_. handle_updates ms))"

definition read_fast_path :: "u8 list \<Rightarrow> (rdp_event list, unit) prog" where
  "read_fast_path stream = bindp (liftp (bindo (on_buffer (read_msg (MArray [] (Some ts_fp_update))) stream) array_inner))
     handle_updates"

subsection \<open>Writing\<close>

definition write_pdu :: "global_client \<Rightarrow> pdu \<Rightarrow> (mcs_client, unit) prog" where
  "write_pdu g p = bindp (liftp (bindo (to_vec (pdu_message p)) (\<lambda>bs.
       share_control_header (Some (pdu_kind p)) (Some (g_user_id g)) (Some bs)))) (mcs_write ''global'')"

definition write_data_pdu :: "global_client \<Rightarrow> data_pdu \<Rightarrow> (mcs_client, unit) prog" where
  "write_data_pdu g d = bindp (liftp (bindo (to_vec (data_message d)) (\<lambda>bs.
       share_data_header (g_share_id g) (Some (data_kind d)) (Some bs)))) (write_pdu g)"

definition client_capabilities :: "global_client \<Rightarrow> capability list" where
  "client_capabilities g = [
     ts_general_capability_set (Some (general_extra_flag_code LongCredentialsSupported
       OR general_extra_flag_code NoBitmapCompressionHdr OR general_extra_flag_code EncSaltedChecksum
       OR general_extra_flag_code FastpathOutputSupported)),
     ts_bitmap_capability_set (Some 0x0018) (Some (g_width g)) (Some (g_height g)),
     ts_order_capability_set (Some (order_flag_code NEGOTIATEORDERSUPPORT OR order_flag_code ZEROBOUNDSDELTASSUPPORT)),
     ts_bitmap_cache_capability_set,
     ts_pointer_capability_set,
     ts_sound_capability_set,
     ts_input_capability_set (Some (input_flag_code InputFlagScancodes OR input_flag_code InputFlagMousex
       OR input_flag_code InputFlagUnicode)) (Some (g_layout g)),
     ts_brush_capability_set,
     ts_glyph_capability_set,
     ts_offscreen_capability_set,
     ts_virtualchannel_capability_set,
     ts_multifragment_update_capability_ts]"

definition write_confirm_active_pdu :: "global_client \<Rightarrow> (mcs_client, unit) prog" where
  "write_confirm_active_pdu g = bindp (liftp (bindo (all_Ok (map (\<lambda>c. capability_set (Some c)) (client_capabilities g)))
       (\<lambda>sets. ts_confirm_active_pdu (g_share_id g) (Some (as_bytes (g_name g))) (Some (sets, None))))) (write_pdu g)"

definition write_client_finalize :: "global_client \<Rightarrow> (mcs_client, unit) prog" where
  "write_client_finalize g =
     bindp (write_data_pdu g (ts_synchronize_pdu (Some (g_channel_id g)))) (\<lambda>_.
     bindp (write_data_pdu g (ts_control_pdu (Some CtrlactionCooperate))) (\<lambda>_.
     bindp (write_data_pdu g (ts_control_pdu (Some CtrlactionRequestControl))) (\<lambda>_.
     write_data_pdu g ts_font_list_pdu)))"

definition write_input_event :: "global_client \<Rightarrow> ts_input \<Rightarrow> (mcs_client, unit) prog" where
  "write_input_event g event = (if g_state g = DataState
     then bindp (liftp (to_vec (ti_message event))) (\<lambda>bs.
       write_data_pdu g (ts_input_pdu_data (Some ([ts_input_event (Some (ti_type event)) (Some bs)], None))))
     else failp InvalidAutomata)"

subsection \<open>The state machine\<close>

record global_session =
  s_global :: global_client
  s_mcs :: mcs_client
  s_events :: "rdp_event list"

abbreviation on_global :: "(global_client, 'a) prog \<Rightarrow> (global_session, 'a) prog" where
  "on_global \<equiv> zoom s_global (\<lambda>g s. s\<lparr>s_global := g\<rparr>)"

abbreviation on_mcs :: "(mcs_client, 'a) prog \<Rightarrow> (global_session, 'a) prog" where
  "on_mcs \<equiv> zoom s_mcs (\<lambda>m s. s\<lparr>s_mcs := m\<rparr>)"

abbreviation on_events :: "(rdp_event list, 'a) prog \<Rightarrow> (global_session, 'a) prog" where
  "on_events \<equiv> zoom s_events (\<lambda>e s. s\<lparr>s_events := e\<rparr>)"

definition goto_if :: "bool \<Rightarrow> client_state \<Rightarrow> (global_session, unit) prog" where
  "goto_if b st = (if b then on_global (modp (\<lambda>g. g\<lparr>g_state := st\<rparr>)) else retp ())"

definition global_read :: "payload \<Rightarrow> (global_session, unit) prog" where
  "global_read payload = bindp (getp (g_state \<circ> s_global)) (\<lambda>state. case state of
       DemandActivePDU \<Rightarrow> bindp (liftp (raw_payload payload)) (\<lambda>stream.
         bindp (on_global (read_demand_active_pdu stream)) (\<lambda>b. if b then
           bindp (getp s_global) (\<lambda>g. bindp (on_mcs (write_confirm_active_pdu g)) (\<lambda>_.
           bindp (on_mcs (write_client_finalize g)) (\<lambda>_. goto_if True SynchronizePDU)))
         else retp ()))
     | SynchronizePDU \<Rightarrow> bindp (liftp (raw_payload payload)) (\<lambda>stream.
         bindp (liftp (read_synchronize_pdu stream)) (\<lambda>b. goto_if b ControlCooperate))
     | ControlCooperate \<Rightarrow> bindp (liftp (raw_payload payload)) (\<lambda>stream.
         bindp (liftp (read_control_pdu stream CtrlactionCooperate)) (\<lambda>b. goto_if b ControlGranted))
     | ControlGranted \<Rightarrow> bindp (liftp (raw_payload payload)) (\<lambda>stream.
         bindp (liftp (read_control_pdu stream CtrlactionGrantedControl)) (\<lambda>b. goto_if b FontMap))
     | FontMap \<Rightarrow> bindp (liftp (raw_payload payload)) (\<lambda>stream.
         bindp (liftp (read_font_map_pdu stream)) (\<lambda>b. goto_if b DataState))
     | DataState \<Rightarrow> (case payload of
           PRaw stream \<Rightarrow> on_global (read_data_pdu stream)
         | PFastPath sec_flag stream \<Rightarrow> on_events (read_fast_path stream)))"

end
