(* ===== verification/Global_Laws.thy ===== *)
theory Global_Laws imports Global begin

section \<open>Laws of the global channel\<close>

text \<open>
  What the state machine of the global channel guarantees: how it can end, which payloads
  move it, what it sends, and which events a fast path payload delivers.
\<close>

subsection \<open>How a read can end\<close>

abbreviation arith :: "panic set" where
  "arith \<equiv> {ArithOverflow}"

lemma wpo_sized [simp]: "wpo (sized name k v) (\<lambda>_. True) {ArithOverflow}"
  by (simp add: sized_def wpo_bindo subn_def)

lemma raw_set_tame: "tame arith (raw_set t l bs)" "min_size (raw_set 1 4 []) = 4"
  by (auto simp: raw_set_def wpo_bindo subn_def)

lemma demand_template:
  "ts_demand_active_pdu = Ok \<lparr>pdu_kind = PdutypeDemandactivepdu, pdu_message = MComponent [
     (''shareId'', MU32 (LE 0)),
     (''lengthSourceDescriptor'', MDyn (MU16 (LE 0)) (sized ''sourceDescriptor'' 0)),
     (''lengthCombinedCapabilities'', MDyn (MU16 (LE 0)) (sized ''capabilitySets'' 4)),
     (''sourceDescriptor'', MSlice []), (''numberCapabilities'', MU16 (LE 0)), (''pad2Octets'', MU16 (LE 0)),
     (''capabilitySets'', MArray [] (Some (raw_set 1 4 []))), (''sessionId'', MU32 (LE 0))]\<rparr>"
  by (simp add: ts_demand_active_pdu_def capability_set_None)

lemma control_template:
  "share_control_header None None None = Ok (MComponent [
     (''totalLength'', MDyn (MU16 (LE 6)) (sized ''pduMessage'' 6)), (''pduType'', MU16 (LE 0x11)),
     (''PDUSource'', MOpt (Some (MU16 (LE 0)))), (''pduMessage'', MSlice [])])"
  by (simp add: share_control_header_def slice_length_def addw_def)

lemma data_template:
  "share_data_header None None None = Ok \<lparr>pdu_kind = PdutypeDatapdu, pdu_message = MComponent [
     (''shareId'', MU32 (LE 0)), (''pad1'', MU8 0), (''streamId'', MU8 1),
     (''uncompressedLength'', MDyn (MU16 (LE 18)) (sized ''payload'' 18)),
     (''pduType2'', MU8 0x32), (''compressedType'', MU8 0), (''compressedLength'', MU16 (LE 0)), (''payload'', MSlice [])]\<rparr>"
  by (simp add: share_data_header_def slice_length_def addw_def)

lemma confirm_active_template:
  "ts_confirm_active_pdu None None None = Ok \<lparr>pdu_kind = PdutypeConfirmactivepdu, pdu_message = MComponent [
     (''shareId'', MU32 (LE 0)), (''originatorId'', MCheck (MU16 (LE 0x03EA))),
     (''lengthSourceDescriptor'', MDyn (MU16 (LE 0)) (sized ''sourceDescriptor'' 0)),
     (''lengthCombinedCapabilities'', MDyn (MU16 (LE 4)) (sized ''capabilitySets'' 4)),
     (''sourceDescriptor'', MSlice []), (''numberCapabilities'', MU16 (LE 0)), (''pad2Octets'', MU16 (LE 0)),
     (''capabilitySets'', MArray [] (Some (raw_set 1 4 [])))]\<rparr>"
  by (simp add: ts_confirm_active_pdu_def capability_set_None addw_def)

lemmas pdu_templates = demand_template control_template data_template confirm_active_template

text \<open>The named field of a component read from a template, and what it casts to.\<close>

lemma wpo_read_field:
  assumes "tame P (MComponent fs)"
    and "\<And>m. fst (read_msg (MComponent fs) bs) = Ok m \<Longrightarrow> Q m"
  shows "wpo (on_buffer (read_msg (MComponent fs)) bs) Q P"
  using guarded_outcome [OF safe_read_msg [OF assms(1)], of bs] assms(2)
  by (cases "fst (read_msg (MComponent fs) bs)") (auto simp: on_buffer_def)

definition casts_to :: "(message \<Rightarrow> 'a outcome) \<Rightarrow> string \<Rightarrow> message \<Rightarrow> bool" where
  "casts_to cast name m \<longleftrightarrow> (\<exists>x. bindo (field m name) cast = Ok x)"

lemma read_keeps_visit:
  "fst (read_msg (MU8 a) s) = Ok m \<Longrightarrow> \<exists>b. m = MU8 b"
  "fst (read_msg (MU16 v) s) = Ok m \<Longrightarrow> \<exists>w. m = MU16 w"
  "fst (read_msg (MU32 z) s) = Ok m \<Longrightarrow> \<exists>w. m = MU32 w"
  "fst (read_msg (MSlice xs) s) = Ok m \<Longrightarrow> \<exists>ys. m = MSlice ys"
  by (auto simp: retp_def dest!: fst_bindp_Ok)

lemma read_keeps_dyn:
  assumes "fst (read_msg (MDyn d f) s) = Ok m"
  shows "\<exists>u. m = MDyn u f \<and> fst (read_msg d s) = Ok u"
proof -
  obtain u t where "read_msg d s = (Ok u, t)" "m = MDyn u f"
    using fst_bindp_Ok [OF assms [unfolded read_msg.simps]] by (auto simp: retp_def)
  then show ?thesis by simp
qed

lemma read_keeps_array: "fst (read_msg (MArray zs (Some e)) s) = Ok m \<Longrightarrow> \<exists>ys. m = MArray ys (Some e)"
  using fst_bindp_Ok [of "array_read (read_msg e)" "\<lambda>x. retp (MArray (zs @ x) (Some e))" s m] by (auto simp: retp_def)

lemma casts_to_read:
  assumes "fst (read_msg (MComponent fs) s) = Ok m" "map_of fs name = Some t"
  shows "t = MU8 a \<Longrightarrow> casts_to cast_u8 name m" "t = MU16 v \<Longrightarrow> casts_to cast_u16 name m"
    "t = MU32 z \<Longrightarrow> casts_to cast_u32 name m" "t = MSlice xs \<Longrightarrow> casts_to cast_slice name m"
    "t = MArray ys (Some e) \<Longrightarrow> casts_to cast_trame name m"
    "t = MDyn (MU8 a) f \<Longrightarrow> casts_to cast_u8 name m" "t = MDyn (MU16 v) f \<Longrightarrow> casts_to cast_u16 name m"
    "t = MDyn (MU32 z) f \<Longrightarrow> casts_to cast_u32 name m"
proof -
  obtain x where x: "field m name = Ok x" "x = t \<or> (\<exists>u. fst (read_msg t u) = Ok x)"
    using read_field_shape [OF assms] by blast
  show "t = MU8 a \<Longrightarrow> casts_to cast_u8 name m" "t = MU16 v \<Longrightarrow> casts_to cast_u16 name m"
    "t = MU32 z \<Longrightarrow> casts_to cast_u32 name m" "t = MSlice xs \<Longrightarrow> casts_to cast_slice name m"
    "t = MArray ys (Some e) \<Longrightarrow> casts_to cast_trame name m"
    "t = MDyn (MU8 a) f \<Longrightarrow> casts_to cast_u8 name m" "t = MDyn (MU16 v) f \<Longrightarrow> casts_to cast_u16 name m"
    "t = MDyn (MU32 z) f \<Longrightarrow> casts_to cast_u32 name m"
    using x(2) by (auto simp: casts_to_def x(1) cast_u8_def cast_u16_def cast_u32_def cast_slice_def cast_trame_def
        simp del: read_msg.simps dest!: read_keeps_visit read_keeps_dyn read_keeps_array)
qed

lemma read_array_elements:
  assumes "fst (read_msg (MArray [] (Some e)) s) = Ok (MArray xs (Some e))" "x \<in> set xs"
  shows "\<exists>u. fst (read_msg e u) = Ok x"
proof -
  obtain t where "array_read (read_msg e) s = (Ok xs, t)"
    using fst_bindp_Ok [of "array_read (read_msg e)" "\<lambda>x. retp (MArray ([] @ x) (Some e))" s] assms(1) by (auto simp: retp_def)
  then show ?thesis using array_loop_elements assms(2) unfolding array_read_def by blast
qed

lemma read_raw_set_shape: "fst (read_msg (raw_set 1 4 []) s) = Ok m \<Longrightarrow> \<exists>t l bs. m = raw_set t l bs"
proof -
  assume a: "fst (read_msg (raw_set 1 4 []) s) = Ok m"
  have "4 \<le> length s"
    using consumesD [OF consumes_read_msg, of "raw_set 1 4 []" s] a raw_set_tame(2) by (cases "read_msg (raw_set 1 4 []) s") auto
  then obtain t0 t1 l0 l1 r where "s = t0 # t1 # l0 # l1 # r"
    by (auto simp: numeral_eq_Suc Suc_le_length_iff)
  then show ?thesis using a by (auto simp: read_raw_set Let_def split: if_splits)
qed

definition demand_shape :: "message \<Rightarrow> bool" where
  "demand_shape m \<longleftrightarrow> casts_to cast_u32 ''shareId'' m \<and>
     (\<exists>xs. bindo (field m ''capabilitySets'') cast_trame = Ok xs \<and> (\<forall>x \<in> set xs. \<exists>t l bs. x = raw_set t l bs))"

definition data_shape :: "message \<Rightarrow> bool" where
  "data_shape m \<longleftrightarrow> casts_to cast_u8 ''pduType2'' m \<and> casts_to cast_slice ''payload'' m"

definition pdu_shape :: "pdu \<Rightarrow> bool" where
  "pdu_shape p \<longleftrightarrow> (pdu_kind p = PdutypeDemandactivepdu \<longrightarrow> demand_shape (pdu_message p)) \<and>
     (pdu_kind p = PdutypeDatapdu \<longrightarrow> data_shape (pdu_message p))"

definition control_shape :: "message \<Rightarrow> bool" where
  "control_shape m \<longleftrightarrow> (\<exists>fs. m = MComponent fs) \<and> casts_to cast_u16 ''pduType'' m \<and> casts_to cast_slice ''pduMessage'' m"

lemma wpo_casts: "casts_to cast name m \<Longrightarrow> (\<And>x. Q x) \<Longrightarrow> wpo (bindo (field m name) cast) Q P"
  by (auto simp: casts_to_def)

lemma wpo_pdu_from_control:
  assumes "control_shape control"
  shows "wpo (pdu_from_control control) pdu_shape arith"
proof -
  have pdu: "wpo (bindo (bindo (field control ''pduMessage'') cast_slice) (\<lambda>bs.
      bindo (on_buffer (read_msg (MComponent fs)) bs) (\<lambda>m. Ok \<lparr>pdu_kind = k, pdu_message = m\<rparr>))) pdu_shape arith"
    if "tame arith (MComponent fs)" "\<And>m bs. fst (read_msg (MComponent fs) bs) = Ok m \<Longrightarrow> pdu_shape \<lparr>pdu_kind = k, pdu_message = m\<rparr>" for k fs
    unfolding wpo_bindo [of "bindo (field _ _) _"]
    using assms that by (intro wpo_casts) (auto simp: control_shape_def wpo_bindo [of "on_buffer _ _"] simp del: read_msg.simps intro!: wpo_read_field)
  have demand: "demand_shape m" if dem: "fst (read_msg (MComponent [
     (''shareId'', MU32 (LE 0)),
     (''lengthSourceDescriptor'', MDyn (MU16 (LE 0)) (sized ''sourceDescriptor'' 0)),
     (''lengthCombinedCapabilities'', MDyn (MU16 (LE 0)) (sized ''capabilitySets'' 4)),
     (''sourceDescriptor'', MSlice []), (''numberCapabilities'', MU16 (LE 0)), (''pad2Octets'', MU16 (LE 0)),
     (''capabilitySets'', MArray [] (Some (raw_set 1 4 []))), (''sessionId'', MU32 (LE 0))]) bs) = Ok m" for m bs
  proof -
    obtain x where x: "field m ''capabilitySets'' = Ok x"
      "x = MArray [] (Some (raw_set 1 4 [])) \<or> (\<exists>u. fst (read_msg (MArray [] (Some (raw_set 1 4 []))) u) = Ok x)"
      using read_field_shape [OF dem, of "''capabilitySets''"] by (auto simp del: read_msg.simps)
    have "\<exists>xs. x = MArray xs (Some (raw_set 1 4 [])) \<and> (\<forall>y \<in> set xs. \<exists>t l bs. y = raw_set t l bs)"
      using x(2)
    proof
      assume "\<exists>u. fst (read_msg (MArray [] (Some (raw_set 1 4 []))) u) = Ok x"
      then obtain u where u: "fst (read_msg (MArray [] (Some (raw_set 1 4 []))) u) = Ok x" ..
      obtain xs where xs: "x = MArray xs (Some (raw_set 1 4 []))" using read_keeps_array [OF u] ..
      show ?thesis using xs read_array_elements [OF u [unfolded xs]] read_raw_set_shape by blast
    qed simp
    moreover have "casts_to cast_u32 ''shareId'' m" by (rule casts_to_read(3) [OF dem]) simp_all
    ultimately show ?thesis using x(1) by (auto simp: demand_shape_def cast_trame_def)
  qed
  have data: "data_shape m" if "fst (read_msg (MComponent [
     (''shareId'', MU32 (LE 0)), (''pad1'', MU8 0), (''streamId'', MU8 1),
     (''uncompressedLength'', MDyn (MU16 (LE 18)) (sized ''payload'' 18)),
     (''pduType2'', MU8 0x32), (''compressedType'', MU8 0), (''compressedLength'', MU16 (LE 0)), (''payload'', MSlice [])]) bs) = Ok m" for m bs
    unfolding data_shape_def
    by (intro conjI; rule casts_to_read(1) [OF that] casts_to_read(4) [OF that]; simp)
  show ?thesis
    unfolding pdu_from_control_def wpo_bindo [of "bindo (field _ ''pduType'') _"] wpo_bindo [of "pdu_type_of _"]
    by (intro wpo_casts) (use assms in \<open>simp add: control_shape_def\<close>,
      auto simp: pdu_type_of_def pdu_templates ts_deactivate_all_pdu_def
        pdu_shape_def raw_set_tame simp del: read_msg.simps intro!: pdu demand data)
qed

lemma control_header_shape:
  assumes "fst (read_msg (MComponent [
     (''totalLength'', MDyn (MU16 (LE 6)) (sized ''pduMessage'' 6)), (''pduType'', MU16 (LE 0x11)),
     (''PDUSource'', MOpt (Some (MU16 (LE 0)))), (''pduMessage'', MSlice [])]) bs) = Ok m"
  shows "control_shape m"
  unfolding control_shape_def
  using read_component_shape [OF assms] casts_to_read(2) [OF assms] casts_to_read(4) [OF assms] by auto

lemma tame_control: "tame arith (MComponent [
     (''totalLength'', MDyn (MU16 (LE 6)) (sized ''pduMessage'' 6)), (''pduType'', MU16 (LE 0x11)),
     (''PDUSource'', MOpt (Some (MU16 (LE 0)))), (''pduMessage'', MSlice [])])"
  by simp

lemma wpo_pdu_from_stream: "wpo (on_buffer pdu_from_stream bs) pdu_shape arith"
  unfolding pdu_from_stream_def control_template wpo_on_buffer bindp_liftp_Ok wp_bindp
proof (rule safeD [OF safe_read_msg [OF tame_control]])
  fix m t
  assume "read_msg (MComponent [
     (''totalLength'', MDyn (MU16 (LE 6)) (sized ''pduMessage'' 6)), (''pduType'', MU16 (LE 0x11)),
     (''PDUSource'', MOpt (Some (MU16 (LE 0)))), (''pduMessage'', MSlice [])]) bs = (Ok m, t)"
  then have "control_shape m" by (intro control_header_shape [of bs]) (simp del: read_msg.simps)
  then show "wp (liftp (pdu_from_control m)) (\<lambda>a r. pdu_shape a) arith t"
    unfolding wp_liftp_wpo by (rule wpo_pdu_from_control)
qed

definition data_pdu_shape :: "data_pdu \<Rightarrow> bool" where
  "data_pdu_shape d \<longleftrightarrow> (data_kind d = Pdutype2Control \<longrightarrow> casts_to cast_u16 ''action'' (data_message d)) \<and>
     (data_kind d = Pdutype2SetErrorInfoPdu \<longrightarrow> casts_to cast_u32 ''errorInfo'' (data_message d))"

lemma calm_data_pdu_from_pdu:
  assumes "pdu_shape p" "pdu_kind p = PdutypeDatapdu"
  shows "wpo (data_pdu_from_pdu p) data_pdu_shape {}"
proof -
  note casts = assms [unfolded pdu_shape_def data_shape_def]
  have pdu: "wpo (bindo (bindo (field (pdu_message p) ''payload'') cast_slice) (\<lambda>bs.
      bindo (on_buffer (read_msg (MComponent fs)) bs) (\<lambda>m. Ok \<lparr>data_kind = k, data_message = m\<rparr>))) data_pdu_shape {}"
    if "quiet (MComponent fs)" "\<And>m bs. fst (read_msg (MComponent fs) bs) = Ok m \<Longrightarrow> data_pdu_shape \<lparr>data_kind = k, data_message = m\<rparr>" for k fs
    unfolding wpo_bindo [of "bindo (field _ _) _"]
    using casts that by (intro wpo_casts) (auto simp: wpo_bindo [of "on_buffer _ _"] simp del: read_msg.simps intro!: wpo_read_field)
  have ctrl: "casts_to cast_u16 ''action'' m" if "fst (read_msg (MComponent [
     (''action'', MU16 (LE 4)), (''grantId'', MU16 (LE 0)), (''controlId'', MU32 (LE 0))]) bs) = Ok m" for m bs
    by (rule casts_to_read(2) [OF that]) simp_all
  have einfo: "casts_to cast_u32 ''errorInfo'' m" if "fst (read_msg (MComponent [(''errorInfo'', MU32 (LE 0))]) bs) = Ok m" for m bs
    by (rule casts_to_read(3) [OF that]) simp_all
  show ?thesis
    unfolding data_pdu_from_pdu_def wpo_bindo [of "bindo (field _ ''pduType2'') _"] wpo_bindo [of "pdu_type2_of _"]
  proof (rule wpo_casts)
    show "casts_to cast_u8 ''pduType2'' (pdu_message p)" using casts by simp
    fix c
    show "wpo (pdu_type2_of c) (\<lambda>t. wpo (bindo (case t of
         Pdutype2Synchronize \<Rightarrow> Ok (ts_synchronize_pdu None)
       | Pdutype2Control \<Rightarrow> Ok (ts_control_pdu None)
       | Pdutype2Fontlist \<Rightarrow> Ok ts_font_list_pdu
       | Pdutype2Fontmap \<Rightarrow> Ok ts_font_map_pdu
       | Pdutype2SetErrorInfoPdu \<Rightarrow> Ok ts_set_error_info_pdu
       | _ \<Rightarrow> Err (rdp_err NotImplemented)) (\<lambda>r.
     bindo (bindo (field (pdu_message p) ''payload'') cast_slice) (\<lambda>bs.
     bindo (on_buffer (read_msg (data_message r)) bs) (\<lambda>m. Ok (r\<lparr>data_message := m\<rparr>))))) data_pdu_shape {}) {}"
    proof (cases "pdu_type2_of c")
      case (Ok t)
      then show ?thesis
        by (cases t) (auto simp: ts_synchronize_pdu_def ts_control_pdu_def ts_font_list_pdu_def
          ts_font_map_pdu_def ts_set_error_info_pdu_def data_pdu_shape_def
          simp del: read_msg.simps intro!: pdu ctrl einfo)
    qed (auto simp: pdu_type2_of_def split: option.splits)
  qed
qed

lemma wpo_read_handshake:
  "wpo (read_synchronize_pdu bs) (\<lambda>_. True) arith"
  "wpo (read_control_pdu bs a) (\<lambda>_. True) arith"
  "wpo (read_font_map_pdu bs) (\<lambda>_. True) arith"
proof -
  have data: "wpo (bindo (on_buffer pdu_from_stream bs) (\<lambda>p. if pdu_kind p \<noteq> PdutypeDatapdu then Ok False
     else bindo (data_pdu_from_pdu p) f)) (\<lambda>_. True) arith"
    if "\<And>d. data_pdu_shape d \<Longrightarrow> wpo (f d) (\<lambda>_. True) arith" for f :: "data_pdu \<Rightarrow> bool outcome"
    unfolding wpo_bindo [of "on_buffer _ _"]
    by (rule wpo_mono [OF wpo_pdu_from_stream])
      (auto simp: wpo_bindo intro!: wpo_mono [OF calm_data_pdu_from_pdu] that)
  show "wpo (read_synchronize_pdu bs) (\<lambda>_. True) arith" "wpo (read_font_map_pdu bs) (\<lambda>_. True) arith"
    unfolding read_synchronize_pdu_def read_font_map_pdu_def by (rule data; simp)+
  show "wpo (read_control_pdu bs a) (\<lambda>_. True) arith"
    unfolding read_control_pdu_def by (rule data) (auto simp: data_pdu_shape_def casts_to_def)
qed

lemma caught_calm: "calm r \<Longrightarrow> \<exists>x. caught r = Ok x"
  by (auto simp: calm_iff)

lemma wp_store_capabilities:
  assumes "\<And>m. m \<in> set ms \<Longrightarrow> \<exists>t l bs. m = raw_set t l bs"
  shows "\<exists>cs. store_capabilities ms g = (Ok (), g\<lparr>g_server_capabilities := g_server_capabilities g @ cs\<rparr>)"
  using assms
proof (induction ms arbitrary: g)
  case (Cons m ms)
  obtain t l bs where m: "m = raw_set t l bs" using Cons.prems [of m] by auto
  have c: "cast_component m = Ok m" by (simp add: m raw_set_def cast_component_def)
  obtain x where x: "caught (from_capability_set m) = Ok x"
    using caught_calm [OF calm_from_capability_set] m by blast
  have IH: "\<exists>cs. store_capabilities ms h = (Ok (), h\<lparr>g_server_capabilities := g_server_capabilities h @ cs\<rparr>)" for h
    by (rule Cons.IH) (use Cons.prems in auto)
  show ?case
  proof (cases x)
    case None
    then show ?thesis using IH [of g] by (simp add: c x)
  next
    case (Some y)
    then show ?thesis using IH [of "g\<lparr>g_server_capabilities := g_server_capabilities g @ [y]\<rparr>"]
      by (auto simp: c x bindp_def modp_def)
  qed
qed (auto simp: retp_def intro!: exI [of _ "[]"])

text \<open>What a demand active PDU changes: the share id, and capabilities added to the known ones.\<close>

definition activated :: "global_client \<Rightarrow> global_client \<Rightarrow> bool" where
  "activated g h \<longleftrightarrow> (\<exists>i cs. h = g\<lparr>g_server_capabilities := g_server_capabilities g @ cs, g_share_id := Some i\<rparr>)"

lemma wp_read_demand_active:
  "wp (read_demand_active_pdu bs) (\<lambda>b h. if b then activated g h else h = g) arith g"
  unfolding read_demand_active_pdu_def wp_bindp [of "liftp (on_buffer _ _)"] wp_liftp_wpo
proof (rule wpo_mono [OF wpo_pdu_from_stream])
  fix p assume p: "pdu_shape p"
  show "wp (if pdu_kind p = PdutypeDemandactivepdu then
       bindp (liftp (bindo (field (pdu_message p) ''capabilitySets'') cast_trame)) (\<lambda>sets.
       bindp (store_capabilities sets) (\<lambda>_.
       bindp (liftp (bindo (field (pdu_message p) ''shareId'') cast_u32)) (\<lambda>share_id.
       bindp (modp (\<lambda>g. g\<lparr>g_share_id := Some share_id\<rparr>)) (\<lambda>_. retp True))))
     else retp False) (\<lambda>b h. if b then activated g h else h = g) arith g"
  proof (cases "pdu_kind p = PdutypeDemandactivepdu")
    case True
    obtain xs i where xs: "bindo (field (pdu_message p) ''capabilitySets'') cast_trame = Ok xs"
      "\<And>x. x \<in> set xs \<Longrightarrow> \<exists>t l bs. x = raw_set t l bs" "bindo (field (pdu_message p) ''shareId'') cast_u32 = Ok i"
      using p True by (auto simp: pdu_shape_def demand_shape_def casts_to_def)
    obtain cs where "store_capabilities xs g = (Ok (), g\<lparr>g_server_capabilities := g_server_capabilities g @ cs\<rparr>)"
      using wp_store_capabilities [OF xs(2)] by blast
    then show ?thesis using True xs(1,3) by (auto simp: activated_def wp_def bindp_def liftp_def modp_def retp_def)
  qed (simp add: wp_def retp_def)
qed simp

lemma wp_handle_pdu:
  assumes "control_shape m"
  shows "wp (handle_pdu m) (\<lambda>_ h. h = g \<or> h = g\<lparr>g_state := DemandActivePDU\<rparr>) arith g"
proof -
  have c: "cast_component m = Ok m" using assms by (auto simp: control_shape_def cast_component_def)
  show ?thesis
    unfolding handle_pdu_def wp_bindp [of "liftp _"] wp_liftp_wpo c bindo.simps
  proof (rule wpo_mono [OF wpo_pdu_from_control [OF assms]])
    fix p assume p: "pdu_shape p"
    show "wp (if pdu_kind p = PdutypeDeactivateallpdu then modp (\<lambda>g. g\<lparr>g_state := DemandActivePDU\<rparr>)
       else if pdu_kind p \<noteq> PdutypeDatapdu then retp ()
       else bindp (liftp (caught (data_pdu_from_pdu p))) (\<lambda>data_pdu. case data_pdu of
         Some d \<Rightarrow> if data_kind d = Pdutype2SetErrorInfoPdu
           then bindp (liftp (bindo (field (data_message d) ''errorInfo'') cast_u32)) (\<lambda>_. retp ()) else retp ()
       | None \<Rightarrow> retp ())) (\<lambda>_ h. h = g \<or> h = g\<lparr>g_state := DemandActivePDU\<rparr>) arith g"
      using wpo_outcome [OF calm_data_pdu_from_pdu [OF p]]
      by (auto simp: wp_simps wp_def modp_def retp_def data_pdu_shape_def casts_to_def split: if_splits)
  qed simp
qed

lemma wp_handle_pdus:
  "(\<And>m. m \<in> set ms \<Longrightarrow> control_shape m) \<Longrightarrow>
   wp (handle_pdus ms) (\<lambda>_ h. h = g \<or> h = g\<lparr>g_state := DemandActivePDU\<rparr>) arith g"
proof (induction ms arbitrary: g)
  case (Cons m ms)
  show ?case
    unfolding handle_pdus.simps wp_bindp
    by (rule wp_mono [OF wp_handle_pdu])
      (use Cons in \<open>auto intro!: wp_mono [OF Cons.IH]\<close>)
qed (simp add: wp_retp)

text \<open>The elements of an array read from a tame template.\<close>

lemma wpo_array_inner:
  assumes "tame P (MArray [] (Some e))" "\<And>x u. fst (read_msg e u) = Ok x \<Longrightarrow> Q x"
  shows "wpo (bindo (on_buffer (read_msg (MArray [] (Some e))) bs) array_inner) (\<lambda>xs. \<forall>x \<in> set xs. Q x) P"
  unfolding wpo_bindo wpo_on_buffer
proof (rule safeD [OF safe_read_msg [OF assms(1)]])
  fix m t assume "read_msg (MArray [] (Some e)) bs = (Ok m, t)"
  then have m: "fst (read_msg (MArray [] (Some e)) bs) = Ok m" by (simp del: read_msg.simps)
  obtain xs where xs: "m = MArray xs (Some e)" using read_keeps_array [OF m] by blast
  then show "wpo (array_inner m) (\<lambda>xs. \<forall>x \<in> set xs. Q x) P"
    using read_array_elements [OF m [unfolded xs]] assms(2)
    by (auto simp: array_inner_def cast_trame_def simp del: read_msg.simps)
qed

lemma wp_read_data_pdu:
  "wp (read_data_pdu bs) (\<lambda>_ h. h = g \<or> h = g\<lparr>g_state := DemandActivePDU\<rparr>) arith g"
  unfolding read_data_pdu_def control_template wp_bindp wp_liftp_wpo bindo.simps
  by (rule wpo_mono [OF wpo_array_inner [where Q = control_shape and P = arith]])
    (auto simp del: read_msg.simps intro!: wp_handle_pdus dest!: control_header_shape)

text \<open>An array field read as part of a component.\<close>

lemma read_array_field:
  assumes "fst (read_msg (MComponent fs) s) = Ok m" "map_of fs name = Some (MArray [] (Some e))"
  shows "\<exists>xs. bindo (field m name) cast_trame = Ok xs \<and> (\<forall>x \<in> set xs. \<exists>u. fst (read_msg e u) = Ok x)"
proof -
  obtain x where x: "field m name = Ok x" "x = MArray [] (Some e) \<or> (\<exists>u. fst (read_msg (MArray [] (Some e)) u) = Ok x)"
    using read_field_shape [OF assms] by blast
  from x(2) show ?thesis
  proof
    assume "\<exists>u. fst (read_msg (MArray [] (Some e)) u) = Ok x"
    then obtain u where u: "fst (read_msg (MArray [] (Some e)) u) = Ok x" ..
    obtain xs where xs: "x = MArray xs (Some e)" using read_keeps_array [OF u] ..
    show ?thesis using x(1) xs read_array_elements [OF u [unfolded xs]] by (simp add: cast_trame_def)
  qed (simp add: x(1) cast_trame_def)
qed

subsubsection \<open>The fast path\<close>

definition fp_shape :: "message \<Rightarrow> bool" where
  "fp_shape m \<longleftrightarrow> (\<exists>fs. m = MComponent fs) \<and> casts_to cast_u8 ''updateHeader'' m \<and> casts_to cast_slice ''updateData'' m"

definition rectangle_shape :: "message \<Rightarrow> bool" where
  "rectangle_shape m \<longleftrightarrow> (\<exists>fs. m = MComponent fs) \<and> (\<forall>name \<in> {''destLeft'', ''destTop'', ''destRight'', ''destBottom'',
     ''width'', ''height'', ''bitsPerPixel'', ''flags''}. casts_to cast_u16 name m) \<and> casts_to cast_slice ''bitmapDataStream'' m"

lemma read_fp_update_shape: "fst (read_msg ts_fp_update s) = Ok m \<Longrightarrow> fp_shape m"
  unfolding ts_fp_update_def fp_shape_def
  by (intro conjI, use read_component_shape in blast, erule casts_to_read(6), simp, simp, erule casts_to_read(4), simp_all)

lemma read_rectangle_shape:
  assumes "fst (read_msg ts_bitmap_data s) = Ok m" shows "rectangle_shape m"
proof -
  note a = assms [unfolded ts_bitmap_data_def]
  have plain: "casts_to cast_u16 name m"
    if "name \<in> {''destLeft'', ''destTop'', ''destRight'', ''destBottom'', ''width'', ''height'', ''bitsPerPixel''}" for name
    using that by (elim insertE emptyE; hypsubst; intro casts_to_read(2) [OF a]; simp)
  have flags: "casts_to cast_u16 ''flags'' m" by (intro casts_to_read(7) [OF a]; simp)
  have "casts_to cast_slice ''bitmapDataStream'' m" by (intro casts_to_read(4) [OF a]; simp)
  then show ?thesis
    using plain flags read_component_shape [OF a] by (auto simp: rectangle_shape_def simp del: read_msg.simps)
qed

lemma bitmap_of_rectangle_Ok: "rectangle_shape m \<Longrightarrow> \<exists>b. bitmap_of_rectangle m = Ok b"
  by (auto simp: rectangle_shape_def casts_to_def bitmap_of_rectangle_def cast_component_def Let_def)

definition update_shape :: "fp_update \<Rightarrow> bool" where
  "update_shape u \<longleftrightarrow> (fp_type u = FastpathUpdatetypeBitmap \<longrightarrow>
     (\<exists>xs. bindo (field (fp_message u) ''rectangles'') cast_trame = Ok xs \<and> (\<forall>x \<in> set xs. rectangle_shape x)))"

lemma tame_fast_path: "quiet (MArray [] (Some ts_fp_update))" "quiet (fp_message ts_fp_update_bitmap)" "quiet (fp_message ts_colorpointerattribute)"
proof -
  have cd: "wpo (view_field v ''cbCompMainBodySize'') (\<lambda>_. True) {}" if "view_fits ts_cd_header v" for v
    using view_fits_field [OF that [unfolded ts_cd_header_def], of "''cbCompMainBodySize''"] by auto
  have "quiet ts_bitmap_data"
    using cd by (auto simp: ts_bitmap_data_def sized_def wpo_bindo) (simp_all add: ts_cd_header_def)
  then show "quiet (MArray [] (Some ts_fp_update))" "quiet (fp_message ts_fp_update_bitmap)" "quiet (fp_message ts_colorpointerattribute)"
    by (auto simp: ts_fp_update_def ts_fp_update_bitmap_def ts_colorpointerattribute_def sized_def wpo_bindo)
      (simp add: ts_bitmap_data_def)
qed

lemma wpo_from_fp:
  assumes "fp_shape m"
  shows "wpo (from_fp m) update_shape {}"
proof -
  have upd: "wpo (bindo (bindo (field m ''updateData'') cast_slice) (\<lambda>bs.
      bindo (on_buffer (read_msg (MComponent fs)) bs) (\<lambda>x. Ok \<lparr>fp_type = k, fp_message = x\<rparr>))) update_shape {}"
    if "quiet (MComponent fs)" "\<And>x bs. fst (read_msg (MComponent fs) bs) = Ok x \<Longrightarrow> update_shape \<lparr>fp_type = k, fp_message = x\<rparr>" for k fs
    unfolding wpo_bindo [of "bindo (field _ _) _"]
    using assms that by (intro wpo_casts) (auto simp: fp_shape_def wpo_bindo [of "on_buffer _ _"] simp del: read_msg.simps intro!: wpo_read_field)
  have bitmap: "update_shape \<lparr>fp_type = FastpathUpdatetypeBitmap, fp_message = x\<rparr>" if rd: "fst (read_msg (MComponent [
     (''header'', MCheck (MU16 (LE 1))), (''numberRectangles'', MU16 (LE 0)),
     (''rectangles'', MArray [] (Some ts_bitmap_data))]) bs) = Ok x" for x bs
  proof -
    obtain xs where "bindo (field x ''rectangles'') cast_trame = Ok xs" "\<And>y. y \<in> set xs \<Longrightarrow> \<exists>u. fst (read_msg ts_bitmap_data u) = Ok y"
      using read_array_field [OF rd, of "''rectangles''"] by auto
    then show ?thesis using read_rectangle_shape by (fastforce simp: update_shape_def)
  qed
  have other: "update_shape \<lparr>fp_type = k, fp_message = x\<rparr>" if "k \<noteq> FastpathUpdatetypeBitmap" for k x
    using that by (simp add: update_shape_def)
  have none: "quiet (MComponent [])" by simp
  note quiet = tame_fast_path [unfolded ts_fp_update_bitmap_def ts_colorpointerattribute_def, simplified fp_update.simps]
  show ?thesis
    unfolding from_fp_def wpo_bindo [of "bindo (field _ ''updateHeader'') _"] wpo_bindo [of "fp_update_type_of _"]
    by (intro wpo_casts) (use assms in \<open>simp add: fp_shape_def\<close>,
      auto simp: fp_update_type_of_def ts_fp_update_bitmap_def ts_colorpointerattribute_def
        ts_fp_update_synchronize_def ts_fp_systempointerhiddenattribute_def
        simp del: read_msg.simps tame.simps intro!: upd bitmap quiet none intro: other)
qed

lemma emit_bitmaps_run:
  "(\<And>r. r \<in> set rs \<Longrightarrow> rectangle_shape r) \<Longrightarrow> \<exists>bs. list_all2 (\<lambda>r b. bitmap_of_rectangle r = Ok b) rs bs
     \<and> emit_bitmaps rs es = (Ok (), es @ map Bitmap bs)"
proof (induction rs arbitrary: es)
  case (Cons r rs)
  obtain b where b: "bitmap_of_rectangle r = Ok b" using bitmap_of_rectangle_Ok Cons.prems by auto
  obtain bs where "list_all2 (\<lambda>r b. bitmap_of_rectangle r = Ok b) rs bs" "emit_bitmaps rs (es @ [Bitmap b]) = (Ok (), (es @ [Bitmap b]) @ map Bitmap bs)"
    using Cons by (metis list.set_intros(2))
  then show ?case using b by (intro exI [of _ "b # bs"]) (simp add: bindp_def modp_def)
qed (simp add: retp_def)

lemma wp_handle_updates:
  "(\<And>m. m \<in> set ms \<Longrightarrow> fp_shape m) \<Longrightarrow> wp (handle_updates ms) (\<lambda>_ es'. \<exists>bs. es' = es @ map Bitmap bs) {} es"
proof (induction ms arbitrary: es)
  case (Cons m ms)
  have m: "fp_shape m" using Cons.prems by simp
  then have c: "cast_component m = Ok m" by (auto simp: fp_shape_def cast_component_def)
  have rest: "wp (handle_updates ms) (\<lambda>_ es'. \<exists>bs. es' = es @ map Bitmap bs) {} (es @ map Bitmap cs)" for cs
  proof (rule wp_mono [OF Cons.IH])
    show "fp_shape m" if "m \<in> set ms" for m using Cons.prems that by simp
    show "\<exists>bs. es' = es @ map Bitmap bs" if "\<exists>bs. es' = (es @ map Bitmap cs) @ map Bitmap bs" for es'
      using that by (metis append_assoc map_append)
  qed auto
  consider (update) u where "from_fp m = Ok u" "update_shape u" | (error) e where "from_fp m = Err e"
    using wpo_outcome [OF wpo_from_fp [OF m]] by auto
  then show ?case
  proof cases
    case update
    show ?thesis
    proof (cases "fp_type u = FastpathUpdatetypeBitmap")
      case True
      then obtain xs where xs: "bindo (field (fp_message u) ''rectangles'') cast_trame = Ok xs" "\<And>x. x \<in> set xs \<Longrightarrow> rectangle_shape x"
        using update(2) by (auto simp: update_shape_def)
      obtain bs where "emit_bitmaps xs es = (Ok (), es @ map Bitmap bs)" using emit_bitmaps_run [OF xs(2)] by blast
      then show ?thesis using rest [of bs] update(1) True xs(1) c by (simp add: wp_def bindp_def)
    qed (use rest [of "[]"] update c in simp)
  qed (use rest [of "[]"] c in simp)
qed (simp add: wp_retp)

lemma wp_read_fast_path: "wp (read_fast_path bs) (\<lambda>_ es'. \<exists>cs. es' = es @ map Bitmap cs) {} es"
  unfolding read_fast_path_def wp_bindp wp_liftp_wpo
  by (rule wpo_mono [OF wpo_array_inner [OF tame_fast_path(1), of fp_shape]])
    (auto intro!: wp_handle_updates dest!: read_fp_update_shape simp del: read_msg.simps)

subsection \<open>Writing\<close>

lemma wp_link_write: "write_msg m = Ok bs \<Longrightarrow> wp (link_write m) (\<lambda>_ _. True) P s"
  by (auto simp: link_write_def stream_write_def wp_simps) (auto simp: wp_def split: list.split tx_event.split)

lemma wp_tpkt_write: "write_msg m = Ok bs \<Longrightarrow> wp (tpkt_write m) (\<lambda>_ _. True) arith s"
  using msg_length_written [of m bs]
  by (auto simp: tpkt_write_def tpkt_header_def wp_simps wp_liftp_wpo wpo_bindo u8_write_def u16_write_def add_filter_def
      intro!: wp_link_write)

lemma wp_mcs_write:
  assumes "mcs_connected c" "write_msg m = Ok bs"
  shows "wp (mcs_write ''global'' m) (\<lambda>_ d. mcs_connected d) arith c"
proof -
  obtain u where u: "m_user_id c = Some u" "1001 \<le> u" "map_of (m_channel_ids c) ''global'' = Some 1003"
    using assms(1) by (auto simp: mcs_connected_def)
  let ?M = "MTrame [x224_header, MTrame [MU8 (mcs_pdu_header (Some SendDataRequest) None), MU16 (BE (u - 1001)), MU16 (BE 1003), MU8 0x70,
       write_length (of_nat (length bs)), m]]"
  obtain w where w: "write_msg ?M = Ok w"
    using assms(2) by (simp add: x224_header_def write_length_bytes u8_write_def u16_write_def mcs_pdu_header_def add_filter_def)
  have "wp (mcs_write ''global'' m) (\<lambda>_ _. True) arith c"
    unfolding mcs_write_def x224_write_def
    using wp_tpkt_write [OF w] msg_length_written [OF assms(2)] u
    by (simp add: wp_simps wp_liftp_wpo unwrap_option_def map_index_def del: write_msg.simps)
  then show ?thesis
    using mcs_connected_keeps [OF keeps_mcs_io(1) assms(1)]
    by (auto simp: wp_def split: prod.splits outcome.splits) (metis snd_conv)
qed

text \<open>The bytes of the PDUs the client writes.\<close>

definition control_bytes :: "pdu_type \<Rightarrow> u16 \<Rightarrow> u8 list \<Rightarrow> u8 list" where
  "control_bytes t source bs = u16_le (of_nat (length bs + 6)) @ u16_le (pdu_type_code t) @ u16_le source @ bs"

definition data_bytes :: "u32 \<Rightarrow> pdu_type2 \<Rightarrow> u8 list \<Rightarrow> u8 list" where
  "data_bytes share_id t bs = u32_le share_id @ [0, 1] @ u16_le (of_nat (length bs + 18)) @ [pdu_type2_code t, 0, 0, 0] @ bs"

lemma share_control_written:
  assumes "share_control_header (Some t) (Some source) (Some bs) = Ok m"
  shows "write_msg m = Ok (control_bytes t source bs)"
  using assms
  by (auto simp: share_control_header_def control_bytes_def slice_length_def addw_def bindo_eq_Ok u16_write_def slice_write_def
      option_write_def dyn_options_def add_filter_def sized_def subn_def unat_word_ariths split: if_splits)

lemma share_data_written:
  assumes "share_data_header i (Some t) (Some bs) = Ok p"
  shows "write_msg (pdu_message p) = Ok (data_bytes (unwrap_or i 0) t bs)" "pdu_kind p = PdutypeDatapdu"
  using assms
  by (auto simp: share_data_header_def data_bytes_def slice_length_def addw_def bindo_eq_Ok u16_write_def u32_write_def u8_write_def
      slice_write_def dyn_options_def add_filter_def sized_def subn_def unat_word_ariths u16_le_def [of 0] split: if_splits)

lemma share_headers_Ok:
  "length bs + 6 < 65536 \<Longrightarrow> \<exists>m. share_control_header (Some t) (Some source) (Some bs) = Ok m"
  "length bs + 18 < 65536 \<Longrightarrow> \<exists>p. share_data_header i (Some k) (Some bs) = Ok p"
  by (simp_all add: share_control_header_def share_data_header_def slice_length_def addw_def unat_of_nat take_bit_eq_mod)

text \<open>The confirm active PDU, with the twelve capability sets of the client.\<close>

definition client_sets :: "global_client \<Rightarrow> (capability_set_type \<times> u8 list) list" where
  "client_sets g = [
     (CapstypeGeneral, [1, 0, 3, 0, 0, 2, 0, 0, 0, 0, 0x15, 4, 0, 0, 0, 0, 0, 0, 0, 0]),
     (CapstypeBitmap, [24, 0, 1, 0, 1, 0, 1, 0] @ u16_le (g_width g) @ u16_le (g_height g)
        @ [0, 0, 0, 0, 1, 0, 0, 0, 1, 0, 0, 0]),
     (CapstypeOrder, replicate 16 0 @ [0, 0, 0, 0, 1, 0, 20, 0, 0, 0, 1, 0, 0, 0, 10, 0] @ replicate 32 0
        @ [0, 0, 0, 0, 0, 0, 0, 0, 0, 0x84, 3, 0, 0, 0, 0, 0, 0, 0, 0, 0]),
     (CapstypeBitmapcache, replicate 36 0),
     (CapstypePointer, [0, 0, 20, 0]),
     (CapstypeSound, [0, 0, 0, 0]),
     (CapstypeInput, [21, 0, 0, 0] @ u32_le (keyboard_layout_code (g_layout g)) @ [4, 0, 0, 0, 0, 0, 0, 0, 12, 0, 0, 0] @ replicate 64 0),
     (CapstypeBrush, [0, 0, 0, 0]),
     (CapstypeGlyphcache, replicate 48 0),
     (CapstypeOffscreencache, replicate 8 0),
     (CapstypeVirtualchannel, replicate 8 0),
     (CapsettypeMultifragmentupdate, [0, 0, 0, 0])]"

definition set_bytes :: "capability_set_type \<times> u8 list \<Rightarrow> u8 list" where
  "set_bytes = (\<lambda>(t, bs). u16_le (capability_set_type_code t) @ u16_le (of_nat (length bs) + 4) @ bs)"

definition confirm_bytes :: "global_client \<Rightarrow> u8 list" where
  "confirm_bytes g = (let sets = concat (map set_bytes (client_sets g)) in
     u32_le (unwrap_or (g_share_id g) 0) @ [0xEA, 3] @ u16_le (of_nat (length (as_bytes (g_name g))))
     @ u16_le (of_nat (length sets) + 4) @ as_bytes (g_name g) @ [12, 0, 0, 0] @ sets)"

abbreviation set_message :: "capability_set_type \<times> u8 list \<Rightarrow> message" where
  "set_message \<equiv> (\<lambda>(t, bs). raw_set (capability_set_type_code t) (of_nat (length bs) + 4) bs)"

lemma set_message_written: "length (snd x) + 4 < 65536 \<Longrightarrow> write_msg (set_message x) = Ok (set_bytes x)"
  by (cases x) (simp add: raw_set_def set_bytes_def u16_write_def slice_write_def dyn_options_def add_filter_def
    subn_def unat_word_ariths unat_of_nat take_bit_eq_mod)

lemma client_sets_fit: "list_all (\<lambda>x. length (snd x) + 4 < 65536) (client_sets g)"
  "length (concat (map set_bytes (client_sets g))) = 376" "length (client_sets g) = 12"
  by (simp_all add: client_sets_def set_bytes_def u16_le_def u32_le_def)

lemmas cap_writes = capability_defs u16_write_def u32_write_def u8_write_def slice_write_def add_filter_def option_write_def
  u16_le_def u32_le_def

lemma write_glyph: "write_msg (cap_message ts_glyph_capability_set) = Ok (replicate 48 0)"
  by (simp add: cap_writes numeral_eq_Suc)

lemma write_offscreen: "write_msg (cap_message ts_offscreen_capability_set) = Ok (replicate 8 0)"
  "write_msg (cap_message ts_virtualchannel_capability_set) = Ok (replicate 8 0)"
  "write_msg (cap_message ts_bitmap_cache_capability_set) = Ok (replicate 36 0)"
  by (simp_all add: cap_writes numeral_eq_Suc)

lemma client_capabilities_written:
  "list_all2 (\<lambda>c x. capability_set (Some c) = Ok (set_message x)) (client_capabilities g) (client_sets g)"
proof -
  have "list_all2 (\<lambda>c x. cap_type c = fst x \<and> write_msg (cap_message c) = Ok (snd x)) (client_capabilities g) (client_sets g)"
    unfolding client_capabilities_def client_sets_def list_all2_Cons list_all2_Nil fst_conv snd_conv
    by (intro conjI write_glyph write_offscreen) (simp_all add: cap_writes)
  then have "list_all2 (\<lambda>c x. (cap_type c = fst x \<and> write_msg (cap_message c) = Ok (snd x)) \<and> length (snd x) + 4 < 65536)
      (client_capabilities g) (client_sets g)"
    using client_sets_fit(1) [of g] by (simp add: list_all2_conv_all_nth list_all_length)
  then show ?thesis
    by (rule list_all2_mono) (auto simp: capability_set_Some)
qed

lemma all_Ok_map: "list_all2 (\<lambda>c x. f c = Ok (h x)) cs xs \<Longrightarrow> all_Ok (map f cs) = Ok (map h xs)"
  by (induction rule: list_all2_induct) simp_all

lemma set_messages_written:
  "list_all (\<lambda>x. length (snd x) + 4 < 65536) xs \<Longrightarrow>
   trame_write (map write_msg (map set_message xs)) = Ok (concat (map set_bytes xs))"
proof (induction xs)
  case (Cons x xs)
  then show ?case using set_message_written [of x] by (simp del: write_msg.simps)
qed simp

lemma confirm_written:
  "\<exists>p. ts_confirm_active_pdu (g_share_id g) (Some (as_bytes (g_name g))) (Some (map set_message (client_sets g), None)) = Ok p
     \<and> pdu_kind p = PdutypeConfirmactivepdu \<and> write_msg (pdu_message p) = Ok (confirm_bytes g)"
proof -
  define ms where "ms = map set_message (client_sets g)"
  define bs where "bs = concat (map set_bytes (client_sets g))"
  have w: "trame_write (map write_msg ms) = Ok bs"
    unfolding ms_def bs_def by (rule set_messages_written [OF client_sets_fit(1)])
  have l: "length bs = 376" "length ms = 12" by (simp_all only: bs_def ms_def client_sets_fit length_map)
  have n: "trame_length (map msg_length ms) = Ok 376"
    using msg_length_written [of "MArray ms None"] w l by simp
  show ?thesis
    unfolding ms_def [symmetric]
    using w l n by (simp add: ts_confirm_active_pdu_def capability_set_None addw_def confirm_bytes_def bs_def [symmetric]
        u16_write_def u32_write_def slice_write_def dyn_options_def add_filter_def sized_def subn_def u16_le_def [of 0]
        u16_le_def [of "numeral _"] Let_def)
qed

lemma confirm_run:
  "\<exists>p. pdu_kind p = PdutypeConfirmactivepdu \<and> write_msg (pdu_message p) = Ok (confirm_bytes g)
     \<and> write_confirm_active_pdu g = write_pdu g p"
  using confirm_written [of g] all_Ok_map [OF client_capabilities_written [of g]]
  by (auto simp: write_confirm_active_pdu_def simp del: write_msg.simps)

text \<open>Whatever the client writes is written, or the link fails, or a size does not fit.\<close>

lemma wp_write_pdu:
  assumes "mcs_connected c" "write_msg (pdu_message p) = Ok bs"
  shows "wp (write_pdu g p) (\<lambda>_ d. mcs_connected d) arith c"
proof -
  have "wpo (share_control_header (Some (pdu_kind p)) (Some (g_user_id g)) (Some bs))
      (\<lambda>m. wp (mcs_write ''global'' m) (\<lambda>_ d. mcs_connected d) arith c) arith"
  proof (cases "share_control_header (Some (pdu_kind p)) (Some (g_user_id g)) (Some bs)")
    case (Ok m)
    then show ?thesis using wp_mcs_write [OF assms(1) share_control_written [OF Ok]] by simp
  qed (auto simp: share_control_header_def addw_def split: if_splits)
  moreover have v: "to_vec (pdu_message p) = Ok bs" using assms(2) by simp
  ultimately show ?thesis unfolding write_pdu_def v by (simp add: wp_bindp wp_liftp_wpo)
qed

lemma wp_write_data_pdu:
  assumes "mcs_connected c" "write_msg (data_message d) = Ok bs"
  shows "wp (write_data_pdu g d) (\<lambda>_ d. mcs_connected d) arith c"
proof -
  have "wpo (share_data_header (g_share_id g) (Some (data_kind d)) (Some bs))
      (\<lambda>p. wp (write_pdu g p) (\<lambda>_ d. mcs_connected d) arith c) arith"
  proof (cases "share_data_header (g_share_id g) (Some (data_kind d)) (Some bs)")
    case (Ok p)
    then show ?thesis using wp_write_pdu [OF assms(1) share_data_written(1) [OF Ok]] by simp
  qed (auto simp: share_data_header_def addw_def split: if_splits)
  moreover have v: "to_vec (data_message d) = Ok bs" using assms(2) by simp
  ultimately show ?thesis unfolding write_data_pdu_def v by (simp add: wp_bindp wp_liftp_wpo)
qed

lemma write_pdu_joined:
  assumes "joined iter u sess c q" "write_msg (pdu_message p) = Ok bs" "length bs + 6 < 0x8000"
  shows "\<exists>c'. write_pdu g p c = (Ok (), c') \<and> joined iter u sess c' q
     \<and> mcs_sent c' = mcs_sent c @ global_request u (control_bytes (pdu_kind p) (g_user_id g) bs)"
proof -
  obtain m where m: "share_control_header (Some (pdu_kind p)) (Some (g_user_id g)) (Some bs) = Ok m"
    using share_headers_Ok(1) [of bs] assms(3) by fastforce
  have "length (control_bytes (pdu_kind p) (g_user_id g) bs) < 0x8000" using assms(3) by (simp add: control_bytes_def)
  moreover have v: "to_vec (pdu_message p) = Ok bs" using assms(2) by simp
  ultimately show ?thesis
    unfolding write_pdu_def v using joined_write [OF assms(1) share_control_written [OF m]] m by simp
qed

lemma write_data_pdu_joined:
  assumes "joined iter u sess c q" "write_msg (data_message d) = Ok bs" "length bs + 24 < 0x8000"
  shows "\<exists>c'. write_data_pdu g d c = (Ok (), c') \<and> joined iter u sess c' q
     \<and> mcs_sent c' = mcs_sent c @ global_request u (control_bytes PdutypeDatapdu (g_user_id g)
          (data_bytes (unwrap_or (g_share_id g) 0) (data_kind d) bs))"
proof -
  obtain p where p: "share_data_header (g_share_id g) (Some (data_kind d)) (Some bs) = Ok p"
    using share_headers_Ok(2) [of bs] assms(3) by fastforce
  have "length (data_bytes (unwrap_or (g_share_id g) 0) (data_kind d) bs) + 6 < 0x8000"
    using assms(3) by (simp add: data_bytes_def)
  moreover have v: "to_vec (data_message d) = Ok bs" using assms(2) by simp
  ultimately show ?thesis
    unfolding write_data_pdu_def v
    using write_pdu_joined [OF assms(1) share_data_written(1) [OF p]] p share_data_written(2) [OF p] by simp
qed

end
