(* ===== verification/Global_Machine.thy ===== *)
theory Global_Machine imports Global_Laws begin

section \<open>The state machine of the global channel\<close>

text \<open>
  An abstract view of the connection finalisation: the kind of each server PDU and the step
  it causes. The reads of the client implement this machine, so that the active state is
  only reached through the five server PDUs in their order, and is reached by them.
\<close>

subsection \<open>The abstract machine\<close>

datatype server_pdu = SDemandActive | SSynchronize | SControl u16 | SFontMap | SOther

definition classify_data :: "data_pdu \<Rightarrow> server_pdu" where
  "classify_data d = (if data_kind d = Pdutype2Synchronize then SSynchronize
     else if data_kind d = Pdutype2Fontmap then SFontMap
     else if data_kind d = Pdutype2Control then
       (case bindo (field (data_message d) ''action'') cast_u16 of Ok a \<Rightarrow> SControl a | _ \<Rightarrow> SOther)
     else SOther)"

definition classify :: "u8 list \<Rightarrow> server_pdu" where
  "classify bs = (case on_buffer pdu_from_stream bs of
       Ok p \<Rightarrow> if pdu_kind p = PdutypeDemandactivepdu then SDemandActive
         else if pdu_kind p \<noteq> PdutypeDatapdu then SOther
         else (case data_pdu_from_pdu p of Ok d \<Rightarrow> classify_data d | _ \<Rightarrow> SOther)
     | _ \<Rightarrow> SOther)"

fun handshake_step :: "client_state \<Rightarrow> server_pdu \<Rightarrow> client_state" where
  "handshake_step DemandActivePDU SDemandActive = SynchronizePDU"
| "handshake_step SynchronizePDU SSynchronize = ControlCooperate"
| "handshake_step ControlCooperate (SControl a) = (if a = ctrl_action_code CtrlactionCooperate then ControlGranted else ControlCooperate)"
| "handshake_step ControlGranted (SControl a) = (if a = ctrl_action_code CtrlactionGrantedControl then FontMap else ControlGranted)"
| "handshake_step FontMap SFontMap = DataState"
| "handshake_step st k = st"

text \<open>What must have been received to be in a state.\<close>

fun received :: "client_state \<Rightarrow> server_pdu list" where
  "received DemandActivePDU = []"
| "received SynchronizePDU = [SDemandActive]"
| "received ControlCooperate = [SDemandActive, SSynchronize]"
| "received ControlGranted = [SDemandActive, SSynchronize, SControl 4]"
| "received FontMap = [SDemandActive, SSynchronize, SControl 4, SControl 2]"
| "received DataState = [SDemandActive, SSynchronize, SControl 4, SControl 2, SFontMap]"

lemma received_step: "received (handshake_step st k) = received st \<or> received (handshake_step st k) = received st @ [k]"
  by (cases "(st, k)" rule: handshake_step.cases) auto

subsection \<open>The bytes of a PDU\<close>

definition decode_pdu :: "u16 \<Rightarrow> u8 list \<Rightarrow> pdu outcome" where
  "decode_pdu t body = bindo (pdu_type_of t) (\<lambda>t. bindo (case t of
         PdutypeDemandactivepdu \<Rightarrow> ts_demand_active_pdu
       | PdutypeDatapdu \<Rightarrow> share_data_header None None None
       | PdutypeConfirmactivepdu \<Rightarrow> ts_confirm_active_pdu None None None
       | PdutypeDeactivateallpdu \<Rightarrow> Ok ts_deactivate_all_pdu
       | _ \<Rightarrow> Err (rdp_err NotImplemented)) (\<lambda>p.
     bindo (on_buffer (read_msg (pdu_message p)) body) (\<lambda>m. Ok (p\<lparr>pdu_message := m\<rparr>))))"

text \<open>A control header in front of a body, as the server sends it.\<close>

lemma pdu_from_stream_bytes:
  "on_buffer pdu_from_stream (l0 # l1 # t0 # t1 # s0 # s1 # rest) = (let n = unat (le_u16 [l0, l1]) in
     if n < 6 then Panic ArithOverflow else if length rest < n - 6 then Err (Io UnexpectedEof)
     else decode_pdu (le_u16 [t0, t1]) (take (n - 6) rest))"
  by (auto simp: pdu_from_stream_def control_template on_buffer_def read_defs dyn_options_def sized_def subn_def option_read_def
      read_local_def slice_read_def read_to_end_def read_exact_def Let_def pdu_from_control_def decode_pdu_def
      cast_u16_def cast_slice_def)

lemma data_pdu_bytes:
  "decode_pdu 0x17 (i0 # i1 # i2 # i3 # p # st # l0 # l1 # k # ct # c0 # c1 # rest) = (let n = unat (le_u16 [l0, l1]) in
     if n < 18 then Panic ArithOverflow else if length rest < n - 18 then Err (Io UnexpectedEof)
     else Ok \<lparr>pdu_kind = PdutypeDatapdu, pdu_message = MComponent [
       (''shareId'', MU32 (LE (le_u32 [i0, i1, i2, i3]))), (''pad1'', MU8 p), (''streamId'', MU8 st),
       (''uncompressedLength'', MDyn (MU16 (LE (le_u16 [l0, l1]))) (sized ''payload'' 18)),
       (''pduType2'', MU8 k), (''compressedType'', MU8 ct), (''compressedLength'', MU16 (LE (le_u16 [c0, c1]))),
       (''payload'', MSlice (take (n - 18) rest))]\<rparr>)"
  by (auto simp: decode_pdu_def pdu_type_of_def data_template on_buffer_def read_defs dyn_options_def sized_def subn_def
      read_local_def slice_read_def read_to_end_def read_exact_def Let_def)

subsection \<open>What each read accepts\<close>

lemma classify_data_iff:
  "classify_data d \<noteq> SDemandActive"
  "classify_data d = SSynchronize \<longleftrightarrow> data_kind d = Pdutype2Synchronize"
  "classify_data d = SFontMap \<longleftrightarrow> data_kind d = Pdutype2Fontmap"
  "data_kind d \<noteq> Pdutype2Control \<Longrightarrow> classify_data d \<noteq> SControl a"
  "data_kind d = Pdutype2Control \<Longrightarrow> bindo (field (data_message d) ''action'') cast_u16 = Ok b \<Longrightarrow> classify_data d = SControl b"
  by (auto simp: classify_data_def split: outcome.split)

lemma classify_demand: "on_buffer pdu_from_stream bs = Ok p \<Longrightarrow> classify bs = SDemandActive \<longleftrightarrow> pdu_kind p = PdutypeDemandactivepdu"
  using classify_data_iff(1) by (auto simp: classify_def split: outcome.split)

lemma demand_accepts:
  "keeps g_state (read_demand_active_pdu bs)"
  "read_demand_active_pdu bs g = (Ok b, h) \<Longrightarrow> b = (classify bs = SDemandActive)"
proof -
  have store: "keeps g_state (store_capabilities ms)" for ms
    by (induction ms) (auto intro!: keeps_intros keeps_modp split: option.split)
  show "keeps g_state (read_demand_active_pdu bs)"
    unfolding read_demand_active_pdu_def by (auto intro!: keeps_intros keeps_modp store)
  show "read_demand_active_pdu bs g = (Ok b, h) \<Longrightarrow> b = (classify bs = SDemandActive)"
    by (auto simp: read_demand_active_pdu_def bindp_eq_Ok liftp_def retp_def classify_demand split: if_splits)
qed

lemma handshake_accepts:
  "read_synchronize_pdu bs = Ok b \<Longrightarrow> b = (classify bs = SSynchronize)"
  "read_control_pdu bs a = Ok b \<Longrightarrow> b = (classify bs = SControl (ctrl_action_code a))"
  "read_font_map_pdu bs = Ok b \<Longrightarrow> b = (classify bs = SFontMap)"
  by (auto simp: read_synchronize_pdu_def read_control_pdu_def read_font_map_pdu_def bindo_eq_Ok classify_def classify_data_iff
      split: if_splits outcome.splits)

subsection \<open>The step of a read\<close>

lemma keeps_store: "keeps (g_state \<circ> s_global) (on_mcs m)"
  by (rule keeps_zoom) simp

text \<open>A read of the handshake: what it does before it moves on to the next state.\<close>

definition handshake_part :: "client_state \<Rightarrow> payload \<Rightarrow> (global_session, bool) prog" where
  "handshake_part st p = bindp (liftp (raw_payload p)) (\<lambda>bs. case st of
       DemandActivePDU \<Rightarrow> bindp (on_global (read_demand_active_pdu bs)) (\<lambda>b. if b then
           bindp (getp s_global) (\<lambda>g. bindp (on_mcs (write_confirm_active_pdu g)) (\<lambda>_.
           bindp (on_mcs (write_client_finalize g)) (\<lambda>_. retp True)))
         else retp False)
     | SynchronizePDU \<Rightarrow> liftp (read_synchronize_pdu bs)
     | ControlCooperate \<Rightarrow> liftp (read_control_pdu bs CtrlactionCooperate)
     | ControlGranted \<Rightarrow> liftp (read_control_pdu bs CtrlactionGrantedControl)
     | FontMap \<Rightarrow> liftp (read_font_map_pdu bs)
     | DataState \<Rightarrow> retp False)"

fun successor :: "client_state \<Rightarrow> client_state" where
  "successor DemandActivePDU = SynchronizePDU" | "successor SynchronizePDU = ControlCooperate"
| "successor ControlCooperate = ControlGranted" | "successor ControlGranted = FontMap" | "successor FontMap = DataState"
| "successor DataState = DataState"

lemma global_read_part:
  assumes "g_state (s_global s) \<noteq> DataState"
  shows "global_read p s = bindp (handshake_part (g_state (s_global s)) p) (\<lambda>b. goto_if b (successor (g_state (s_global s)))) s"
proof -
  have "goto_if False st = retp ()" for st by (simp add: goto_if_def)
  then show ?thesis
    using assms by (cases "g_state (s_global s)") (auto simp: global_read_def handshake_part_def bindp_assoc getp_def bindp_def [of "getp _"]
        if_distrib [of "\<lambda>m. bindp m _"] cong: if_cong)
qed

lemma keeps_handshake_part: "keeps (g_state \<circ> s_global) (handshake_part st p)"
proof -
  have "keeps (g_state \<circ> s_global) (on_global (read_demand_active_pdu bs))" for bs
    by (rule keeps_zoom_part [OF demand_accepts(1)]) simp
  then show ?thesis
    unfolding handshake_part_def
    by (auto intro!: keeps_intros keeps_store split: client_state.split)
qed

text \<open>What a state accepts moves the machine to its successor, what it does not accept leaves it.\<close>

lemma handshake_part_accepts:
  assumes "handshake_part st p s = (Ok b, t)" "st \<noteq> DataState"
  shows "\<exists>bs. p = PRaw bs \<and> handshake_step st (classify bs) = (if b then successor st else st)"
proof -
  obtain bs where bs: "p = PRaw bs"
    using assms(1) by (cases p) (auto simp: handshake_part_def raw_payload_def bindp_eq_Ok liftp_def)
  have step: "handshake_step st k = (if accepts then successor st else st)"
    if "accepts = (k = (case st of DemandActivePDU \<Rightarrow> SDemandActive | SynchronizePDU \<Rightarrow> SSynchronize
      | ControlCooperate \<Rightarrow> SControl 4 | ControlGranted \<Rightarrow> SControl 2 | _ \<Rightarrow> SFontMap))" for accepts k
    using that assms(2) by (cases st; cases k) auto
  have "b = (classify bs = (case st of DemandActivePDU \<Rightarrow> SDemandActive | SynchronizePDU \<Rightarrow> SSynchronize
      | ControlCooperate \<Rightarrow> SControl 4 | ControlGranted \<Rightarrow> SControl 2 | _ \<Rightarrow> SFontMap))"
  proof (cases st)
    case DemandActivePDU
    then show ?thesis
      using assms(1) by (auto simp: bs handshake_part_def raw_payload_def bindp_eq_Ok zoom_Ok retp_def dest!: demand_accepts(2) split: if_splits)
  qed (use assms in \<open>auto simp: bs handshake_part_def raw_payload_def liftp_def dest!: handshake_accepts\<close>)
  then show ?thesis using step bs by blast
qed

lemma data_pdus_state: "g_state (snd (handle_pdus ms g)) \<in> {g_state g, DemandActivePDU}"
proof (induction ms arbitrary: g)
  case (Cons m ms)
  have one: "g_state (snd (handle_pdu m g)) \<in> {g_state g, DemandActivePDU}"
    by (simp add: handle_pdu_def bindp_def liftp_def modp_def retp_def split: outcome.split option.split)
  show ?case
  proof (cases "handle_pdu m g")
    case (Pair r h)
    have "g_state h \<in> {g_state g, DemandActivePDU}" using one Pair by simp
    then show ?thesis using Cons.IH [of h] Pair by (cases r) auto
  qed
qed (simp add: retp_def)

lemma data_read_state: "g_state (snd (read_data_pdu bs g)) \<in> {g_state g, DemandActivePDU}"
  using data_pdus_state by (simp add: read_data_pdu_def bindp_def liftp_def split: outcome.split)

text \<open>However a read ends, the state is the old one, its successor for an accepted PDU, or the first one.\<close>

lemma global_read_moves:
  assumes "global_read p s = (r, t)"
  shows "g_state (s_global t) = g_state (s_global s)
    \<or> (g_state (s_global s) = DataState \<and> g_state (s_global t) = DemandActivePDU)
    \<or> (\<exists>bs. p = PRaw bs \<and> g_state (s_global t) = handshake_step (g_state (s_global s)) (classify bs))"
proof (cases "g_state (s_global s) = DataState")
  case True
  have "g_state (snd (read_data_pdu bs g)) = g_state g \<or> g_state (snd (read_data_pdu bs g)) = DemandActivePDU" for bs g
    using data_read_state by auto
  then show ?thesis
    using assms True by (cases p) (auto simp: global_read_def getp_def bindp_def [of "getp _"] zoom_def split: prod.splits; metis snd_conv)+
next
  case False
  let ?st = "g_state (s_global s)"
  obtain x u where x: "handshake_part ?st p s = (x, u)" by fastforce
  have u: "g_state (s_global u) = ?st" using keepsD [OF keeps_handshake_part x] by simp
  show ?thesis
  proof (cases x)
    case (Ok b)
    then obtain bs where bs: "p = PRaw bs" "handshake_step ?st (classify bs) = (if b then successor ?st else ?st)"
      using handshake_part_accepts x False by blast
    have "g_state (s_global t) = (if b then successor ?st else ?st)"
      using assms global_read_part [OF False, of p] x Ok u by (auto simp: goto_if_def zoom_def modp_def retp_def split: if_splits)
    then show ?thesis using bs by auto
  qed (use assms global_read_part [OF False, of p] x u in auto)
qed

lemma global_read_refines_lemma:
  assumes "g_state (s_global s) \<noteq> DataState" "global_read (PRaw bs) s = (Ok (), t)"
  shows "g_state (s_global t) = handshake_step (g_state (s_global s)) (classify bs)"
proof -
  let ?st = "g_state (s_global s)"
  obtain b u where x: "handshake_part ?st (PRaw bs) s = (Ok b, u)" "goto_if b (successor ?st) u = (Ok (), t)"
    using assms(2) global_read_part [OF assms(1), of "PRaw bs"] by (auto simp: bindp_eq_Ok)
  have "g_state (s_global u) = ?st" using keepsD [OF keeps_handshake_part x(1)] by simp
  then show ?thesis
    using handshake_part_accepts [OF x(1) assms(1)] x(2) by (auto simp: goto_if_def zoom_def modp_def retp_def split: if_splits)
qed

text \<open>Runs of a client: reads, between which the connection and the events may change in any way.\<close>

inductive global_run :: "global_client \<Rightarrow> payload list \<Rightarrow> global_client \<Rightarrow> bool" where
  start: "global_run g [] g"
| read: "global_run g ps h \<Longrightarrow> global_read p \<lparr>s_global = h, s_mcs = c, s_events = es\<rparr> = (r, t)
    \<Longrightarrow> global_run g (ps @ [p]) (s_global t)"

definition kinds :: "payload list \<Rightarrow> server_pdu list" where
  "kinds ps = concat (map (\<lambda>p. case p of PRaw bs \<Rightarrow> [classify bs] | PFastPath flag bs \<Rightarrow> []) ps)"

lemma run_received:
  "global_run g ps h \<Longrightarrow> g_state g = DemandActivePDU \<Longrightarrow> subseq (received (g_state h)) (kinds ps)"
proof (induction rule: global_run.induct)
  case (read g ps h p c es r t)
  have IH: "subseq (received (g_state h)) (kinds ps)" using read by simp
  have k: "kinds (ps @ [p]) = kinds ps @ kinds [p]" by (simp add: kinds_def)
  have more: "subseq (received (g_state h)) (kinds (ps @ [p]))"
    unfolding k by (rule subseq_rev_drop_many [OF IH])
  from global_read_moves [OF read.hyps(2)] show ?case
  proof (elim disjE exE conjE)
    fix bs assume bs: "p = PRaw bs"
      and st: "g_state (s_global t) = handshake_step (g_state (s_global \<lparr>s_global = h, s_mcs = c, s_events = es\<rparr>)) (classify bs)"
    have "kinds [p] = [classify bs]" by (simp add: kinds_def bs)
    then show ?thesis
      using received_step [of "g_state h" "classify bs"] IH more st by (auto simp: k)
  qed (use more in simp_all)
qed simp

subsection \<open>A complete handshake\<close>

lemma accepted:
  "classify bs = SSynchronize \<Longrightarrow> read_synchronize_pdu bs = Ok True"
  "classify bs = SControl (ctrl_action_code a) \<Longrightarrow> read_control_pdu bs a = Ok True"
  "classify bs = SFontMap \<Longrightarrow> read_font_map_pdu bs = Ok True"
  by (auto simp: classify_def read_synchronize_pdu_def read_control_pdu_def read_font_map_pdu_def classify_data_def
      split: outcome.splits if_splits)

lemma accepted_demand:
  assumes "classify bs = SDemandActive"
  shows "\<exists>h. read_demand_active_pdu bs g = (Ok True, h) \<and> activated g h"
proof -
  obtain p where p: "on_buffer pdu_from_stream bs = Ok p" "pdu_kind p = PdutypeDemandactivepdu"
    using assms classify_data_iff(1) by (auto simp: classify_def split: outcome.splits if_splits)
  then have "pdu_shape p" using wpo_pdu_from_stream [of bs] by simp
  then obtain xs i where xs: "bindo (field (pdu_message p) ''capabilitySets'') cast_trame = Ok xs"
      "\<And>x. x \<in> set xs \<Longrightarrow> \<exists>t l bs. x = raw_set t l bs" "bindo (field (pdu_message p) ''shareId'') cast_u32 = Ok i"
    using p(2) by (auto simp: pdu_shape_def demand_shape_def casts_to_def)
  obtain cs where "store_capabilities xs g = (Ok (), g\<lparr>g_server_capabilities := g_server_capabilities g @ cs\<rparr>)"
    using wp_store_capabilities [OF xs(2)] by blast
  then show ?thesis
    using p xs(1,3) by (auto simp: read_demand_active_pdu_def activated_def bindp_def liftp_def modp_def retp_def)
qed

text \<open>The five PDUs of the client, in the order it writes them.\<close>

definition client_pdus :: "global_client \<Rightarrow> u8 list list" where
  "client_pdus g = control_bytes PdutypeConfirmactivepdu (g_user_id g) (confirm_bytes g) #
     map (\<lambda>(k, bs). control_bytes PdutypeDatapdu (g_user_id g) (data_bytes (unwrap_or (g_share_id g) 0) k bs)) [
       (Pdutype2Synchronize, [1, 0] @ u16_le (g_channel_id g)),
       (Pdutype2Control, [4, 0, 0, 0, 0, 0, 0, 0]),
       (Pdutype2Control, [1, 0, 0, 0, 0, 0, 0, 0]),
       (Pdutype2Fontlist, [0, 0, 0, 0, 3, 0, 0x32, 0])]"

lemma finalize_written:
  "data_kind (ts_synchronize_pdu (Some ch)) = Pdutype2Synchronize \<and> write_msg (data_message (ts_synchronize_pdu (Some ch))) = Ok ([1, 0] @ u16_le ch)"
  "data_kind (ts_control_pdu (Some a)) = Pdutype2Control \<and>
     write_msg (data_message (ts_control_pdu (Some a))) = Ok (u16_le (ctrl_action_code a) @ [0, 0, 0, 0, 0, 0])"
  "data_kind ts_font_list_pdu = Pdutype2Fontlist \<and> write_msg (data_message ts_font_list_pdu) = Ok [0, 0, 0, 0, 3, 0, 0x32, 0]"
  by (simp_all add: ts_synchronize_pdu_def ts_control_pdu_def ts_font_list_pdu_def u16_write_def u32_write_def add_filter_def
      option_write_def u16_le_def [of 0] u16_le_def [of "numeral _"] u16_le_def [of 1] u32_le_def)

lemma client_answers:
  assumes "joined iter u sess c q" "length (as_bytes (g_name g)) < 0x7000"
  shows "\<exists>c'. bindp (write_confirm_active_pdu g) (\<lambda>_. write_client_finalize g) c = (Ok (), c') \<and> joined iter u sess c' q
     \<and> mcs_sent c' = mcs_sent c @ concat (map (global_request u) (client_pdus g))"
proof -
  obtain p where p: "pdu_kind p = PdutypeConfirmactivepdu" "write_msg (pdu_message p) = Ok (confirm_bytes g)"
    "write_confirm_active_pdu g = write_pdu g p" using confirm_run by blast
  have l: "length (confirm_bytes g) + 6 < 0x8000"
    using assms(2) client_sets_fit(2) [of g] by (simp add: confirm_bytes_def Let_def)
  note f = finalize_written(1) [of "g_channel_id g"] finalize_written(2) [of CtrlactionCooperate]
    finalize_written(2) [of CtrlactionRequestControl] finalize_written(3)
  obtain c1 where c1: "write_pdu g p c = (Ok (), c1)" "joined iter u sess c1 q"
    "mcs_sent c1 = mcs_sent c @ global_request u (control_bytes PdutypeConfirmactivepdu (g_user_id g) (confirm_bytes g))"
    using write_pdu_joined [OF assms(1) p(2) l] p(1) by auto
  let ?data = "\<lambda>k bs. global_request u (control_bytes PdutypeDatapdu (g_user_id g) (data_bytes (unwrap_or (g_share_id g) 0) k bs))"
  have step: "\<exists>c'. write_data_pdu g d c0 = (Ok (), c') \<and> joined iter u sess c' q \<and> mcs_sent c' = mcs_sent c0 @ ?data k bs"
    if "joined iter u sess c0 q" "data_kind d = k \<and> write_msg (data_message d) = Ok bs" "length bs < 100" for c0 d k bs
    using write_data_pdu_joined [OF that(1), of d bs g] that(2,3) by auto
  obtain c2 where c2: "write_data_pdu g (ts_synchronize_pdu (Some (g_channel_id g))) c1 = (Ok (), c2)" "joined iter u sess c2 q"
    "mcs_sent c2 = mcs_sent c1 @ ?data Pdutype2Synchronize ([1, 0] @ u16_le (g_channel_id g))"
    using step [OF c1(2) f(1)] by (auto simp: u16_le_def)
  obtain c3 where c3: "write_data_pdu g (ts_control_pdu (Some CtrlactionCooperate)) c2 = (Ok (), c3)" "joined iter u sess c3 q"
    "mcs_sent c3 = mcs_sent c2 @ ?data Pdutype2Control (u16_le (ctrl_action_code CtrlactionCooperate) @ [0, 0, 0, 0, 0, 0])"
    using step [OF c2(2) f(2)] by (auto simp: u16_le_def)
  obtain c4 where c4: "write_data_pdu g (ts_control_pdu (Some CtrlactionRequestControl)) c3 = (Ok (), c4)" "joined iter u sess c4 q"
    "mcs_sent c4 = mcs_sent c3 @ ?data Pdutype2Control (u16_le (ctrl_action_code CtrlactionRequestControl) @ [0, 0, 0, 0, 0, 0])"
    using step [OF c3(2) f(3)] by (auto simp: u16_le_def)
  obtain c5 where c5: "write_data_pdu g ts_font_list_pdu c4 = (Ok (), c5)" "joined iter u sess c5 q"
    "mcs_sent c5 = mcs_sent c4 @ ?data Pdutype2Fontlist [0, 0, 0, 0, 3, 0, 0x32, 0]"
    using step [OF c4(2) f(4)] by auto
  have "bindp (write_confirm_active_pdu g) (\<lambda>_. write_client_finalize g) c = (Ok (), c5)"
    using c1(1) c2(1) c3(1) c4(1) c5(1) by (simp add: p(3) write_client_finalize_def)
  moreover have "mcs_sent c5 = mcs_sent c @ concat (map (global_request u) (client_pdus g))"
    unfolding c5(3) c4(3) c3(3) c2(3) c1(3) by (simp add: client_pdus_def u16_le_def)
  ultimately show ?thesis using c5(2) by blast
qed

primrec global_reads :: "payload list \<Rightarrow> (global_session, unit) prog" where
  "global_reads [] = retp ()"
| "global_reads (p # ps) = bindp (global_read p) (\<lambda>_. global_reads ps)"

lemma read_demand_step:
  assumes "g_state (s_global s) = DemandActivePDU" "classify d = SDemandActive" "joined iter u sess (s_mcs s) q"
    and "length (as_bytes (g_name (s_global s))) < 0x7000"
  shows "\<exists>h c'. activated (s_global s) h \<and> joined iter u sess c' q
     \<and> global_read (PRaw d) s = (Ok (), s\<lparr>s_global := h\<lparr>g_state := SynchronizePDU\<rparr>, s_mcs := c'\<rparr>)
     \<and> mcs_sent c' = mcs_sent (s_mcs s) @ concat (map (global_request u) (client_pdus h))"
proof -
  obtain h where h: "read_demand_active_pdu d (s_global s) = (Ok True, h)" "activated (s_global s) h"
    using accepted_demand [OF assms(2)] by blast
  then have n: "length (as_bytes (g_name h)) < 0x7000" using assms(4) by (auto simp: activated_def)
  obtain c1 c' where c: "write_confirm_active_pdu h (s_mcs s) = (Ok (), c1)" "write_client_finalize h c1 = (Ok (), c')" "joined iter u sess c' q"
     "mcs_sent c' = mcs_sent (s_mcs s) @ concat (map (global_request u) (client_pdus h))"
    using client_answers [OF assms(3) n] by (auto simp: bindp_eq_Ok)
  have "global_read (PRaw d) s = (Ok (), s\<lparr>s_global := h\<lparr>g_state := SynchronizePDU\<rparr>, s_mcs := c'\<rparr>)"
    using assms(1) h(1) c(1,2)
    by (simp add: global_read_def bindp_def getp_def raw_payload_def liftp_def zoom_def goto_if_def modp_def)
  then show ?thesis using h(2) c(3,4) by blast
qed

lemma read_accepted_step:
  assumes "g_state (s_global s) = st" "st \<notin> {DemandActivePDU, DataState}" "handshake_step st (classify bs) \<noteq> st"
  shows "global_read (PRaw bs) s = (Ok (), s\<lparr>s_global := s_global s\<lparr>g_state := successor st\<rparr>\<rparr>)"
  using assms
  by (cases "(st, classify bs)" rule: handshake_step.cases)
    (auto simp: global_read_def bindp_def getp_def raw_payload_def liftp_def zoom_def goto_if_def modp_def
       accepted(1,3) accepted(2) [of _ CtrlactionCooperate, simplified] accepted(2) [of _ CtrlactionGrantedControl, simplified] split: if_splits)

lemma handshake_completes_lemma:
  assumes "joined iter u sess c q" "g_state g = DemandActivePDU" "length (as_bytes (g_name g)) < 0x7000"
    and "map classify [d, sy, co, gr, fm] = received DataState"
  shows "\<exists>h c'. global_reads (map PRaw [d, sy, co, gr, fm]) \<lparr>s_global = g, s_mcs = c, s_events = es\<rparr>
      = (Ok (), \<lparr>s_global = h\<lparr>g_state := DataState\<rparr>, s_mcs = c', s_events = es\<rparr>)
     \<and> activated g h \<and> joined iter u sess c' q
     \<and> mcs_sent c' = mcs_sent c @ concat (map (global_request u) (client_pdus h))"
proof -
  obtain h c' where h: "activated g h" "joined iter u sess c' q"
     "global_read (PRaw d) \<lparr>s_global = g, s_mcs = c, s_events = es\<rparr>
        = (Ok (), \<lparr>s_global = h\<lparr>g_state := SynchronizePDU\<rparr>, s_mcs = c', s_events = es\<rparr>)"
     "mcs_sent c' = mcs_sent c @ concat (map (global_request u) (client_pdus h))"
    using read_demand_step [of "\<lparr>s_global = g, s_mcs = c, s_events = es\<rparr>" d iter u sess q] assms by auto
  note step = read_accepted_step [OF refl, of "\<lparr>s_global = h\<lparr>g_state := _\<rparr>, s_mcs = c', s_events = es\<rparr>"]
  show ?thesis
    using h(1,2,4) assms(4) step [of SynchronizePDU sy] step [of ControlCooperate co] step [of ControlGranted gr] step [of FontMap fm]
    by (intro exI [of _ h] exI [of _ c']) (simp add: bindp_def [of "global_read _"] h(3) retp_def)
qed

definition sample_demand :: "u8 list" where
  "sample_demand = [30, 0, 0x11, 0, 0xEA, 3, 1, 0, 1, 0, 0, 0, 12, 0, 1, 0, 0, 0, 8, 0, 8, 0, 0, 0, 20, 0, 0, 0, 0, 0]"

definition sample_data :: "u8 \<Rightarrow> u8 list \<Rightarrow> u8 list" where
  "sample_data t bs = [of_nat (length bs + 18), 0, 0x17, 0, 0xEA, 3, 1, 0, 1, 0, 0, 1, of_nat (length bs + 18), 0, t, 0, 0, 0] @ bs"

lemma sample_words:
  "le_u16 [b, 0] = ucast b" "le_u16 [0xEA, 3] = 0x3EA"
  by (simp_all add: le_u16_def)

lemma raw_set_end: "read_msg (raw_set 1 4 []) [] = (Err (Io UnexpectedEof), [])"
  by (simp add: raw_set_def read_defs rd_short)

lemma sample_kinds:
  "classify sample_demand = SDemandActive" "classify (sample_data 0x1F [1, 0, 0xEA, 3]) = SSynchronize"
  "classify (sample_data 0x14 [4, 0, 0, 0, 0, 0, 0, 0]) = SControl 4" "classify (sample_data 0x14 [2, 0, 0, 0, 0, 0, 0, 0]) = SControl 2"
  "classify (sample_data 0x28 [0, 0, 0, 0, 3, 0, 4, 0]) = SFontMap"
proof -
  have arr: "array_read (read_msg (raw_set 1 4 [])) [8, 0, 8, 0, 0, 0, 20, 0] = (Ok [raw_set 8 8 [0, 0, 20, 0]], [])"
    using array_read_concat [of "[()]" "\<lambda>_. [8, 0, 8, 0, 0, 0, 20, 0]" "read_msg (raw_set 1 4 [])" "\<lambda>_. raw_set 8 8 [0, 0, 20, 0]"]
    by (simp add: read_raw_set sample_words raw_set_end)
  have "\<exists>m. decode_pdu 0x11 [1, 0, 1, 0, 0, 0, 12, 0, 1, 0, 0, 0, 8, 0, 8, 0, 0, 0, 20, 0, 0, 0, 0, 0]
     = Ok \<lparr>pdu_kind = PdutypeDemandactivepdu, pdu_message = m\<rparr>"
    by (simp add: decode_pdu_def pdu_type_of_def demand_template on_buffer_def read_defs dyn_options_def sized_def subn_def
       read_local_def slice_read_def read_to_end_def read_exact_def sample_words arr Let_def)
  then show "classify sample_demand = SDemandActive"
    by (auto simp: classify_def sample_demand_def pdu_from_stream_bytes sample_words)
qed (simp_all add: classify_def sample_data_def pdu_from_stream_bytes data_pdu_bytes sample_words
   data_pdu_from_pdu_def pdu_type2_of_def pdu_types2_def,
  simp_all add: classify_data_def ts_synchronize_pdu_def ts_control_pdu_def ts_font_map_pdu_def
   on_buffer_def read_defs option_read_def cast_u8_def cast_u16_def cast_slice_def val_eq_def dyn_options_def sample_words)

abbreviation sample_handshake :: "u8 list list" where
  "sample_handshake \<equiv> [sample_demand, sample_data 0x1F [1, 0, 0xEA, 3], sample_data 0x14 [4, 0, 0, 0, 0, 0, 0, 0],
     sample_data 0x14 [2, 0, 0, 0, 0, 0, 0, 0], sample_data 0x28 [0, 0, 0, 0, 3, 0, 4, 0]]"

lemma reads_run:
  "global_reads ps s = (Ok (), t) \<Longrightarrow> global_run g ps' (s_global s) \<Longrightarrow> global_run g (ps' @ ps) (s_global t)"
proof (induction ps arbitrary: s ps')
  case (Cons p ps)
  obtain u where u: "global_read p s = (Ok (), u)" "global_reads ps u = (Ok (), t)"
    using Cons.prems(1) by (auto simp: bindp_eq_Ok)
  have "global_read p \<lparr>s_global = s_global s, s_mcs = s_mcs s, s_events = s_events s\<rparr> = (Ok (), u)" using u(1) by (cases s) simp
  from global_run.read [OF Cons.prems(2) this] show ?case using Cons.IH [OF u(2)] by fastforce
qed (simp add: retp_def)

definition sample_global :: global_client where
  "sample_global = global_new 1007 1003 800 600 French [0x6D]"

lemma sample_completes:
  "\<exists>h c'. global_reads (map PRaw sample_handshake) \<lparr>s_global = sample_global, s_mcs = sample_client [1], s_events = []\<rparr>
      = (Ok (), \<lparr>s_global = h\<lparr>g_state := DataState\<rparr>, s_mcs = c', s_events = []\<rparr>)"
  using handshake_completes_lemma [OF sample_joined, of "[1]" sample_global sample_demand] sample_kinds
  by (fastforce simp: sample_global_def global_new_def as_bytes_def utf8_char_def)

subsection \<open>Every read\<close>

lemma wp_global_read:
  assumes "mcs_connected (s_mcs s)"
  shows "wp (global_read p) (\<lambda>_ _. True) arith s"
proof (cases "g_state (s_global s) = DataState")
  case True
  have "wp (read_fast_path bs) (\<lambda>_ _. True) arith es" for bs es
    by (rule wp_mono [OF wp_read_fast_path]) auto
  moreover have "wp (read_data_pdu bs) (\<lambda>_ _. True) arith g" for bs g
    by (rule wp_mono [OF wp_read_data_pdu]) auto
  ultimately show ?thesis using True by (cases p) (simp_all add: global_read_def wp_simps)
next
  case False
  let ?st = "g_state (s_global s)"
  have goto: "wp (goto_if b st) (\<lambda>_ _. True) arith t" for b st t
    by (simp add: goto_if_def wp_simps)
  have answers: "wp (bindp (write_confirm_active_pdu g) (\<lambda>_. write_client_finalize g)) (\<lambda>_ _. True) arith c" if "mcs_connected c" for g c
  proof -
    obtain m where m: "write_msg (pdu_message m) = Ok (confirm_bytes g)" "write_confirm_active_pdu g = write_pdu g m"
      using confirm_run by blast
    note f = finalize_written [THEN conjunct2]
    show ?thesis
      unfolding m(2) write_client_finalize_def wp_bindp
      by (rule wp_mono [OF wp_write_pdu [OF that m(1)] wp_mono [OF wp_write_data_pdu [OF _ f(1)]
        wp_mono [OF wp_write_data_pdu [OF _ f(2)] wp_mono [OF wp_write_data_pdu [OF _ f(2)]
        wp_mono [OF wp_write_data_pdu [OF _ f(3)]]]]]]) auto
  qed
  have "wp (handshake_part ?st p) (\<lambda>_ _. True) arith s"
  proof (cases p)
    case (PRaw bs)
    have demand: "wp (on_global (read_demand_active_pdu bs)) (\<lambda>b t. s_mcs t = s_mcs s) arith s"
      unfolding wp_zoom by (rule wp_mono [OF wp_read_demand_active]) auto
    have cont: "wp (if b then bindp (getp s_global) (\<lambda>g. bindp (on_mcs (write_confirm_active_pdu g)) (\<lambda>_.
           bindp (on_mcs (write_client_finalize g)) (\<lambda>_. retp True))) else retp False) (\<lambda>_ _. True) arith t"
      if "s_mcs t = s_mcs s" for b t
      using answers [of "s_mcs t"] assms that by (simp add: wp_simps)
    have part: "wp (read_demand_active_pdu bs) (\<lambda>_ _. True) arith g" for g
      by (rule wp_mono [OF wp_read_demand_active]) auto
    show ?thesis
      using part wpo_read_handshake [of bs] wp_mono [OF demand, of "\<lambda>b. wp (if b then _ else _) _ _" arith] cont
      by (cases ?st) (auto simp: handshake_part_def PRaw raw_payload_def wp_simps wp_liftp_wpo)
  qed (simp add: handshake_part_def raw_payload_def wp_def liftp_def bindp_def)
  then have "wp (bindp (handshake_part ?st p) (\<lambda>b. goto_if b (successor ?st))) (\<lambda>_ _. True) arith s"
    unfolding wp_bindp by (rule wp_mono) (use goto in auto)
  then show ?thesis by (simp add: wp_def global_read_part [OF False])
qed

lemma keeps_session_writes:
  "keeps mcs_session (write_pdu g p)" "keeps mcs_session (write_data_pdu g d)"
  "keeps mcs_session (write_confirm_active_pdu g)" "keeps mcs_session (write_client_finalize g)"
  "keeps mcs_session (write_input_event g e)"
  unfolding write_pdu_def write_data_pdu_def write_confirm_active_pdu_def write_client_finalize_def write_input_event_def
  by (intro keeps_intros)+

lemma keeps_global_read: "keeps (mcs_session \<circ> s_mcs) (global_read p)"
proof -
  have other: "keeps (mcs_session \<circ> s_mcs) (on_global m)" "keeps (mcs_session \<circ> s_mcs) (on_events e)" for m :: "(global_client, 'x) prog" and e :: "(rdp_event list, 'y) prog"
    by (auto intro: keeps_zoom)
  have mcs: "keeps (mcs_session \<circ> s_mcs) (on_mcs m)" if "keeps mcs_session m" for m :: "(mcs_client, 'x) prog"
    using that by (rule keeps_zoom_part) simp
  show ?thesis
    unfolding global_read_def goto_if_def
    by (auto intro!: keeps_intros other mcs keeps_session_writes split: client_state.split payload.split)
qed

lemma short_control: "le_u16 [l0, l1] < 6 \<Longrightarrow> on_buffer pdu_from_stream (l0 # l1 # rest) = Panic ArithOverflow"
  "le_u16 [l0, l1] < 6 \<Longrightarrow> fst (read_data_pdu (l0 # l1 # rest) g) = Panic ArithOverflow"
  by (simp_all add: pdu_from_stream_def read_data_pdu_def control_template on_buffer_def read_defs dyn_options_def sized_def subn_def
    word_less_nat_alt array_read_def option_read_def)

subsection \<open>Properties\<close>

text \<open>
  The handshake of the global channel completes: on a joined session, the five PDUs of the
  server (demand active, synchronize, cooperate, granted control, font map) make the client
  active, whatever their other contents. It answers the demand active PDU, and only it, with
  exactly its confirm active, synchronize, cooperate, request control and font list PDUs in
  this order; the share id is the server's and the capabilities are added.
\<close>

lemma handshake_completes:
  assumes "joined iter u sess c q" "g_state g = DemandActivePDU" "length (as_bytes (g_name g)) < 0x7000"
    and "map classify [d, sy, co, gr, fm] = received DataState"
  shows "\<exists>h c'. global_reads (map PRaw [d, sy, co, gr, fm]) \<lparr>s_global = g, s_mcs = c, s_events = es\<rparr>
      = (Ok (), \<lparr>s_global = h\<lparr>g_state := DataState\<rparr>, s_mcs = c', s_events = es\<rparr>)
     \<and> activated g h \<and> joined iter u sess c' q
     \<and> mcs_sent c' = mcs_sent c @ concat (map (global_request u) (client_pdus h))"
  by (rule handshake_completes_lemma [OF assms])

lemma handshake_completes_witness:
  "\<exists>h c'. global_reads (map PRaw sample_handshake) \<lparr>s_global = sample_global, s_mcs = sample_client [1], s_events = []\<rparr>
      = (Ok (), \<lparr>s_global = h\<lparr>g_state := DataState\<rparr>, s_mcs = c', s_events = []\<rparr>) \<and> joined rev 1007 sample_session c' [1]"
  using handshake_completes [OF sample_joined, of "[1]" sample_global sample_demand] sample_kinds
  by (fastforce simp: sample_global_def global_new_def as_bytes_def utf8_char_def)

text \<open>
  C31. The reads of the client implement the abstract machine: a payload that is read
  successfully during the handshake moves the state exactly as its kind says, and leaves it
  when the PDU is not the one this state waits for.
\<close>

theorem global_read_refines:
  assumes "g_state (s_global s) \<noteq> DataState" "global_read (PRaw bs) s = (Ok (), t)"
  shows "g_state (s_global t) = handshake_step (g_state (s_global s)) (classify bs)"
  by (rule global_read_refines_lemma [OF assms])

theorem global_read_refines_witness:
  "\<exists>s t. g_state (s_global s) = ControlCooperate \<and> global_read (PRaw (sample_data 0x14 [4, 0, 0, 0, 0, 0, 0, 0])) s = (Ok (), t)
     \<and> g_state (s_global t) = ControlGranted"
proof -
  let ?s = "\<lparr>s_global = sample_global\<lparr>g_state := ControlCooperate\<rparr>, s_mcs = sample_client [1], s_events = []\<rparr>"
  obtain t where t: "global_read (PRaw (sample_data 0x14 [4, 0, 0, 0, 0, 0, 0, 0])) ?s = (Ok (), t)"
    using read_accepted_step [of ?s ControlCooperate] sample_kinds(3) by fastforce
  then show ?thesis
    using global_read_refines [OF _ t] sample_kinds(3) by (intro exI [of _ ?s] exI [of _ t]) simp
qed

text \<open>
  The client is active only after a complete handshake: whatever it reads, in whatever
  order and with whatever results, and whatever happens to the connection in between, when
  it is in the data state it has received the demand active, synchronize, cooperate, granted
  control and font map PDUs in this order.
\<close>

lemma handshake_order:
  assumes "global_run g ps h" "g_state g = DemandActivePDU" "g_state h = DataState"
  shows "subseq [SDemandActive, SSynchronize, SControl 4, SControl 2, SFontMap] (kinds ps)"
  using run_received [OF assms(1,2)] assms(3) by simp

lemma handshake_order_witness:
  "subseq [SDemandActive, SSynchronize, SControl 4, SControl 2, SFontMap] (kinds (map PRaw sample_handshake))"
proof -
  obtain h c' where "global_reads (map PRaw sample_handshake) \<lparr>s_global = sample_global, s_mcs = sample_client [1], s_events = []\<rparr>
      = (Ok (), \<lparr>s_global = h\<lparr>g_state := DataState\<rparr>, s_mcs = c', s_events = []\<rparr>)"
    using sample_completes by blast
  from reads_run [OF this, of sample_global "[]"] have "global_run sample_global (map PRaw sample_handshake) (h\<lparr>g_state := DataState\<rparr>)"
    by (simp add: global_run.start)
  then show ?thesis by (rule handshake_order) (simp_all add: sample_global_def global_new_def)
qed

text \<open>
  On a connected client every payload in every state of the global channel is read with a
  value or an error, or the arithmetic of a length field overflows: no read diverges, no field
  is missing, no index is out of bounds, and the session stays as it was.
\<close>

lemma global_read_outcomes:
  assumes "mcs_connected (s_mcs s)" "global_read p s = (r, t)"
  shows "(r = Ok () \<or> (\<exists>e. r = Err e) \<or> r = Panic ArithOverflow) \<and> mcs_connected (s_mcs t)"
proof -
  have "mcs_session (s_mcs t) = mcs_session (s_mcs s)" using keepsD [OF keeps_global_read assms(2)] by simp
  then have "mcs_connected (s_mcs t)" using mcs_connected_session assms(1) by blast
  then show ?thesis using wp_outcome [OF wp_global_read [OF assms(1)] assms(2)] by auto
qed

lemma global_read_outcomes_witness:
  "mcs_connected (sample_client [1]) \<and> (\<exists>r t. global_read (PRaw []) \<lparr>s_global = sample_global, s_mcs = sample_client [1], s_events = []\<rparr> = (r, t)
     \<and> (r = Ok () \<or> (\<exists>e. r = Err e) \<or> r = Panic ArithOverflow) \<and> mcs_connected (s_mcs t))"
proof -
  have c: "mcs_connected (sample_client [1])" by (simp add: mcs_connected_def sample_client_def sample_session_def)
  let ?s = "\<lparr>s_global = sample_global, s_mcs = sample_client [1], s_events = []\<rparr>"
  obtain r t where "global_read (PRaw []) ?s = (r, t)" by fastforce
  then show ?thesis using global_read_outcomes [of ?s "PRaw []" r t] c by simp
qed

text \<open>
  A length field below the size of the header it counts is enough to stop the client: in
  every state, a slow path payload that starts with a total length below six makes the read
  panic.
\<close>

lemma short_total_panics:
  assumes "le_u16 [l0, l1] < 6"
  shows "fst (global_read (PRaw (l0 # l1 # rest)) s) = Panic ArithOverflow"
  using short_control [OF assms]
  by (cases "g_state (s_global s)") (simp_all add: global_read_def bindp_def getp_def raw_payload_def liftp_def zoom_def
    read_demand_active_pdu_def read_synchronize_pdu_def read_control_pdu_def read_font_map_pdu_def case_prod_beta)

lemma short_total_panics_witness:
  "fst (global_read (PRaw [5, 0]) \<lparr>s_global = sample_global, s_mcs = sample_client [1], s_events = []\<rparr>) = Panic ArithOverflow"
  by (rule short_total_panics) (simp add: le_u16_def)

end
