(* ===== verification/Global_Events.thy ===== *)
theory Global_Events imports Global_Machine begin

section \<open>Events of the active client\<close>

text \<open>
  What an active client delivers and sends: the rectangles of fast path bitmap updates become
  bitmap events, and an input event becomes one input PDU.
\<close>

subsection \<open>Bitmap updates\<close>

text \<open>
  The bytes of a rectangle and of an update. A compressed rectangle announces that it has no
  compression header, as the client asks for. The number of rectangles is not read.
\<close>

definition rectangle_flags :: "bitmap_event \<Rightarrow> u16" where
  "rectangle_flags b = (if b_is_compress b then 0x0401 else 0)"

definition rectangle_bytes :: "bitmap_event \<Rightarrow> u8 list" where
  "rectangle_bytes b = concat (map u16_le [b_dest_left b, b_dest_top b, b_dest_right b, b_dest_bottom b,
     b_width b, b_height b, b_bpp b, rectangle_flags b, of_nat (length (b_data b))]) @ b_data b"

definition update_payload :: "u16 \<Rightarrow> bitmap_event list \<Rightarrow> u8 list" where
  "update_payload n bs = [1, 0] @ u16_le n @ concat (map rectangle_bytes bs)"

definition update_bytes :: "u8 \<times> u16 \<times> bitmap_event list \<Rightarrow> u8 list" where
  "update_bytes = (\<lambda>(h, n, bs). [h] @ u16_le (of_nat (length (update_payload n bs))) @ update_payload n bs)"

definition bitmap_update :: "u8 \<times> u16 \<times> bitmap_event list \<Rightarrow> bool" where
  "bitmap_update = (\<lambda>(h, n, bs). drop_bit 4 h AND 2 = 0 \<and> h AND 0xf = 1 \<and> length (update_payload n bs) < 65536
     \<and> (\<forall>b \<in> set bs. length (b_data b) < 65536))"

definition rectangle_message :: "bitmap_event \<Rightarrow> message" where
  "rectangle_message b = MComponent [
     (''destLeft'', MU16 (LE (b_dest_left b))), (''destTop'', MU16 (LE (b_dest_top b))),
     (''destRight'', MU16 (LE (b_dest_right b))), (''destBottom'', MU16 (LE (b_dest_bottom b))),
     (''width'', MU16 (LE (b_width b))), (''height'', MU16 (LE (b_height b))), (''bitsPerPixel'', MU16 (LE (b_bpp b))),
     (''flags'', MDyn (MU16 (LE (rectangle_flags b))) (\<lambda>v. Ok (
        if view_u16 v AND bitmap_flag_code BitmapCompression = 0 \<or> view_u16 v AND bitmap_flag_code NoBitmapComprHdr \<noteq> 0
        then SkipField ''bitmapComprHdr'' else NoOption))),
     (''bitmapLength'', MDyn (MU16 (LE (of_nat (length (b_data b))))) (sized ''bitmapDataStream'' 0)),
     (''bitmapComprHdr'', MDyn ts_cd_header (\<lambda>v. bindo (view_field v ''cbCompMainBodySize'') (\<lambda>w.
        Ok (Size ''bitmapDataStream'' (unat (view_u16 w)))))),
     (''bitmapDataStream'', MSlice (b_data b))]"

lemma le_u16_bytes: "le_u16 [ucast w, ucast (drop_bit 8 w)] = w"
  using le_u16_u16_le [of w] by (simp add: u16_le_def)

lemma read_rectangle:
  assumes "length (b_data b) < 65536"
  shows "read_msg ts_bitmap_data (rectangle_bytes b @ rest) = (Ok (rectangle_message b), rest)"
proof -
  have n: "unat (of_nat (length (b_data b)) :: u16) = length (b_data b)"
    using assms by (simp add: unat_of_nat take_bit_eq_mod)
  have flags: "rectangle_flags b AND 1 = 0 \<or> rectangle_flags b AND 0x400 \<noteq> 0" by (simp add: rectangle_flags_def)
  show ?thesis
    using n flags by (simp add: ts_bitmap_data_def rectangle_bytes_def rectangle_message_def u16_le_def read_defs dyn_options_def
        sized_def read_local_def slice_read_def read_to_end_def read_exact_def on_buffer_def le_u16_bytes)
qed

lemma rectangle_event: "bitmap_of_rectangle (rectangle_message b) = Ok b"
  by (simp add: bitmap_of_rectangle_def rectangle_message_def cast_component_def cast_u16_def cast_slice_def Let_def rectangle_flags_def)

lemma emit_rectangles: "emit_bitmaps (map rectangle_message bs) es = (Ok (), es @ map Bitmap bs)"
  by (induction bs arbitrary: es) (simp_all add: retp_def rectangle_event bindp_def modp_def)

definition update_message :: "u8 \<times> u16 \<times> bitmap_event list \<Rightarrow> message" where
  "update_message = (\<lambda>(h, n, bs). MComponent [
     (''updateHeader'', MDyn (MU8 h) (\<lambda>v. Ok (
        if drop_bit 4 (view_u8 v) AND 2 = 0 then SkipField ''compressionFlags'' else NoOption))),
     (''compressionFlags'', MU8 0),
     (''size'', MDyn (MU16 (LE (of_nat (length (update_payload n bs))))) (sized ''updateData'' 0)),
     (''updateData'', MSlice (update_payload n bs))])"

lemma read_update:
  assumes "bitmap_update x"
  shows "read_msg ts_fp_update (update_bytes x @ rest) = (Ok (update_message x), rest)"
proof -
  obtain h n bs where x: "x = (h, n, bs)" by (cases x)
  have "unat (of_nat (length (update_payload n bs)) :: u16) = length (update_payload n bs)"
    using assms by (simp add: x bitmap_update_def unat_of_nat take_bit_eq_mod)
  then show ?thesis
    using assms by (simp add: x bitmap_update_def ts_fp_update_def update_bytes_def update_message_def u16_le_def read_defs dyn_options_def
        sized_def read_local_def slice_read_def read_to_end_def read_exact_def on_buffer_def le_u16_bytes)
qed

lemma reads_end: "read_msg ts_bitmap_data [] = (Err (Io UnexpectedEof), [])" "read_msg ts_fp_update [] = (Err (Io UnexpectedEof), [])"
  by (simp_all add: ts_bitmap_data_def ts_fp_update_def read_defs rd_short)

lemma update_parsed:
  assumes "bitmap_update (h, n, bs)"
  shows "from_fp (update_message (h, n, bs)) = Ok \<lparr>fp_type = FastpathUpdatetypeBitmap, fp_message = MComponent [
     (''header'', MCheck (MU16 (LE 1))), (''numberRectangles'', MU16 (LE n)),
     (''rectangles'', MArray (map rectangle_message bs) (Some ts_bitmap_data))]\<rparr>"
proof -
  have "array_read (read_msg ts_bitmap_data) (concat (map rectangle_bytes bs)) = (Ok (map rectangle_message bs), [])"
  proof (rule array_read_concat)
    fix b rest assume "b \<in> set bs"
    then have "length (b_data b) < 65536" using assms by (simp add: bitmap_update_def)
    then show "rectangle_bytes b \<noteq> [] \<and> read_msg ts_bitmap_data (rectangle_bytes b @ rest) = (Ok (rectangle_message b), rest)"
      using read_rectangle by (simp add: rectangle_bytes_def u16_le_def)
  qed (rule reads_end)
  moreover have "le_u16 [1, 0] = 1" by (simp add: le_u16_def)
  ultimately show ?thesis
    using assms by (simp add: bitmap_update_def from_fp_def update_message_def update_payload_def cast_u8_def cast_slice_def fp_update_type_of_def
        ts_fp_update_bitmap_def on_buffer_def read_defs u16_le_def [of n] le_u16_bytes val_eq_def)
qed

lemma updates_handled:
  "list_all bitmap_update us \<Longrightarrow> handle_updates (map update_message us) es = (Ok (), es @ map Bitmap (concat (map (snd \<circ> snd) us)))"
proof (induction us arbitrary: es)
  case (Cons x us)
  obtain h n bs where x: "x = (h, n, bs)" by (cases x)
  have c: "cast_component (update_message (h, n, bs)) = Ok (update_message (h, n, bs))" by (simp add: update_message_def cast_component_def)
  have f: "from_fp (update_message (h, n, bs)) = Ok \<lparr>fp_type = FastpathUpdatetypeBitmap, fp_message = MComponent [
     (''header'', MCheck (MU16 (LE 1))), (''numberRectangles'', MU16 (LE n)),
     (''rectangles'', MArray (map rectangle_message bs) (Some ts_bitmap_data))]\<rparr>"
    using update_parsed Cons.prems x by simp
  show ?case
    using Cons by (simp add: c f x cast_trame_def bindp_def [of "emit_bitmaps _"] emit_rectangles)
qed (simp add: retp_def)

lemma fast_path_delivered:
  assumes "list_all bitmap_update us"
  shows "read_fast_path (concat (map update_bytes us)) es = (Ok (), es @ map Bitmap (concat (map (snd \<circ> snd) us)))"
proof -
  have "array_read (read_msg ts_fp_update) (concat (map update_bytes us)) = (Ok (map update_message us), [])"
  proof (rule array_read_concat)
    fix x rest assume "x \<in> set us"
    then show "update_bytes x \<noteq> [] \<and> read_msg ts_fp_update (update_bytes x @ rest) = (Ok (update_message x), rest)"
      using assms read_update by (auto simp: list_all_iff update_bytes_def split: prod.split)
  qed (rule reads_end)
  then show ?thesis
    using updates_handled [OF assms] by (simp add: read_fast_path_def on_buffer_def array_inner_def cast_trame_def bindp_def liftp_def retp_def)
qed

subsection \<open>Input events\<close>

definition input_bytes :: "input_event_type \<Rightarrow> u8 list \<Rightarrow> u8 list" where
  "input_bytes t bs = [1, 0, 0, 0] @ [0, 0, 0, 0] @ u16_le (input_event_type_code t) @ bs"

lemma input_written:
  "data_kind (ts_input_pdu_data (Some ([ts_input_event (Some t) (Some bs)], None))) = Pdutype2Input
   \<and> write_msg (data_message (ts_input_pdu_data (Some ([ts_input_event (Some t) (Some bs)], None)))) = Ok (input_bytes t bs)"
  by (simp add: ts_input_pdu_data_def ts_input_event_def input_bytes_def u16_write_def u32_write_def slice_write_def add_filter_def
      u16_le_def [of 0] u16_le_def [of 1] u32_le_def)

lemma input_joined:
  assumes "joined iter u sess c q" "g_state g = DataState" "write_msg (ti_message e) = Ok bs" "length bs + 34 < 0x8000"
  shows "\<exists>c'. write_input_event g e c = (Ok (), c') \<and> joined iter u sess c' q \<and> mcs_sent c' = mcs_sent c
     @ global_request u (control_bytes PdutypeDatapdu (g_user_id g)
         (data_bytes (unwrap_or (g_share_id g) 0) Pdutype2Input (input_bytes (ti_type e) bs)))"
proof -
  have v: "to_vec (ti_message e) = Ok bs" using assms(3) by simp
  have "length (input_bytes (ti_type e) bs) + 24 < 0x8000" using assms(4) by (simp add: input_bytes_def)
  then show ?thesis
    using write_data_pdu_joined [OF assms(1) input_written [THEN conjunct2]] input_written [THEN conjunct1] assms(2)
    by (simp add: write_input_event_def v)
qed

subsection \<open>Properties\<close>

text \<open>
  C32. A fast path payload made of bitmap updates delivers every rectangle of every update as one
  bitmap event, with its coordinates, depth, compression flag and data, in the order of the
  payload and after the events delivered before; nothing else changes, and the announced
  numbers of rectangles play no part.
\<close>

theorem fast_path_bitmaps:
  assumes "g_state (s_global s) = DataState" "list_all bitmap_update us"
  shows "global_read (PFastPath flag (concat (map update_bytes us))) s
    = (Ok (), s\<lparr>s_events := s_events s @ map Bitmap (concat (map (snd \<circ> snd) us))\<rparr>)"
  using assms(1) fast_path_delivered [OF assms(2)] by (simp add: global_read_def bindp_def getp_def zoom_def)

theorem fast_path_bitmaps_witness:
  "\<exists>t. global_read (PFastPath 0 (concat (map update_bytes [(1, 7, [sample_bitmap 16 1 False [1, 2]]), (1, 0, [])])))
      \<lparr>s_global = sample_global\<lparr>g_state := DataState\<rparr>, s_mcs = sample_client [1], s_events = []\<rparr> = (Ok (), t)
     \<and> s_events t = [Bitmap (sample_bitmap 16 1 False [1, 2])]"
  using fast_path_bitmaps [of "\<lparr>s_global = sample_global\<lparr>g_state := DataState\<rparr>, s_mcs = sample_client [1], s_events = []\<rparr>"
      "[(1, 7, [sample_bitmap 16 1 False [1, 2]]), (1, 0, [])]" 0]
  by (simp add: bitmap_update_def update_payload_def rectangle_bytes_def u16_le_def sample_bitmap_def)

text \<open>
  An input event of an active client is sent as exactly one input PDU of one event, a pointer
  event with its flags and coordinates and a key with its flags and code; in every other state
  nothing is sent and the client reports that it is not connected.
\<close>

lemma input_event_sent:
  assumes "joined iter u sess c q"
    and "e = ts_pointer_event (Some f) (Some x) (Some y) \<and> t = InputEventMouse \<and> bs = u16_le f @ u16_le x @ u16_le y
       \<or> e = ts_keyboard_event (Some f) (Some x) \<and> t = InputEventScancode \<and> bs = u16_le f @ u16_le x @ [0, 0]"
  shows "if g_state g = DataState
    then \<exists>c'. write_input_event g e c = (Ok (), c') \<and> joined iter u sess c' q \<and> mcs_sent c' = mcs_sent c
       @ global_request u (control_bytes PdutypeDatapdu (g_user_id g)
           (data_bytes (unwrap_or (g_share_id g) 0) Pdutype2Input ([1, 0, 0, 0, 0, 0, 0, 0] @ u16_le (input_event_type_code t) @ bs)))
    else write_input_event g e c = (Err (rdp_err InvalidAutomata), c)"
proof (cases "g_state g = DataState")
  case True
  have "write_msg (ti_message e) = Ok bs" "ti_type e = t" "length bs + 34 < 0x8000"
    using assms(2) by (auto simp: ts_pointer_event_def ts_keyboard_event_def u16_write_def add_filter_def u16_le_def)
  then show ?thesis using input_joined [OF assms(1) True] True by (auto simp: input_bytes_def)
qed (simp add: write_input_event_def failp_def)

lemma input_event_sent_witness:
  "\<exists>c'. write_input_event (sample_global\<lparr>g_state := DataState\<rparr>) (ts_keyboard_event (Some 0x8000) (Some 30)) (sample_client [1]) = (Ok (), c')
     \<and> joined rev 1007 sample_session c' [1]"
  using input_event_sent [OF sample_joined, of "[1]" "ts_keyboard_event (Some 0x8000) (Some 30)", OF _ disjI2, OF _ conjI [OF refl conjI [OF refl refl]],
      where g = "sample_global\<lparr>g_state := DataState\<rparr>"]
  by auto

end
