(* ===== verification/Rc4.thy ===== *)
theory Rc4 imports Loops "HOL-Library.Multiset" begin

section \<open>RC4\<close>

text \<open>
  \<^verbatim>\<open>src/src/nla/rc4.rs\<close>: the stream cipher. The state table is a list of 256 bytes, always
  indexed by a byte, so no access leaves it; the additions on bytes wrap around in the source
  too (\<open>wrapping_add\<close>).
\<close>

subsection \<open>Operations\<close>

record rc4 =
  rc_i :: u8
  rc_j :: u8
  rc_state :: "u8 list"

definition rc4_swap :: "nat \<Rightarrow> nat \<Rightarrow> u8 list \<Rightarrow> u8 list" where
  "rc4_swap a b s = s[b := s ! a, a := s ! b]"

text \<open>One round of the key schedule, and the 256 rounds of \<open>new\<close>.\<close>

definition schedule_round :: "u8 list \<Rightarrow> nat \<Rightarrow> u8 \<times> u8 list \<Rightarrow> u8 \<times> u8 list" where
  "schedule_round key i = (\<lambda>(j, s). let j' = j + s ! i + key ! (i mod length key) in (j', rc4_swap i (unat j') s))"

definition rc4_new :: "u8 list \<Rightarrow> rc4 outcome" where
  "rc4_new key = (if 1 \<le> length key \<and> length key \<le> 256
     then Ok \<lparr>rc_i = 0, rc_j = 0, rc_state = snd (fold (schedule_round key) [0..<256] (0, map of_nat [0..<256]))\<rparr>
     else Panic AssertFailed)"

definition rc4_next :: "rc4 \<Rightarrow> u8 \<times> rc4" where
  "rc4_next r = (let i = rc_i r + 1; j = rc_j r + rc_state r ! unat i; s = rc4_swap (unat i) (unat j) (rc_state r) in
     (s ! unat (s ! unat i + s ! unat j), \<lparr>rc_i = i, rc_j = j, rc_state = s\<rparr>))"

primrec rc4_bytes :: "u8 list \<Rightarrow> rc4 \<Rightarrow> u8 list \<times> rc4" where
  "rc4_bytes [] r = ([], r)"
| "rc4_bytes (x # xs) r = (case rc4_next r of (k, r1) \<Rightarrow> case rc4_bytes xs r1 of (ys, r2) \<Rightarrow> ((x XOR k) # ys, r2))"

text \<open>\<open>process(input, output)\<close>: what it returns is the new content of the output buffer.\<close>

definition rc4_process :: "u8 list \<Rightarrow> u8 list \<Rightarrow> (rc4, u8 list) prog" where
  "rc4_process input output r = (if length input = length output
     then (case rc4_bytes input r of (ys, r') \<Rightarrow> (Ok ys, r')) else (Panic AssertFailed, r))"

subsection \<open>The table stays a permutation\<close>

definition rc4_ok :: "rc4 \<Rightarrow> bool" where
  "rc4_ok r \<longleftrightarrow> mset (rc_state r) = mset (map of_nat [0..<256])"

lemma swap_mset: "length s = 256 \<Longrightarrow> i < 256 \<Longrightarrow> j < 256 \<Longrightarrow> mset (rc4_swap i j s) = mset s"
  by (simp add: rc4_swap_def mset_swap)

lemma mset_256: "mset s = mset (map of_nat [0..<256]) \<Longrightarrow> length s = 256"
  by (metis diff_zero length_map length_upt size_mset)

lemma unat_256 [simp]: "unat (b :: u8) < 256"
  using unsigned_less [of b] by simp

lemma schedule_mset:
  "mset (snd x) = mset (map of_nat [0..<256]) \<Longrightarrow> \<forall>i \<in> set is. i < 256 \<Longrightarrow>
   mset (snd (fold (schedule_round key) is x)) = mset (map of_nat [0..<256])"
proof (induction "is" arbitrary: x)
  case (Cons i "is")
  have "mset (snd (schedule_round key i x)) = mset (map of_nat [0..<256])"
    using Cons.prems swap_mset [OF mset_256] by (cases x) (simp add: schedule_round_def Let_def)
  then show ?case using Cons by simp
qed simp

lemma new_ok: "rc4_new key = Ok r \<Longrightarrow> rc4_ok r"
  using schedule_mset [of "(0, map of_nat [0..<256])" "[0..<256]" key] by (auto simp: rc4_new_def rc4_ok_def split: if_splits)

lemma next_ok: "rc4_ok r \<Longrightarrow> rc4_next r = (k, r') \<Longrightarrow> rc4_ok r'"
  using swap_mset [OF mset_256] by (auto simp: rc4_next_def rc4_ok_def Let_def)

lemma bytes_length: "rc4_bytes xs r = (ys, r') \<Longrightarrow> length ys = length xs"
  by (induction xs arbitrary: r ys) (auto split: prod.splits)

lemma bytes_ok: "rc4_ok r \<Longrightarrow> rc4_bytes xs r = (ys, r') \<Longrightarrow> rc4_ok r'"
  by (induction xs arbitrary: r ys) (auto split: prod.splits dest: next_ok)

subsection \<open>Encryption and decryption\<close>

lemma bytes_involution: "rc4_bytes xs r = (ys, r') \<Longrightarrow> rc4_bytes ys r = (xs, r')"
  by (induction xs arbitrary: r ys) (auto split: prod.splits simp: xor.assoc)

lemma bytes_append:
  "rc4_bytes (xs @ ys) r = (case rc4_bytes xs r of (us, r1) \<Rightarrow> case rc4_bytes ys r1 of (vs, r2) \<Rightarrow> (us @ vs, r2))"
  by (induction xs arbitrary: r) (auto split: prod.splits)

text \<open>A message in a buffer of its size, as every caller does, and a sequence of messages.\<close>

definition rc4_message :: "u8 list \<Rightarrow> (rc4, u8 list) prog" where
  "rc4_message xs = rc4_process xs (replicate (length xs) 0)"

primrec rc4_messages :: "u8 list list \<Rightarrow> (rc4, u8 list list) prog" where
  "rc4_messages [] = retp []"
| "rc4_messages (m # ms) = bindp (rc4_message m) (\<lambda>c. bindp (rc4_messages ms) (\<lambda>cs. retp (c # cs)))"

lemma message_bytes: "rc4_message xs r = (case rc4_bytes xs r of (ys, r') \<Rightarrow> (Ok ys, r'))"
  by (simp add: rc4_message_def rc4_process_def)

lemma messages_bytes:
  "rc4_bytes (concat ms) r = (ys, r') \<Longrightarrow> \<exists>cs. rc4_messages ms r = (Ok cs, r') \<and> concat cs = ys \<and> map length cs = map length ms"
proof (induction ms arbitrary: r ys)
  case (Cons m ms)
  obtain us r1 vs where u: "rc4_bytes m r = (us, r1)" "rc4_bytes (concat ms) r1 = (vs, r')" "ys = us @ vs"
    using Cons.prems by (auto simp: bytes_append split: prod.splits)
  obtain cs where "rc4_messages ms r1 = (Ok cs, r')" "concat cs = vs" "map length cs = map length ms" using Cons.IH [OF u(2)] by blast
  then show ?case using u(1,3) bytes_length [OF u(1)] by (auto simp: bindp_def message_bytes retp_def)
qed (simp add: retp_def)

subsection \<open>Properties\<close>

text \<open>
  C36. The cipher is its own inverse on streams: a sequence of messages encrypted with a fresh
  cipher of a key is decrypted by another fresh cipher of the same key, however the encrypted
  bytes are cut into pieces, and both end in the same state. The table is a permutation of
  the 256 bytes throughout, and a key of one to 256 bytes never makes it panic.
\<close>

theorem rc4_streams:
  assumes "1 \<le> length key" "length key \<le> 256"
  shows "\<exists>r cs r'. rc4_new key = Ok r \<and> rc4_messages ms r = (Ok cs, r') \<and> map length cs = map length ms \<and> rc4_ok r \<and> rc4_ok r'
     \<and> (\<forall>ds. concat ds = concat cs \<longrightarrow> (\<exists>ps. rc4_messages ds r = (Ok ps, r') \<and> concat ps = concat ms))"
proof -
  obtain r where r: "rc4_new key = Ok r" using assms by (simp add: rc4_new_def)
  obtain ys r' where ys: "rc4_bytes (concat ms) r = (ys, r')" by fastforce
  obtain cs where cs: "rc4_messages ms r = (Ok cs, r')" "concat cs = ys" "map length cs = map length ms"
    using messages_bytes [OF ys] by blast
  have "\<exists>ps. rc4_messages ds r = (Ok ps, r') \<and> concat ps = concat ms" if "concat ds = concat cs" for ds
    using messages_bytes [of ds r "concat ms" r'] bytes_involution [OF ys] cs(2) that by auto
  then show ?thesis using r cs new_ok [OF r] bytes_ok [OF new_ok [OF r] ys] by blast
qed

theorem rc4_streams_witness:
  "\<exists>r cs r'. rc4_new [102, 111, 111] = Ok r \<and> rc4_messages [[98, 97, 114], [98]] r = (Ok cs, r') \<and> rc4_ok r'"
  using rc4_streams [of "[102, 111, 111]" "[[98, 97, 114], [98]]"] by fastforce

end
