(* ===== verification/Sspi.thy ===== *)
theory Sspi imports Loops begin

section \<open>The security interfaces\<close>

text \<open>
  \<^verbatim>\<open>src/src/nla/sspi.rs\<close> declares what CredSSP needs of an authentication protocol. Its trait
  \<open>GenericSecurityService\<close> is the contract stated here: what one side wraps, the other side
  unwraps, as often as the pair allows. The client's lemmas (messages arrive in order) are
  proved once from the contract; NTLM interprets it.
\<close>

subsection \<open>The traits\<close>

text \<open>
  A value of a type that implements \<open>AuthenticationProtocol\<close>, seen through the trait: its state
  is \<open>'a\<close>, and the security interface it builds has the state \<open>'g\<close> and the operations of
  \<open>GenericSecurityService\<close>.
\<close>

record ('a, 'g) authentication =
  au_negotiate :: "('a, u8 list) prog"
  au_challenge :: "u8 list \<Rightarrow> ('a, u8 list) prog"
  au_interface :: "'a \<Rightarrow> 'g outcome"
  au_domain :: "'a \<Rightarrow> u8 list"
  au_user :: "'a \<Rightarrow> u8 list"
  au_password :: "'a \<Rightarrow> u8 list"
  au_wrapex :: "u8 list \<Rightarrow> ('g, u8 list) prog"
  au_unwrapex :: "u8 list \<Rightarrow> ('g, u8 list) prog"

subsection \<open>Sequences of sealed messages\<close>

primrec each :: "('a \<Rightarrow> ('s, 'b) prog) \<Rightarrow> 'a list \<Rightarrow> ('s, 'b list) prog" where
  "each f [] = retp []"
| "each f (x # xs) = bindp (f x) (\<lambda>y. bindp (each f xs) (\<lambda>ys. retp (y # ys)))"

locale security_service =
  fixes wrapex :: "u8 list \<Rightarrow> ('s, u8 list) prog"
    and unwrapex :: "u8 list \<Rightarrow> ('r, u8 list) prog"
    and paired :: "'s \<Rightarrow> 'r \<Rightarrow> nat \<Rightarrow> bool"
  assumes seal: "paired s r (Suc n) \<Longrightarrow> \<exists>w s' r'. wrapex d s = (Ok w, s') \<and> unwrapex w r = (Ok d, r') \<and> paired s' r' n"
begin

lemma sealed_messages:
  "paired s r (length ds + n) \<Longrightarrow> \<exists>ws s' r'. each wrapex ds s = (Ok ws, s') \<and> each unwrapex ws r = (Ok ds, r') \<and> paired s' r' n"
proof (induction ds arbitrary: s r)
  case (Cons d ds)
  obtain w s1 r1 where w: "wrapex d s = (Ok w, s1)" "unwrapex w r = (Ok d, r1)" "paired s1 r1 (length ds + n)"
    using seal [of s r "length ds + n" d] Cons.prems by auto
  obtain ws s' r' where "each wrapex ds s1 = (Ok ws, s')" "each unwrapex ws r1 = (Ok ds, r')" "paired s' r' n"
    using Cons.IH [OF w(3)] by blast
  then show ?case using w by (intro exI [of _ "w # ws"]) (auto simp: retp_def)
qed (auto simp: retp_def)

end

end
