(* ===== verification/Ntlm.thy ===== *)
theory Ntlm imports Rc4 Global begin

section \<open>NTLM\<close>

text \<open>
  \<^verbatim>\<open>src/src/nla/ntlm.rs\<close> and \<^verbatim>\<open>src/src/model/rnd.rs\<close>: the NTLMv2 authentication protocol and its
  security interface. The digests (crates md4, md-5, hmac) and the Unicode upper casing are
  parameters, the fields of \<open>crypto\<close>; the only thing relied on is that a digest of the
  MD5 family has 16 bytes. Random bytes are drawn from a source that is part of the state.
\<close>

subsection \<open>Parameters and random bytes\<close>

record crypto =
  md4 :: "u8 list \<Rightarrow> u8 list"
  md5 :: "u8 list \<Rightarrow> u8 list"
  hmac_md5 :: "u8 list \<Rightarrow> u8 list \<Rightarrow> u8 list"
  to_uppercase :: "rstring \<Rightarrow> rstring"

definition digests :: "crypto \<Rightarrow> bool" where
  "digests c \<longleftrightarrow> (\<forall>k bs. length (hmac_md5 c k bs) = 16) \<and> (\<forall>bs. length (md5 c bs) = 16)"

text \<open>The bytes the random number generator is still to produce.\<close>

type_synonym entropy = "nat \<Rightarrow> u8"

primrec random :: "nat \<Rightarrow> (entropy, u8 list) prog" where
  "random 0 = retp []"
| "random (Suc n) = bindp (\<lambda>e. (Ok (e 0), \<lambda>k. e (Suc k))) (\<lambda>b. bindp (random n) (\<lambda>bs. retp (b # bs)))"

subsection \<open>Messages\<close>

datatype negotiate =
    NtlmsspNegociate56 | NtlmsspNegociateKeyExch | NtlmsspNegociate128 | NtlmsspNegociateVersion
  | NtlmsspNegociateTargetInfo | NtlmsspRequestNonNTSessionKey | NtlmsspNegociateIdentify
  | NtlmsspNegociateExtendedSessionSecurity | NtlmsspTargetTypeServer | NtlmsspTargetTypeDomain
  | NtlmsspNegociateAlwaysSign | NtlmsspNegociateOEMWorkstationSupplied | NtlmsspNegociateOEMDomainSupplied
  | NtlmsspNegociateNTLM | NtlmsspNegociateLMKey | NtlmsspNegociateDatagram | NtlmsspNegociateSeal
  | NtlmsspNegociateSign | NtlmsspRequestTarget | NtlmNegotiateOEM | NtlmsspNegociateUnicode

fun negotiate_code :: "negotiate \<Rightarrow> u32" where
  "negotiate_code NtlmsspNegociate56 = 0x80000000"
| "negotiate_code NtlmsspNegociateKeyExch = 0x40000000"
| "negotiate_code NtlmsspNegociate128 = 0x20000000"
| "negotiate_code NtlmsspNegociateVersion = 0x02000000"
| "negotiate_code NtlmsspNegociateTargetInfo = 0x00800000"
| "negotiate_code NtlmsspRequestNonNTSessionKey = 0x00400000"
| "negotiate_code NtlmsspNegociateIdentify = 0x00100000"
| "negotiate_code NtlmsspNegociateExtendedSessionSecurity = 0x00080000"
| "negotiate_code NtlmsspTargetTypeServer = 0x00020000"
| "negotiate_code NtlmsspTargetTypeDomain = 0x00010000"
| "negotiate_code NtlmsspNegociateAlwaysSign = 0x00008000"
| "negotiate_code NtlmsspNegociateOEMWorkstationSupplied = 0x00002000"
| "negotiate_code NtlmsspNegociateOEMDomainSupplied = 0x00001000"
| "negotiate_code NtlmsspNegociateNTLM = 0x00000200"
| "negotiate_code NtlmsspNegociateLMKey = 0x00000080"
| "negotiate_code NtlmsspNegociateDatagram = 0x00000040"
| "negotiate_code NtlmsspNegociateSeal = 0x00000020"
| "negotiate_code NtlmsspNegociateSign = 0x00000010"
| "negotiate_code NtlmsspRequestTarget = 0x00000004"
| "negotiate_code NtlmNegotiateOEM = 0x00000002"
| "negotiate_code NtlmsspNegociateUnicode = 0x00000001"

datatype major_version = WindowsMajorVersion5 | WindowsMajorVersion6

fun major_version_code :: "major_version \<Rightarrow> u8" where
  "major_version_code WindowsMajorVersion5 = 5" | "major_version_code WindowsMajorVersion6 = 6"

datatype minor_version = WindowsMinorVersion0 | WindowsMinorVersion1 | WindowsMinorVersion2 | WindowsMinorVersion3

fun minor_version_code :: "minor_version \<Rightarrow> u8" where
  "minor_version_code WindowsMinorVersion0 = 0" | "minor_version_code WindowsMinorVersion1 = 1"
| "minor_version_code WindowsMinorVersion2 = 2" | "minor_version_code WindowsMinorVersion3 = 3"

datatype ntlm_revision = NtlmSspRevisionW2K3

fun ntlm_revision_code :: "ntlm_revision \<Rightarrow> u8" where
  "ntlm_revision_code NtlmSspRevisionW2K3 = 0x0F"

definition ntlm_version :: message where
  "ntlm_version = MComponent [
     (''ProductMajorVersion'', MU8 (major_version_code WindowsMajorVersion6)),
     (''ProductMinorVersion'', MU8 (minor_version_code WindowsMinorVersion0)),
     (''ProductBuild'', MU16 (LE 6002)),
     (''Reserved'', MTrame [MU16 (LE 0), MU8 0]),
     (''NTLMRevisionCurrent'', MU8 (ntlm_revision_code NtlmSspRevisionW2K3))]"

text \<open>The closure that skips the version field unless the flags announce it.\<close>

definition version_option :: "dyn_view \<Rightarrow> message_option outcome" where
  "version_option = (\<lambda>v. Ok (if view_u32 v AND negotiate_code NtlmsspNegociateVersion = 0
     then SkipField ''Version'' else NoOption))"

definition NTLMSSP :: "u8 list" where
  "NTLMSSP = [0x4E, 0x54, 0x4C, 0x4D, 0x53, 0x53, 0x50, 0]"

definition negotiate_message :: "u32 \<Rightarrow> message" where
  "negotiate_message flags = MComponent [
     (''Signature'', MSlice NTLMSSP),
     (''MessageType'', MU32 (LE 1)),
     (''NegotiateFlags'', MDyn (MU32 (LE flags)) version_option),
     (''DomainNameLen'', MU16 (LE 0)), (''DomainNameMaxLen'', MU16 (LE 0)), (''DomainNameBufferOffset'', MU32 (LE 0)),
     (''WorkstationLen'', MU16 (LE 0)), (''WorkstationMaxLen'', MU16 (LE 0)), (''WorkstationBufferOffset'', MU32 (LE 0)),
     (''Version'', ntlm_version),
     (''Payload'', MSlice [])]"

definition challenge_message :: message where
  "challenge_message = MComponent [
     (''Signature'', MCheck (MSlice NTLMSSP)),
     (''MessageType'', MCheck (MU32 (LE 2))),
     (''TargetNameLen'', MU16 (LE 0)), (''TargetNameLenMax'', MU16 (LE 0)), (''TargetNameBufferOffset'', MU32 (LE 0)),
     (''NegotiateFlags'', MDyn (MU32 (LE 0)) version_option),
     (''ServerChallenge'', MSlice (replicate 8 0)),
     (''Reserved'', MSlice (replicate 8 0)),
     (''TargetInfoLen'', MU16 (LE 0)), (''TargetInfoMaxLen'', MU16 (LE 0)), (''TargetInfoBufferOffset'', MU32 (LE 0)),
     (''Version'', ntlm_version),
     (''Payload'', MSlice [])]"

definition authenticate_message ::
  "u8 list \<Rightarrow> u8 list \<Rightarrow> u8 list \<Rightarrow> u8 list \<Rightarrow> u8 list \<Rightarrow> u8 list \<Rightarrow> u32 \<Rightarrow> (message \<times> u8 list) outcome" where
  "authenticate_message lm nt domain user workstation session_key flags = (
     let payload = concat [lm, nt, domain, user, workstation, session_key];
       offset = if flags AND negotiate_code NtlmsspNegociateVersion = 0 then 80 else 88;
       at = (\<lambda>n. addw offset (of_nat n)) in
     bindo (at (length lm)) (\<lambda>nt_offset.
     bindo (at (length lm + length nt)) (\<lambda>domain_offset.
     bindo (at (length lm + length nt + length domain)) (\<lambda>user_offset.
     bindo (at (length lm + length nt + length domain + length user)) (\<lambda>workstation_offset.
     bindo (at (length lm + length nt + length domain + length user + length workstation)) (\<lambda>session_offset.
     Ok (MComponent [
       (''Signature'', MCheck (MSlice NTLMSSP)),
       (''MessageType'', MCheck (MU32 (LE 3))),
       (''LmChallengeResponseLen'', MU16 (LE (of_nat (length lm)))),
       (''LmChallengeResponseMaxLen'', MU16 (LE (of_nat (length lm)))),
       (''LmChallengeResponseBufferOffset'', MU32 (LE offset)),
       (''NtChallengeResponseLen'', MU16 (LE (of_nat (length nt)))),
       (''NtChallengeResponseMaxLen'', MU16 (LE (of_nat (length nt)))),
       (''NtChallengeResponseBufferOffset'', MU32 (LE nt_offset)),
       (''DomainNameLen'', MU16 (LE (of_nat (length domain)))),
       (''DomainNameMaxLen'', MU16 (LE (of_nat (length domain)))),
       (''DomainNameBufferOffset'', MU32 (LE domain_offset)),
       (''UserNameLen'', MU16 (LE (of_nat (length user)))),
       (''UserNameMaxLen'', MU16 (LE (of_nat (length user)))),
       (''UserNameBufferOffset'', MU32 (LE user_offset)),
       (''WorkstationLen'', MU16 (LE (of_nat (length workstation)))),
       (''WorkstationMaxLen'', MU16 (LE (of_nat (length workstation)))),
       (''WorkstationBufferOffset'', MU32 (LE workstation_offset)),
       (''EncryptedRandomSessionLen'', MU16 (LE (of_nat (length session_key)))),
       (''EncryptedRandomSessionMaxLen'', MU16 (LE (of_nat (length session_key)))),
       (''EncryptedRandomSessionBufferOffset'', MU32 (LE session_offset)),
       (''NegotiateFlags'', MDyn (MU32 (LE flags)) version_option),
       (''Version'', ntlm_version)], payload)))))))"

text \<open>A field of the payload, cut out by its length and its offset in the whole message.\<close>

definition get_payload_field :: "message \<Rightarrow> u16 \<Rightarrow> u32 \<Rightarrow> u8 list outcome" where
  "get_payload_field message len buffer_offset =
     bindo (bindo (field message ''Payload'') cast_slice) (\<lambda>payload.
     bindo (msg_length message) (\<lambda>n. bindo (subn n (length payload)) (\<lambda>offset.
     bindo (subn (unat buffer_offset) offset) (\<lambda>start. slice_range payload start (start + unat len)))))"

datatype av_id =
    MsvAvEOL | MsvAvNbComputerName | MsvAvNbDomainName | MsvAvDnsComputerName | MsvAvDnsDomainName | MsvAvDnsTreeName
  | MsvAvFlags | MsvAvTimestamp | MsvAvSingleHost | MsvAvTargetName | MsvChannelBindings

definition av_id_of :: "u16 \<Rightarrow> av_id outcome" where
  "av_id_of w = (if w = 0 then Ok MsvAvEOL else if w = 1 then Ok MsvAvNbComputerName else if w = 2 then Ok MsvAvNbDomainName
     else if w = 3 then Ok MsvAvDnsComputerName else if w = 4 then Ok MsvAvDnsDomainName
     else if w = 5 then Ok MsvAvDnsTreeName else if w = 6 then Ok MsvAvFlags else if w = 7 then Ok MsvAvTimestamp
     else if w = 8 then Ok MsvAvSingleHost else if w = 9 then Ok MsvAvTargetName
     else if w = 0xA then Ok MsvChannelBindings else Err (rdp_err InvalidCast))"

definition av_pair :: message where
  "av_pair = MComponent [(''AvId'', MU16 (LE 0)),
     (''AvLen'', MDyn (MU16 (LE 0)) (\<lambda>v. Ok (Size ''Value'' (unat (view_u16 v))))), (''Value'', MSlice [])]"

definition message_signature_ex :: "u8 list option \<Rightarrow> u32 option \<Rightarrow> message outcome" where
  "message_signature_ex check_sum seq_num =
     bindo (case check_sum of Some s \<Rightarrow> slice_range s 0 8 | None \<Rightarrow> Ok (replicate 8 0)) (\<lambda>sum.
     Ok (MComponent [(''Version'', MCheck (MU32 (LE 1))), (''Checksum'', MSlice sum),
       (''SeqNum'', MU32 (LE (case seq_num of Some seq \<Rightarrow> seq | None \<Rightarrow> 0)))]))"

text \<open>One pair per round, until the end marker; every round consumes input, the fuel of \<open>read_target_info\<close>.\<close>

fun read_av_pairs :: "nat \<Rightarrow> (av_id \<rightharpoonup> u8 list) \<Rightarrow> (u8 list, av_id \<rightharpoonup> u8 list) prog" where
  "read_av_pairs 0 result = liftp Diverge"
| "read_av_pairs (Suc n) result = bindp (read_msg av_pair) (\<lambda>element.
     bindp (liftp (bindo (bindo (field element ''AvId'') cast_u16) av_id_of)) (\<lambda>av_id.
     if av_id = MsvAvEOL then retp result
     else bindp (liftp (bindo (field element ''Value'') cast_slice)) (\<lambda>v. read_av_pairs n (result(av_id \<mapsto> v)))))"

definition read_target_info :: "u8 list \<Rightarrow> (av_id \<rightharpoonup> u8 list) outcome" where
  "read_target_info data = on_buffer (read_av_pairs (Suc (length data)) Map.empty) data"

subsection \<open>Keys and responses\<close>

definition z :: "nat \<Rightarrow> u8 list" where
  "z m = replicate m 0"

definition unicode :: "rstring \<Rightarrow> u8 list" where
  "unicode data = concat (map u16_le (encode_utf16 data))"

definition ntowfv2_hash :: "crypto \<Rightarrow> u8 list \<Rightarrow> rstring \<Rightarrow> rstring \<Rightarrow> u8 list" where
  "ntowfv2_hash c hash user domain = hmac_md5 c hash (unicode (to_uppercase c user @ domain))"

definition ntowfv2 :: "crypto \<Rightarrow> rstring \<Rightarrow> rstring \<Rightarrow> rstring \<Rightarrow> u8 list" where
  "ntowfv2 c password user domain = hmac_md5 c (md4 c (unicode password)) (unicode (to_uppercase c user @ domain))"

definition lmowfv2 :: "crypto \<Rightarrow> rstring \<Rightarrow> rstring \<Rightarrow> rstring \<Rightarrow> u8 list" where
  "lmowfv2 c password user domain = ntowfv2 c password user domain"

definition compute_response_v2 ::
  "crypto \<Rightarrow> u8 list \<Rightarrow> u8 list \<Rightarrow> u8 list \<Rightarrow> u8 list \<Rightarrow> u8 list \<Rightarrow> u8 list \<Rightarrow> u8 list \<times> u8 list \<times> u8 list" where
  "compute_response_v2 c response_key_nt response_key_lm server_challenge client_challenge time server_name = (
     let temp = concat [[1], [1], z 6, time, client_challenge, z 4, server_name];
       nt_proof_str = hmac_md5 c response_key_nt (server_challenge @ temp);
       nt_challenge_response = nt_proof_str @ temp;
       lm_challenge_response = hmac_md5 c response_key_lm (server_challenge @ client_challenge) @ client_challenge;
       session_base_key = hmac_md5 c response_key_nt nt_proof_str in
     (nt_challenge_response, lm_challenge_response, session_base_key))"

definition kx_key_v2 :: "u8 list \<Rightarrow> u8 list \<Rightarrow> u8 list \<Rightarrow> u8 list" where
  "kx_key_v2 session_base_key lm_challenge_response server_challenge = session_base_key"

definition rc4k :: "u8 list \<Rightarrow> u8 list \<Rightarrow> u8 list outcome" where
  "rc4k key plaintext = bindo (rc4_new key) (\<lambda>handle. fst (rc4_process plaintext (replicate (length plaintext) 0) handle))"

definition mic :: "crypto \<Rightarrow> u8 list \<Rightarrow> u8 list \<Rightarrow> u8 list \<Rightarrow> u8 list \<Rightarrow> u8 list" where
  "mic c exported_session_key negotiate challenge authenticate =
     hmac_md5 c exported_session_key (concat [negotiate, challenge, authenticate])"

text \<open>The magic constants of the key derivation, as ASCII bytes with a final zero.\<close>

definition ascii :: "string \<Rightarrow> u8 list" where
  "ascii s = map of_char s"

definition magic :: "bool \<Rightarrow> string \<Rightarrow> u8 list" where
  "magic is_client use = ascii (''session key to '' @ (if is_client then ''client-to-server'' else ''server-to-client'')
     @ '' '' @ use @ '' key magic constant'') @ [0]"

definition sign_key :: "crypto \<Rightarrow> u8 list \<Rightarrow> bool \<Rightarrow> u8 list" where
  "sign_key c exported_session_key is_client = md5 c (exported_session_key @ magic is_client ''signing'')"

definition seal_key :: "crypto \<Rightarrow> u8 list \<Rightarrow> bool \<Rightarrow> u8 list" where
  "seal_key c exported_session_key is_client = md5 c (exported_session_key @ magic is_client ''sealing'')"

definition mac :: "crypto \<Rightarrow> u8 list \<Rightarrow> u32 \<Rightarrow> u8 list \<Rightarrow> (rc4, u8 list) prog" where
  "mac c signing_key seq_num data =
     bindp (liftp (to_vec (MU32 (LE seq_num)))) (\<lambda>seq.
     bindp (liftp (slice_range (hmac_md5 c signing_key (seq @ data)) 0 8)) (\<lambda>signature.
     bindp (rc4_process signature (replicate 8 0)) (\<lambda>encrypted.
     liftp (bindo (message_signature_ex (Some encrypted) (Some seq_num)) to_vec))))"

subsection \<open>The security interface\<close>

record security_interface =
  si_encrypt :: rc4
  si_decrypt :: rc4
  si_signing_key :: "u8 list"
  si_verify_key :: "u8 list"
  si_seq_num :: u32

definition security_interface_new :: "rc4 \<Rightarrow> rc4 \<Rightarrow> u8 list \<Rightarrow> u8 list \<Rightarrow> security_interface" where
  "security_interface_new encrypt decrypt signing_key verify_key = \<lparr>si_encrypt = encrypt, si_decrypt = decrypt,
     si_signing_key = signing_key, si_verify_key = verify_key, si_seq_num = 0\<rparr>"

abbreviation on_encrypt :: "(rc4, 'a) prog \<Rightarrow> (security_interface, 'a) prog" where
  "on_encrypt \<equiv> zoom si_encrypt (\<lambda>r s. s\<lparr>si_encrypt := r\<rparr>)"

abbreviation on_decrypt :: "(rc4, 'a) prog \<Rightarrow> (security_interface, 'a) prog" where
  "on_decrypt \<equiv> zoom si_decrypt (\<lambda>r s. s\<lparr>si_decrypt := r\<rparr>)"

definition gss_wrapex :: "crypto \<Rightarrow> u8 list \<Rightarrow> (security_interface, u8 list) prog" where
  "gss_wrapex c data =
     bindp (on_encrypt (rc4_process data (replicate (length data) 0))) (\<lambda>encrypted_data.
     bindp get_state (\<lambda>s.
     bindp (on_encrypt (mac c (si_signing_key s) (si_seq_num s) data)) (\<lambda>signature.
     bindp (liftp (addw (si_seq_num s) 1)) (\<lambda>seq.
     bindp (modp (\<lambda>s. s\<lparr>si_seq_num := seq\<rparr>)) (\<lambda>_.
     liftp (to_vec (MTrame [MSlice signature, MSlice encrypted_data])))))))"

definition gss_unwrapex :: "crypto \<Rightarrow> u8 list \<Rightarrow> (security_interface, u8 list) prog" where
  "gss_unwrapex c data =
     bindp (liftp (message_signature_ex None None)) (\<lambda>template.
     bindp (liftp (cursor (read_msg template) data)) (\<lambda>(signature, rest).
     bindp (liftp (on_buffer (slice_read []) rest)) (\<lambda>payload.
     bindp (on_decrypt (rc4_process payload (replicate (length payload) 0))) (\<lambda>plaintext_payload.
     bindp (liftp (bindo (field signature ''Checksum'') cast_slice)) (\<lambda>checksum.
     bindp (on_decrypt (rc4_process checksum (replicate (length checksum) 0))) (\<lambda>plaintext_checksum.
     bindp (liftp (bindo (bindo (field signature ''SeqNum'') cast_u32) (\<lambda>n. to_vec (MU32 (LE n))))) (\<lambda>seq_num.
     bindp (getp si_verify_key) (\<lambda>verify_key.
     bindp (liftp (slice_range (hmac_md5 c verify_key (seq_num @ plaintext_payload)) 0 8)) (\<lambda>computed.
     if plaintext_checksum \<noteq> computed then failp InvalidChecksum else retp plaintext_payload)))))))))"

subsection \<open>The authentication protocol\<close>

record ntlm =
  n_domain :: rstring
  n_user :: rstring
  n_password :: rstring
  n_response_key_nt :: "u8 list"
  n_response_key_lm :: "u8 list"
  n_negotiate_message :: "u8 list option"
  n_exported_session_key :: "u8 list option"
  n_is_unicode :: bool

definition ntlm_new :: "crypto \<Rightarrow> rstring \<Rightarrow> rstring \<Rightarrow> rstring \<Rightarrow> ntlm" where
  "ntlm_new c domain user password = \<lparr>n_domain = domain, n_user = user, n_password = password,
     n_response_key_nt = ntowfv2 c password user domain, n_response_key_lm = lmowfv2 c password user domain,
     n_negotiate_message = None, n_exported_session_key = None, n_is_unicode = False\<rparr>"

definition ntlm_from_hash :: "crypto \<Rightarrow> rstring \<Rightarrow> rstring \<Rightarrow> u8 list \<Rightarrow> ntlm" where
  "ntlm_from_hash c domain user password_hash = \<lparr>n_domain = domain, n_user = user, n_password = [],
     n_response_key_nt = ntowfv2_hash c password_hash user domain, n_response_key_lm = ntowfv2_hash c password_hash user domain,
     n_negotiate_message = None, n_exported_session_key = None, n_is_unicode = False\<rparr>"

definition encoded :: "ntlm \<Rightarrow> rstring \<Rightarrow> u8 list" where
  "encoded n text = (if n_is_unicode n then unicode text else as_bytes text)"

definition get_domain_name :: "ntlm \<Rightarrow> u8 list" where
  "get_domain_name n = encoded n (n_domain n)"

definition get_user_name :: "ntlm \<Rightarrow> u8 list" where
  "get_user_name n = encoded n (n_user n)"

definition get_password :: "ntlm \<Rightarrow> u8 list" where
  "get_password n = encoded n (n_password n)"

text \<open>The protocol's own state beside the source of random bytes.\<close>

type_synonym ntlm_state = "ntlm \<times> entropy"

abbreviation on_ntlm :: "(ntlm, 'a) prog \<Rightarrow> (ntlm_state, 'a) prog" where
  "on_ntlm \<equiv> zoom fst (\<lambda>n s. (n, snd s))"

abbreviation on_entropy :: "(entropy, 'a) prog \<Rightarrow> (ntlm_state, 'a) prog" where
  "on_entropy \<equiv> zoom snd (\<lambda>e s. (fst s, e))"

definition create_negotiate_message :: "(ntlm_state, u8 list) prog" where
  "create_negotiate_message =
     bindp (liftp (to_vec (negotiate_message (
       negotiate_code NtlmsspNegociateKeyExch OR negotiate_code NtlmsspNegociate128 OR
       negotiate_code NtlmsspNegociateExtendedSessionSecurity OR negotiate_code NtlmsspNegociateAlwaysSign OR
       negotiate_code NtlmsspNegociateNTLM OR negotiate_code NtlmsspNegociateSeal OR negotiate_code NtlmsspNegociateSign OR
       negotiate_code NtlmsspRequestTarget OR negotiate_code NtlmsspNegociateUnicode)))) (\<lambda>buffer.
     bindp (on_ntlm (modp (\<lambda>n. n\<lparr>n_negotiate_message := Some buffer\<rparr>))) (\<lambda>_. retp buffer))"

definition target_info_field :: "message \<Rightarrow> u8 list outcome" where
  "target_info_field result = bindo (bindo (field result ''TargetInfoLen'') cast_u16) (\<lambda>len.
     bindo (bindo (field result ''TargetInfoBufferOffset'') cast_u32) (get_payload_field result len))"

definition read_challenge_message :: "crypto \<Rightarrow> u8 list \<Rightarrow> (ntlm_state, u8 list) prog" where
  "read_challenge_message c request =
     bindp (liftp (on_buffer (read_msg challenge_message) request)) (\<lambda>result.
     bindp (liftp (bindo (field result ''ServerChallenge'') cast_slice)) (\<lambda>server_challenge.
     bindp (liftp (target_info_field result)) (\<lambda>target_name.
     bindp (liftp (bindo (target_info_field result) read_target_info)) (\<lambda>target_info.
     bindp (liftp (case target_info MsvAvTimestamp of Some t \<Rightarrow> Ok t | None \<Rightarrow> Panic ExplicitPanic)) (\<lambda>timestamp.
     bindp (on_entropy (random 8)) (\<lambda>client_challenge.
     bindp (getp fst) (\<lambda>n.
     let (nt_challenge_response, lm_challenge_response, session_base_key) = compute_response_v2 c
         (n_response_key_nt n) (n_response_key_lm n) server_challenge client_challenge timestamp target_name;
       key_exchange_key = kx_key_v2 session_base_key lm_challenge_response server_challenge in
     bindp (on_entropy (random 16)) (\<lambda>exported_session_key.
     bindp (on_ntlm (modp (\<lambda>n. n\<lparr>n_exported_session_key := Some exported_session_key\<rparr>))) (\<lambda>_.
     bindp (liftp (rc4k key_exchange_key exported_session_key)) (\<lambda>encrypted_random_session_key.
     bindp (liftp (bindo (field result ''NegotiateFlags'') cast_u32)) (\<lambda>flags.
     bindp (on_ntlm (modp (\<lambda>n. n\<lparr>n_is_unicode := (flags AND negotiate_code NtlmsspNegociateUnicode = 1)\<rparr>))) (\<lambda>_.
     bindp (getp fst) (\<lambda>n.
     bindp (liftp (authenticate_message lm_challenge_response nt_challenge_response (get_domain_name n) (get_user_name n) []
         encrypted_random_session_key flags)) (\<lambda>(header, payload).
     bindp (liftp (bindo (to_vec header) (\<lambda>h. to_vec (MTrame [MSlice h, MSlice (replicate 16 0), MSlice payload])))) (\<lambda>tmp.
     bindp (liftp (unwrap_option (n_negotiate_message n))) (\<lambda>negotiate.
     liftp (to_vec (MTrame [header, MSlice (mic c exported_session_key negotiate request tmp), MSlice payload]))))))))))))))))))"

definition build_security_interface :: "crypto \<Rightarrow> ntlm \<Rightarrow> security_interface outcome" where
  "build_security_interface c n = bindo (unwrap_option (n_exported_session_key n)) (\<lambda>key.
     bindo (rc4_new (seal_key c key True)) (\<lambda>encrypt. bindo (rc4_new (seal_key c key False)) (\<lambda>decrypt.
     Ok (security_interface_new encrypt decrypt (sign_key c key True) (sign_key c key False)))))"

end
