(* ===== verification/Ntlm_Laws.thy ===== *)
theory Ntlm_Laws imports Ntlm Sspi Global_Laws begin

section \<open>Laws of NTLM\<close>

text \<open>
  The security interface fulfils the contract of the security service, the authenticate
  message is accepted by a server that knows the same key, and a challenge is read without
  surprises other than the listed panics.
\<close>

subsection \<open>Sealed messages\<close>

text \<open>Two interfaces of one session: one encrypts and signs what the other decrypts and verifies.\<close>

definition mirrored :: "crypto \<Rightarrow> security_interface \<Rightarrow> security_interface \<Rightarrow> nat \<Rightarrow> bool" where
  "mirrored c s r n \<longleftrightarrow> digests c \<and> si_encrypt s = si_decrypt r \<and> si_signing_key s = si_verify_key r
     \<and> unat (si_seq_num s) + n < 2 ^ 32"

lemma process_zeros: "length xs = n \<Longrightarrow> rc4_process xs (replicate n 0) r = (case rc4_bytes xs r of (ys, r') \<Rightarrow> (Ok ys, r'))"
  by (simp add: rc4_process_def)

lemma signature_written:
  assumes "length csum = 8"
  shows "bindo (message_signature_ex (Some csum) (Some n)) to_vec = Ok ([1, 0, 0, 0] @ csum @ u32_le n)"
  using assms by (simp add: message_signature_ex_def slice_range_def to_vec_def u32_write_def slice_write_def add_filter_def u32_le_def)

lemma u32_le_le: "u32_le (le_u32 [a, b, c, d]) = [a, b, c, d]"
  by (auto simp: u32_le_def le_u32_def bit_simps intro!: bit_word_eqI dest!: bit_imp_le_length [where n = "k + m" for k m])

lemma le_u32_le: "length v = 4 \<Longrightarrow> u32_le (le_u32 v) = v"
  by (auto simp: numeral_eq_Suc length_Suc_conv u32_le_le [unfolded numeral_eq_Suc])

lemma signature_reads:
  "cursor (read_msg (MComponent [(''Version'', MCheck (MU32 (LE 1))), (''Checksum'', MSlice (replicate 8 0)), (''SeqNum'', MU32 (LE 0))])) w = (
    if length w < 4 then Err (Io UnexpectedEof)
    else if take 4 w \<noteq> [1, 0, 0, 0] then Err (rdp_err InvalidConst)
    else if length w < 16 then Err (Io UnexpectedEof)
    else Ok (MComponent [(''Version'', MCheck (MU32 (LE 1))), (''Checksum'', MSlice (take 8 (drop 4 w))),
      (''SeqNum'', MU32 (LE (le_u32 (take 4 (drop 12 w)))))], drop 16 w))"
proof (cases "length w < 4")
  case False
  then obtain v t where w: "w = v @ t" "length v = 4" by (metis append_take_drop_id length_take linorder_not_less min.absorb2)
  then have "u32_le (le_u32 v) = v" by (simp add: le_u32_le)
  moreover have "u32_le 1 = [1, 0, 0, 0]" by (simp add: u32_le_def)
  moreover have "le_u32 [1, 0, 0, 0] = 1" by (simp add: le_u32_def)
  ultimately have "le_u32 v = 1 \<longleftrightarrow> v = [1, 0, 0, 0]" using le_u32_u32_le by metis
  then show ?thesis using w \<open>le_u32 [1, 0, 0, 0] = 1\<close>
    by (auto simp: cursor_def read_defs slice_read_def read_exact_def val_eq_def rd_u32_le_def u32_read_def)
qed (simp add: cursor_def read_defs read_exact_def rd_u32_le_def u32_read_def)

lemma sealed:
  assumes "mirrored c s r (Suc n)"
  shows "\<exists>w s' r'. gss_wrapex c d s = (Ok w, s') \<and> gss_unwrapex c w r = (Ok d, r') \<and> mirrored c s' r' n"
proof -
  note m = assms [unfolded mirrored_def digests_def]
  obtain ys r1 where ys: "rc4_bytes d (si_encrypt s) = (ys, r1)" by fastforce
  define csum where "csum = take 8 (hmac_md5 c (si_signing_key s) (u32_le (si_seq_num s) @ d))"
  have csum: "slice_range (hmac_md5 c (si_signing_key s) (u32_le (si_seq_num s) @ d)) 0 8 = Ok csum" "length csum = 8"
    using m by (simp_all add: csum_def slice_range_def)
  obtain zs r2 where zs: "rc4_bytes csum r1 = (zs, r2)" by fastforce
  have lz: "length zs = 8" using bytes_length [OF zs] csum(2) by simp
  have seq: "to_vec (MU32 (LE k)) = Ok (u32_le k)" for k by (simp add: to_vec_def u32_write_def)
  have two: "to_vec (MTrame [MSlice a, MSlice b]) = Ok (a @ b)" for a b by (simp add: to_vec_def slice_write_def)
  have lim_seq: "unat (si_seq_num s) + 1 < 2 ^ 32" using m by simp
  let ?s' = "s\<lparr>si_encrypt := r2, si_seq_num := si_seq_num s + 1\<rparr>"
  let ?w = "([1, 0, 0, 0] @ zs @ u32_le (si_seq_num s)) @ ys"
  have wrap: "gss_wrapex c d s = (Ok ?w, ?s')"
    using lim_seq by (simp add: gss_wrapex_def mac_def seq csum process_zeros ys zs signature_written [OF lz] zoom_def bindp_def get_state_def
        liftp_def modp_def addw_def two del: append_assoc append_Cons append_Nil)
  have undo: "rc4_bytes ys (si_decrypt r) = (d, r1)" "rc4_bytes zs r1 = (csum, r2)"
    using bytes_involution [OF ys] bytes_involution [OF zs] m by simp_all
  have rest: "on_buffer (slice_read []) ys = Ok ys" by (simp add: on_buffer_def slice_read_def read_to_end_def)
  have unwrap: "gss_unwrapex c ?w r = (Ok d, r\<lparr>si_decrypt := r2\<rparr>)"
    using m undo lz csum bytes_length [OF zs]
    by (simp add: gss_unwrapex_def message_signature_ex_def signature_reads rest process_zeros zoom_def bindp_def liftp_def getp_def retp_def
        cast_slice_def cast_u32_def seq csum_def del: read_msg.simps)
  have "unat (si_seq_num s + 1) = Suc (unat (si_seq_num s))"
    using m by (simp add: unat_word_ariths)
  then have "mirrored c ?s' (r\<lparr>si_decrypt := r2\<rparr>) n" using assms by (simp add: mirrored_def)
  then show ?thesis using wrap unwrap by blast
qed

interpretation ntlm_security: security_service "gss_wrapex c" "gss_unwrapex c" "mirrored c" for c
  by unfold_locales (rule sealed)

subsection \<open>The authenticate message\<close>

definition field_bytes :: "nat \<Rightarrow> nat \<Rightarrow> u8 list" where
  "field_bytes n at = u16_le (of_nat n) @ u16_le (of_nat n) @ u32_le (of_nat at)"

definition version_bytes :: "u32 \<Rightarrow> u8 list" where
  "version_bytes flags = (if flags AND 0x02000000 = 0 then [] else [6, 0, 0x72, 0x17, 0, 0, 0, 0x0F])"

definition auth_header :: "u8 list \<Rightarrow> u8 list \<Rightarrow> u8 list \<Rightarrow> u8 list \<Rightarrow> u8 list \<Rightarrow> u8 list \<Rightarrow> u32 \<Rightarrow> u8 list" where
  "auth_header lm nt domain user ws key flags = (let at = 64 + length (version_bytes flags) + 16 in
     NTLMSSP @ [3, 0, 0, 0] @ field_bytes (length lm) at @ field_bytes (length nt) (at + length lm)
     @ field_bytes (length domain) (at + length lm + length nt)
     @ field_bytes (length user) (at + length lm + length nt + length domain)
     @ field_bytes (length ws) (at + length lm + length nt + length domain + length user)
     @ field_bytes (length key) (at + length lm + length nt + length domain + length user + length ws)
     @ u32_le flags @ version_bytes flags)"

lemma authenticate_written:
  assumes "authenticate_message lm nt domain user ws key flags = Ok (m, p)"
  shows "write_msg m = Ok (auth_header lm nt domain user ws key flags)" "p = lm @ nt @ domain @ user @ ws @ key"
  using assms
  by (auto simp: authenticate_message_def auth_header_def field_bytes_def version_bytes_def bindo_eq_Ok addw_def Let_def NTLMSSP_def
      u32_write_def u16_write_def u8_write_def slice_write_def add_filter_def dyn_options_def version_option_def ntlm_version_def
      u32_le_def [of 3] u16_le_def [of 6002] u16_le_def [of 0] add.assoc split: if_splits)

text \<open>What the server finds at the length and offset of a field.\<close>

definition auth_field :: "u8 list \<Rightarrow> nat \<Rightarrow> u8 list" where
  "auth_field bs at = take (unat (le_u16 (take 2 (drop at bs)))) (drop (unat (le_u32 (take 4 (drop (at + 4) bs)))) bs)"

definition auth_flags :: "u8 list \<Rightarrow> u32" where
  "auth_flags bs = le_u32 (take 4 (drop 60 bs))"

lemma length_field_bytes: "length (field_bytes n at) = 8"
  by (simp add: field_bytes_def)

lemma field_at:
  assumes "take 8 (drop at bs) = field_bytes (length f) (length p)" "bs = p @ f @ q" "length bs < 65536"
  shows "auth_field bs at = f"
proof -
  have "take 2 (drop at bs) = take 2 (take 8 (drop at bs))" "take 4 (drop (at + 4) bs) = take 4 (drop 4 (take 8 (drop at bs)))"
    by (simp_all add: take_drop min_def add.commute)
  then have "take 2 (drop at bs) = u16_le (of_nat (length f))" "take 4 (drop (at + 4) bs) = u32_le (of_nat (length p))"
    unfolding assms(1) field_bytes_def by (simp_all add: u16_le_def u32_le_def)
  then have "unat (le_u16 (take 2 (drop at bs))) = length f" "unat (le_u32 (take 4 (drop (at + 4) bs))) = length p"
    using assms(2,3) by (simp_all add: unat_of_nat take_bit_eq_mod)
  then show ?thesis by (simp add: auth_field_def assms(2))
qed

lemma auth_fields:
  assumes "bs = auth_header lm nt domain user ws key flags @ mic16 @ lm @ nt @ domain @ user @ ws @ key"
    and "length mic16 = 16" "length bs < 65536"
  shows "auth_field bs 12 = lm" "auth_field bs 20 = nt" "auth_field bs 28 = domain" "auth_field bs 36 = user"
    "auth_field bs 44 = ws" "auth_field bs 52 = key" "auth_flags bs = flags"
proof -
  let ?h = "auth_header lm nt domain user ws key flags @ mic16"
  have len: "length ?h = 64 + length (version_bytes flags) + 16"
    using assms(2) by (simp add: auth_header_def length_field_bytes NTLMSSP_def Let_def)
  note cut = auth_header_def Let_def length_field_bytes NTLMSSP_def add.assoc
  show "auth_field bs 12 = lm"
    by (rule field_at [where p = ?h and q = "nt @ domain @ user @ ws @ key"]) (use assms len in \<open>simp_all add: cut\<close>)
  show "auth_field bs 20 = nt"
    by (rule field_at [where p = "?h @ lm" and q = "domain @ user @ ws @ key"]) (use assms len in \<open>simp_all add: cut\<close>)
  show "auth_field bs 28 = domain"
    by (rule field_at [where p = "?h @ lm @ nt" and q = "user @ ws @ key"]) (use assms len in \<open>simp_all add: cut\<close>)
  show "auth_field bs 36 = user"
    by (rule field_at [where p = "?h @ lm @ nt @ domain" and q = "ws @ key"]) (use assms len in \<open>simp_all add: cut\<close>)
  show "auth_field bs 44 = ws"
    by (rule field_at [where p = "?h @ lm @ nt @ domain @ user" and q = key]) (use assms len in \<open>simp_all add: cut\<close>)
  show "auth_field bs 52 = key"
    by (rule field_at [where p = "?h @ lm @ nt @ domain @ user @ ws" and q = "[]"]) (use assms len in \<open>simp_all add: cut\<close>)
  show "auth_flags bs = flags"
    using assms(1) by (simp add: auth_flags_def cut u32_le_def) (use le_u32_u32_le [of flags] in \<open>simp add: u32_le_def\<close>)
qed


subsection \<open>Challenges\<close>

lemma read_exact_Ok: "read_exact n s = (Ok a, t) \<longleftrightarrow> n \<le> length s \<and> a = take n s \<and> t = drop n s"
  by (auto simp: read_exact_def)

lemma reads_of_Ok:
  "read_msg (MU16 (LE a)) s = (Ok m, t) \<Longrightarrow> t = drop 2 s \<and> (\<exists>w. m = MU16 (LE w))"
  "read_msg (MU32 (LE b)) s = (Ok m, t) \<Longrightarrow> t = drop 4 s \<and> (\<exists>w. m = MU32 (LE w))"
  "0 < n \<Longrightarrow> read_msg (MSlice (replicate n 0)) s = (Ok m, t) \<Longrightarrow> t = drop n s \<and> m = MSlice (take n s)"
  "read_msg (MCheck u) s = (Ok m, t) \<Longrightarrow> \<exists>x. read_msg u s = (Ok x, t) \<and> m = MCheck x"
  "read_msg (MDyn u f) s = (Ok m, t) \<Longrightarrow> \<exists>x. read_msg u s = (Ok x, t) \<and> m = MDyn x f"
  by (auto simp: bindp_eq_Ok u16_read_def u32_read_def slice_read_def rd_u16_le_def rd_u32_le_def check_read_def read_exact_Ok retp_def
      failp_def split: if_splits)

lemma read_signature: "read_msg (MSlice NTLMSSP) s = (Ok m, t) \<Longrightarrow> t = drop 8 s"
  by (auto simp: bindp_eq_Ok slice_read_def read_exact_Ok retp_def NTLMSSP_def numeral_eq_Suc)

text \<open>A field that always takes \<open>n\<close> bytes and at most skips fields of \<open>V\<close>.\<close>

definition fixed :: "string set \<Rightarrow> message \<Rightarrow> nat \<Rightarrow> bool" where
  "fixed V u n \<longleftrightarrow> (\<forall>s m t opt. read_msg u s = (Ok m, t) \<longrightarrow> options m = Ok opt \<longrightarrow>
     t = drop n s \<and> add_size opt Map.empty = Map.empty \<and> (\<forall>F. add_filter opt F \<subseteq> F \<union> V))"

lemma component_read_at:
  assumes "component_read (map (\<lambda>(k, m). (k, m, read_msg m)) (fs @ (k, t) # gs)) F Map.empty s = (Ok rs, s')"
    and "list_all2 (\<lambda>(j, u) n. j \<noteq> k \<and> j \<notin> V \<and> fixed V u n) fs ns" "F \<subseteq> V" "k \<notin> V"
  shows "\<exists>m u. read_msg t (drop (sum_list ns) s) = (Ok m, u) \<and> map_of rs k = Some m"
  using assms(2,1,3)
proof (induction fs ns arbitrary: F s rs rule: list_all2_induct)
  case Nil
  then have "k \<notin> F" using assms(4) by blast
  then show ?case using Nil by (auto simp: bindp_eq_Ok retp_def liftp_def)
next
  case (Cons f fs n ns)
  obtain j u where f: "f = (j, u)" by fastforce
  then have "j \<notin> F" using Cons by auto
  then obtain m t1 opt rs1 where m: "read_msg u s = (Ok m, t1)" "options m = Ok opt" "rs = (j, m) # rs1"
    "component_read (map (\<lambda>(k, m). (k, m, read_msg m)) (fs @ (k, t) # gs)) (add_filter opt F) (add_size opt Map.empty) t1 = (Ok rs1, s')"
    using Cons.prems(1) f by (auto simp: bindp_eq_Ok retp_def liftp_def)
  have "fixed V u n" using Cons.hyps(1) f by simp
  then have "t1 = drop n s" "add_size opt Map.empty = Map.empty" "add_filter opt F \<subseteq> F \<union> V"
    using m(1,2) unfolding fixed_def by blast+
  with Cons.prems(2) have "t1 = drop n s" "add_size opt Map.empty = Map.empty" "add_filter opt F \<subseteq> V" by blast+
  moreover have "k \<noteq> j" using Cons.hyps(1) f by auto
  ultimately show ?case using Cons.IH [of "add_filter opt F" t1 rs1] m by (auto simp: add.commute)
qed

lemma read_at:
  assumes "read_msg (MComponent (fs @ (k, t) # gs)) s = (Ok m, s')"
    and "list_all2 (\<lambda>(j, u) n. j \<noteq> k \<and> j \<notin> V \<and> fixed V u n) fs ns" "k \<notin> V"
  shows "\<exists>x u. read_msg t (drop (sum_list ns) s) = (Ok x, u) \<and> field m k = Ok x"
proof -
  obtain rs where "m = MComponent rs" "component_read (map (\<lambda>(k, m). (k, m, read_msg m)) (fs @ (k, t) # gs)) {} Map.empty s = (Ok rs, s')"
    using assms(1) by (auto simp: bindp_eq_Ok retp_def)
  then show ?thesis using component_read_at [OF _ assms(2) _ assms(3)] by fastforce
qed

lemma challenge_fixed:
  "fixed V (MCheck (MSlice NTLMSSP)) 8" "fixed V (MCheck (MU32 (LE 2))) 4" "fixed V (MU16 (LE 0)) 2" "fixed V (MU32 (LE 0)) 4"
  "fixed {''Version''} (MDyn (MU32 (LE 0)) version_option) 4"
  unfolding fixed_def
  by (auto dest!: reads_of_Ok read_signature simp: add_size_def add_filter_def version_option_def dyn_options_def
      simp del: read_msg.simps split: if_splits)

lemma server_challenge_read:
  assumes "read_msg challenge_message bs = (Ok m, rest)"
  shows "field m ''ServerChallenge'' = Ok (MSlice (take 8 (drop 24 bs)))"
proof -
  note at = read_at [where fs = "[(''Signature'', MCheck (MSlice NTLMSSP)), (''MessageType'', MCheck (MU32 (LE 2))),
     (''TargetNameLen'', MU16 (LE 0)), (''TargetNameLenMax'', MU16 (LE 0)), (''TargetNameBufferOffset'', MU32 (LE 0)),
     (''NegotiateFlags'', MDyn (MU32 (LE 0)) version_option)]" and ns = "[8, 4, 2, 2, 4, 4]" and k = "''ServerChallenge''"
     and V = "{''Version''}" and t = "MSlice (replicate 8 0)", unfolded append_Cons append_Nil]
  have "\<exists>x u. read_msg (MSlice (replicate 8 0)) (drop (sum_list [8, 4, 2, 2, 4, 4]) bs) = (Ok x, u) \<and> field m ''ServerChallenge'' = Ok x"
    by (rule at [OF assms [unfolded challenge_message_def]]) (simp_all add: challenge_fixed)
  then show ?thesis by (auto dest!: reads_of_Ok(3) [rotated] simp del: read_msg.simps)
qed


subsection \<open>A server of the protocol\<close>

text \<open>
  What a server does with the authenticate message, given the user's NTLMv2 key, the challenge
  it sent and the messages exchanged: it checks the proof of the NT response, decrypts the
  session key with the base key, and checks the MIC over the messages with the MIC zeroed.
\<close>

definition server_session :: "crypto \<Rightarrow> u8 list \<Rightarrow> u8 list \<Rightarrow> u8 list \<Rightarrow> u8 list \<Rightarrow> u8 list \<Rightarrow> u8 list option" where
  "server_session c key_nt server_challenge nego request out = (
     let nt = auth_field out 20; proof = take 16 nt; temp = drop 16 nt;
       at = (if auth_flags out AND 0x02000000 = 0 then 64 else 72);
       zeroed = take at out @ replicate 16 0 @ drop (at + 16) out in
     if proof \<noteq> hmac_md5 c key_nt (server_challenge @ temp) then None
     else case rc4k (hmac_md5 c key_nt proof) (auth_field out 52) of
       Ok key \<Rightarrow> if take 16 (drop at out) \<noteq> hmac_md5 c key (nego @ request @ zeroed) then None else Some key
     | _ \<Rightarrow> None)"

lemma rc4k_involution:
  assumes "rc4k key x = Ok y" shows "rc4k key y = Ok x" "length y = length x"
proof -
  obtain r where n: "rc4_new key = Ok r" using assms by (auto simp: rc4k_def bindo_eq_Ok)
  obtain ys r' where b: "rc4_bytes x r = (ys, r')" by fastforce
  have r: "rc4_new key = Ok r" "rc4_bytes x r = (ys, r')" "y = ys" using assms n b by (simp_all add: rc4k_def rc4_process_def)
  show "rc4k key y = Ok x" "length y = length x"
    using r bytes_involution [OF r(2)] bytes_length [OF r(2)] by (simp_all add: rc4k_def rc4_process_def)
qed

lemma random_length: "random n e = (Ok bs, e') \<Longrightarrow> length bs = n"
  by (induction n arbitrary: e bs) (auto simp: bindp_eq_Ok retp_def)

lemma trame_two: "write_msg (MTrame [a, MSlice x, MSlice y]) = Ok bs \<longleftrightarrow> (\<exists>h. write_msg a = Ok h \<and> bs = h @ x @ y)"
  by (auto simp: bindo_eq_Ok slice_write_def)

lemma mic_three: "mic c key negotiate challenge out = hmac_md5 c key (negotiate @ challenge @ out)"
  by (simp add: mic_def)

lemma challenge_answered:
  assumes "read_challenge_message c request (n, e) = (Ok out, (n', e'))" "n_negotiate_message n = Some nego"
  obtains temp lm nt key enc dom usr flags head where
    "nt = hmac_md5 c (n_response_key_nt n) (take 8 (drop 24 request) @ temp) @ temp"
    "head = auth_header lm nt dom usr [] enc flags"
    "length key = 16" "n_exported_session_key n' = Some key"
    "rc4k (hmac_md5 c (n_response_key_nt n) (hmac_md5 c (n_response_key_nt n) (take 8 (drop 24 request) @ temp))) key = Ok enc"
    "out = head @ hmac_md5 c key (nego @ request @ head @ replicate 16 0 @ lm @ nt @ dom @ usr @ enc) @ lm @ nt @ dom @ usr @ enc"
proof -
  let ?hm = "hmac_md5 c"
  let ?temp = "\<lambda>timestamp cc target. concat [[1], [1], z 6, timestamp, cc, z 4, target]"
  obtain m f sc target timestamp cc e1 key e2 enc flags n2 header payload h where
    m: "on_buffer (read_msg challenge_message) request = Ok m" "field m ''ServerChallenge'' = Ok f" "cast_slice f = Ok sc" and
    key: "random 16 e1 = (Ok key, e2)" "n_exported_session_key n' = Some key" and
    enc: "rc4k (?hm (n_response_key_nt n) (?hm (n_response_key_nt n) (sc @ ?temp timestamp cc target))) key = Ok enc" and
    auth: "authenticate_message (?hm (n_response_key_lm n) (sc @ cc) @ cc)
      (?hm (n_response_key_nt n) (sc @ ?temp timestamp cc target) @ ?temp timestamp cc target)
      (get_domain_name n2) (get_user_name n2) [] enc flags = Ok (header, payload)" and
    h: "write_msg header = Ok h" and
    out: "out = h @ ?hm key (nego @ request @ h @ replicate 16 0 @ payload) @ payload"
    using assms
    by (auto simp: read_challenge_message_def bindp_eq_Ok liftp_def zoom_Ok getp_def modp_def compute_response_v2_def kx_key_v2_def mic_three trame_two
      slice_write_def bindo_eq_Ok Let_def unwrap_option_def
      simp del: concat.simps negotiate_code.simps write_msg.simps(5))
  obtain left where "read_msg challenge_message request = (Ok m, left)" using m(1) unfolding on_buffer_def by (metis prod.collapse)
  then have sc: "sc = take 8 (drop 24 request)" using m server_challenge_read by (force simp: cast_slice_def)
  show thesis
    by (rule that [where temp = "?temp timestamp cc target" and lm = "?hm (n_response_key_lm n) (sc @ cc) @ cc" and dom = "get_domain_name n2"
        and usr = "get_user_name n2" and flags = flags and key = key and enc = enc, OF refl refl]) (use sc key enc out authenticate_written [OF auth] h random_length [OF key(1)] in simp_all)
qed

lemma length_auth_header: "length (auth_header lm nt domain user ws key flags) = 64 + length (version_bytes flags)"
  by (simp add: auth_header_def length_field_bytes NTLMSSP_def Let_def)

lemma flags_skip: "length (version_bytes flags) = (if flags AND 0x02000000 = 0 then 0 else 8)"
  by (simp add: version_bytes_def)

text \<open>
  C33. The answer to a challenge authenticates the client: a server that knows the user's key,
  its own challenge and the messages exchanged accepts the answer. It verifies the proof of
  the NT response and the integrity code of the whole conversation, and the session key it
  decrypts is the one the client has stored, 16 bytes drawn from the random source.
\<close>

theorem ntlm_authenticates:
  assumes "read_challenge_message c request (n, e) = (Ok out, (n', e'))" "digests c" "length out < 65536"
    and "n_negotiate_message n = Some nego"
  shows "\<exists>key. server_session c (n_response_key_nt n) (take 8 (drop 24 request)) nego request out = Some key
     \<and> n_exported_session_key n' = Some key \<and> length key = 16"
proof -
  obtain temp lm nt key enc dom usr flags head where
    nt: "nt = hmac_md5 c (n_response_key_nt n) (take 8 (drop 24 request) @ temp) @ temp" and
    head: "head = auth_header lm nt dom usr [] enc flags" and
    key: "length key = 16" "n_exported_session_key n' = Some key" and
    enc: "rc4k (hmac_md5 c (n_response_key_nt n) (hmac_md5 c (n_response_key_nt n) (take 8 (drop 24 request) @ temp))) key = Ok enc" and
    out: "out = head @ hmac_md5 c key (nego @ request @ head @ replicate 16 0 @ lm @ nt @ dom @ usr @ enc) @ lm @ nt @ dom @ usr @ enc"
    using challenge_answered [OF assms(1,4)] by metis
  let ?mic = "hmac_md5 c key (nego @ request @ head @ replicate 16 0 @ lm @ nt @ dom @ usr @ enc)"
  have mic: "length ?mic = 16" and sixteen: "length (hmac_md5 c (n_response_key_nt n) x) = 16" for x
    using assms(2) by (simp_all add: digests_def)
  have "auth_field out 20 = nt" "auth_field out 52 = enc" "auth_flags out = flags"
    using auth_fields [of out lm nt dom usr "[]" enc flags ?mic] out head mic assms(3) by simp_all
  moreover have "length head = (if flags AND 0x02000000 = 0 then 64 else 72)"
    using flags_skip [of flags] by (simp add: head length_auth_header)
  ultimately show ?thesis
    using key rc4k_involution(1) [OF enc] nt mic sixteen by (simp add: server_session_def Let_def out)
qed


lemma random_run: "random n e = (Ok (map e [0..<n]), \<lambda>k. e (n + k))"
proof (induction n arbitrary: e)
  case (Suc n)
  have "map e [0..<Suc n] = e 0 # map (\<lambda>k. e (Suc k)) [0..<n]" by (simp add: upt_conv_Cons map_Suc_upt [symmetric] comp_def del: upt_Suc)
  then show ?case using Suc by (simp add: bindp_def retp_def)
qed (simp add: retp_def)

lemma rc4k_total:
  assumes "1 \<le> length key" "length key \<le> 256" shows "\<exists>y. rc4k key x = Ok y \<and> length y = length x"
proof -
  obtain r where r: "rc4_new key = Ok r" using assms by (simp add: rc4_new_def)
  obtain ys r' where "rc4_bytes x r = (ys, r')" by fastforce
  then show ?thesis using r bytes_length by (auto simp: rc4k_def rc4_process_def)
qed

subsection \<open>An example\<close>

definition sample_crypto :: crypto where
  "sample_crypto = \<lparr>md4 = (\<lambda>bs. replicate 16 1), md5 = (\<lambda>bs. replicate 16 2),
     hmac_md5 = (\<lambda>k bs. replicate 16 (of_nat (length bs))), to_uppercase = (\<lambda>s. s)\<rparr>"

definition known_user :: ntlm where
  "known_user = ntlm_new sample_crypto [100] [102, 111, 111] [112]\<lparr>n_negotiate_message := Some [78]\<rparr>"

definition sample_challenge :: "u8 list" where
  "sample_challenge = NTLMSSP @ [2, 0, 0, 0] @ [0, 0, 0, 0, 48, 0, 0, 0] @ [1, 2, 0, 0] @ [1, 2, 3, 4, 5, 6, 7, 8] @ replicate 8 0
     @ [16, 0, 16, 0, 48, 0, 0, 0] @ [7, 0, 8, 0, 1, 1, 1, 1, 2, 2, 2, 2] @ [0, 0, 0, 0]"

lemma replicate_eight: "replicate 8 x = [x, x, x, x, x, x, x, x]"
  by (simp add: numeral_eq_Suc)

lemma sample_read:
  "on_buffer (read_msg challenge_message) sample_challenge = Ok (MComponent [
     (''Signature'', MCheck (MSlice NTLMSSP)),
     (''MessageType'', MCheck (MU32 (LE 2))),
     (''TargetNameLen'', MU16 (LE 0)), (''TargetNameLenMax'', MU16 (LE 0)), (''TargetNameBufferOffset'', MU32 (LE 48)),
     (''NegotiateFlags'', MDyn (MU32 (LE 513)) version_option),
     (''ServerChallenge'', MSlice [1, 2, 3, 4, 5, 6, 7, 8]),
     (''Reserved'', MSlice [0, 0, 0, 0, 0, 0, 0, 0]),
     (''TargetInfoLen'', MU16 (LE 16)), (''TargetInfoMaxLen'', MU16 (LE 16)), (''TargetInfoBufferOffset'', MU32 (LE 48)),
     (''Version'', ntlm_version),
     (''Payload'', MSlice [7, 0, 8, 0, 1, 1, 1, 1, 2, 2, 2, 2, 0, 0, 0, 0])])"
  by (simp add: on_buffer_def sample_challenge_def challenge_message_def NTLMSSP_def read_defs slice_read_def read_exact_def read_to_end_def
      replicate_eight val_eq_def dyn_options_def version_option_def u16_read_def u32_read_def rd_u16_le_def rd_u32_le_def le_u16_def le_u32_def)


lemma sample_target: "read_target_info [7, 0, 8, 0, 1, 1, 1, 1, 2, 2, 2, 2, 0, 0, 0, 0] = Ok [MsvAvTimestamp \<mapsto> [1, 1, 1, 1, 2, 2, 2, 2]]"
proof -
  have "av_id_of 7 = Ok MsvAvTimestamp" "av_id_of 0 = Ok MsvAvEOL" by (simp_all add: av_id_of_def)
  moreover have "read_msg av_pair ([7, 0, 8, 0, 1, 1, 1, 1, 2, 2, 2, 2] @ t) = (Ok (MComponent [(''AvId'', MU16 (LE 7)),
     (''AvLen'', MDyn (MU16 (LE 8)) (\<lambda>v. Ok (Size ''Value'' (unat (view_u16 v))))), (''Value'', MSlice [1, 1, 1, 1, 2, 2, 2, 2])]), t)" for t
    by (simp add: av_pair_def read_defs slice_read_def read_local_def on_buffer_def read_exact_def read_to_end_def dyn_options_def u16_read_def
      rd_u16_le_def le_u16_def)
  moreover have "read_msg av_pair [0, 0, 0, 0] = (Ok (MComponent [(''AvId'', MU16 (LE 0)),
     (''AvLen'', MDyn (MU16 (LE 0)) (\<lambda>v. Ok (Size ''Value'' (unat (view_u16 v))))), (''Value'', MSlice [])]), [])"
    by (simp add: av_pair_def read_defs slice_read_def read_local_def on_buffer_def read_exact_def read_to_end_def dyn_options_def u16_read_def
      rd_u16_le_def le_u16_def)
  ultimately show ?thesis
    using read_av_pairs.simps(2) [of 15] read_av_pairs.simps(2) [of 16]
    by (simp add: read_target_info_def on_buffer_def bindp_def liftp_def retp_def cast_u16_def cast_slice_def)
qed


lemma sample_field:
  "target_info_field (MComponent [
     (''Signature'', MCheck (MSlice NTLMSSP)),
     (''MessageType'', MCheck (MU32 (LE 2))),
     (''TargetNameLen'', MU16 (LE 0)), (''TargetNameLenMax'', MU16 (LE 0)), (''TargetNameBufferOffset'', MU32 (LE 48)),
     (''NegotiateFlags'', MDyn (MU32 (LE 513)) version_option),
     (''ServerChallenge'', MSlice [1, 2, 3, 4, 5, 6, 7, 8]),
     (''Reserved'', MSlice [0, 0, 0, 0, 0, 0, 0, 0]),
     (''TargetInfoLen'', MU16 (LE 16)), (''TargetInfoMaxLen'', MU16 (LE 16)), (''TargetInfoBufferOffset'', MU32 (LE 48)),
     (''Version'', ntlm_version),
     (''Payload'', MSlice [7, 0, 8, 0, 1, 1, 1, 1, 2, 2, 2, 2, 0, 0, 0, 0])])
   = Ok [7, 0, 8, 0, 1, 1, 1, 1, 2, 2, 2, 2, 0, 0, 0, 0]"
  by (simp add: target_info_field_def get_payload_field_def cast_u16_def cast_u32_def cast_slice_def slice_range_def
    u32_length_def u16_length_def slice_length_def NTLMSSP_def dyn_options_def version_option_def add_filter_def)

lemma authenticate_total:
  assumes "length lm + length nt + length domain + length user + length ws < 65536"
  shows "\<exists>m. authenticate_message lm nt domain user ws key flags = Ok (m, lm @ nt @ domain @ user @ ws @ key)
     \<and> write_msg m = Ok (auth_header lm nt domain user ws key flags)"
proof -
  have "unat (of_nat n :: u32) = n" if "n < 65536" for n using that by (simp add: unat_of_nat take_bit_eq_mod)
  then have "\<exists>m p. authenticate_message lm nt domain user ws key flags = Ok (m, p)"
    using assms by (simp add: authenticate_message_def Let_def addw_def flip: of_nat_add)
  then show ?thesis using authenticate_written by blast
qed

lemma known_names:
  "get_domain_name (known_user\<lparr>n_exported_session_key := k, n_is_unicode := True\<rparr>) = [100, 0]"
  "get_user_name (known_user\<lparr>n_exported_session_key := k, n_is_unicode := True\<rparr>) = [102, 0, 111, 0, 111, 0]"
  "n_negotiate_message known_user = Some [78]"
  by (simp_all add: get_domain_name_def get_user_name_def encoded_def known_user_def ntlm_new_def unicode_def encode_utf16_def u16_le_def)

lemma sample_answered:
  "\<exists>out s. read_challenge_message sample_crypto sample_challenge (known_user, \<lambda>_. 5) = (Ok out, s) \<and> length out < 65536"
proof -
  obtain enc where enc: "rc4k (replicate 16 16) (replicate 16 5) = Ok enc" "length enc = 16"
    using rc4k_total [of "replicate 16 16" "replicate 16 5"] by auto
  have hm: "hmac_md5 sample_crypto k bs = replicate 16 (of_nat (length bs))" for k bs by (simp add: sample_crypto_def)
  have five: "map (\<lambda>_. 5) [0..<n] = replicate n 5" for n by (simp add: map_replicate_const)
  let ?lm = "replicate 16 16 @ replicate 8 5"
  let ?nt = "replicate 16 52 @ 1 # 1 # z 6 @ 1 # 1 # 1 # 1 # 2 # 2 # 2 # 2 # replicate 8 5 @ z 4 @ [7, 0, 8, 0, 1, 1, 1, 1, 2, 2, 2, 2, 0, 0, 0, 0]"
  obtain m where m: "authenticate_message ?lm ?nt [100, 0] [102, 0, 111, 0, 111, 0] [] enc 513
      = Ok (m, ?lm @ ?nt @ [100, 0] @ [102, 0, 111, 0, 111, 0] @ [] @ enc)"
    "write_msg m = Ok (auth_header ?lm ?nt [100, 0] [102, 0, 111, 0, 111, 0] [] enc 513)"
    using authenticate_total [of ?lm ?nt "[100, 0]" "[102, 0, 111, 0, 111, 0]" "[]" enc 513] by (auto simp: z_def)
  have z_length: "length (z n) = n" for n by (simp add: z_def)
  show ?thesis
    using enc m
    by (simp add: read_challenge_message_def sample_read sample_target sample_field bindp_def liftp_def zoom_def getp_def z_length
      modp_def random_run compute_response_v2_def Let_def cast_slice_def cast_u32_def kx_key_v2_def hm five trame_two known_names mic_three
      unwrap_option_def slice_write_def to_vec_def length_auth_header flags_skip)
qed


theorem ntlm_authenticates_witness:
  "\<exists>out n e key. read_challenge_message sample_crypto sample_challenge (known_user, \<lambda>_. 5) = (Ok out, (n, e))
     \<and> server_session sample_crypto (n_response_key_nt known_user) (take 8 (drop 24 sample_challenge)) [78] sample_challenge out = Some key
     \<and> n_exported_session_key n = Some key"
proof -
  obtain out n e where out: "read_challenge_message sample_crypto sample_challenge (known_user, \<lambda>_. 5) = (Ok out, (n, e))" "length out < 65536"
    using sample_answered by fastforce
  have "digests sample_crypto" by (simp add: digests_def sample_crypto_def)
  then show ?thesis using ntlm_authenticates [OF out(1) _ out(2), of "[78]"] out(1) known_names(3) by auto
qed

text \<open>
  C34. Sealed messages arrive: with the session key both sides share, every sequence of
  messages the client wraps is unwrapped to the same sequence by the security interface with the
  roles exchanged, and every sequence the server wraps is unwrapped by the client's. The
  two directions use different keys and streams.
\<close>

definition server_interface :: "crypto \<Rightarrow> u8 list \<Rightarrow> security_interface outcome" where
  "server_interface c key = bindo (rc4_new (seal_key c key False)) (\<lambda>encrypt. bindo (rc4_new (seal_key c key True)) (\<lambda>decrypt.
     Ok (security_interface_new encrypt decrypt (sign_key c key False) (sign_key c key True))))"

theorem ntlm_sealed_stream:
  assumes "build_security_interface c n = Ok s" "n_exported_session_key n = Some key" "digests c" "length ds < 2 ^ 32"
  shows "\<exists>r. server_interface c key = Ok r
     \<and> (\<exists>ws s' r'. each (gss_wrapex c) ds s = (Ok ws, s') \<and> each (gss_unwrapex c) ws r = (Ok ds, r'))
     \<and> (\<exists>ws r' s'. each (gss_wrapex c) ds r = (Ok ws, r') \<and> each (gss_unwrapex c) ws s = (Ok ds, s'))"
proof -
  obtain a b where ab: "rc4_new (seal_key c key True) = Ok a" "rc4_new (seal_key c key False) = Ok b"
    and s: "s = security_interface_new a b (sign_key c key True) (sign_key c key False)"
    using assms(1,2) by (auto simp: build_security_interface_def unwrap_option_def bindo_eq_Ok)
  let ?r = "security_interface_new b a (sign_key c key False) (sign_key c key True)"
  have "server_interface c key = Ok ?r" using ab by (simp add: server_interface_def)
  moreover have "mirrored c s ?r (length ds + 0)" "mirrored c ?r s (length ds + 0)"
    using assms(3,4) by (simp_all add: mirrored_def s security_interface_new_def)
  ultimately show ?thesis using ntlm_security.sealed_messages by meson
qed

theorem ntlm_sealed_stream_witness:
  "\<exists>s r ws s' r'. build_security_interface sample_crypto (known_user\<lparr>n_exported_session_key := Some [1, 2, 3]\<rparr>) = Ok s
     \<and> server_interface sample_crypto [1, 2, 3] = Ok r
     \<and> each (gss_wrapex sample_crypto) [[1, 2], [3]] s = (Ok ws, s') \<and> each (gss_unwrapex sample_crypto) ws r = (Ok [[1, 2], [3]], r')"
proof -
  obtain s where s: "build_security_interface sample_crypto (known_user\<lparr>n_exported_session_key := Some [1, 2, 3]\<rparr>) = Ok s"
    by (simp add: build_security_interface_def unwrap_option_def rc4_new_def seal_key_def sample_crypto_def)
  have "digests sample_crypto" by (simp add: digests_def sample_crypto_def)
  then show ?thesis using ntlm_sealed_stream [OF s, of "[1, 2, 3]" "[[1, 2], [3]]"] s by auto
qed

text \<open>
  C35. What unwrapping checks. A message shorter than a signature is an end-of-file error, a
  signature of another version an invalid constant; otherwise the payload and then the
  checksum are decrypted, and the payload is returned exactly when the checksum is the
  start of the keyed digest of the sequence number in the message and the payload. The
  sequence number itself is not compared with anything.
\<close>

theorem ntlm_unwrap_checks:
  assumes "digests c"
  shows "gss_unwrapex c w r = (
    if length w < 4 then (Err (Io UnexpectedEof), r)
    else if take 4 w \<noteq> [1, 0, 0, 0] then (Err (rdp_err InvalidConst), r)
    else if length w < 16 then (Err (Io UnexpectedEof), r)
    else let (payload, r1) = rc4_bytes (drop 16 w) (si_decrypt r); (checksum, r2) = rc4_bytes (take 8 (drop 4 w)) r1 in
      (if checksum = take 8 (hmac_md5 c (si_verify_key r) (take 4 (drop 12 w) @ payload)) then Ok payload
       else Err (rdp_err InvalidChecksum), r\<lparr>si_decrypt := r2\<rparr>))"
proof (cases "16 \<le> length w \<and> take 4 w = [1, 0, 0, 0]")
  case True
  obtain payload r1 where p: "rc4_bytes (drop 16 w) (si_decrypt r) = (payload, r1)" by fastforce
  obtain checksum r2 where q: "rc4_bytes (take 8 (drop 4 w)) r1 = (checksum, r2)" by fastforce
  have "on_buffer (slice_read []) bs = Ok bs" for bs by (simp add: on_buffer_def slice_read_def read_to_end_def)
  moreover have "slice_range (hmac_md5 c k bs) 0 8 = Ok (take 8 (hmac_md5 c k bs))" for k bs
    using assms by (simp add: digests_def slice_range_def)
  moreover have "u32_le (le_u32 (take 4 (drop 12 w))) = take 4 (drop 12 w)"
    using True by (intro le_u32_le) auto
  ultimately show ?thesis using True p q bytes_length [OF p] bytes_length [OF q]
    by (simp add: gss_unwrapex_def message_signature_ex_def signature_reads process_zeros zoom_def bindp_def liftp_def getp_def retp_def
        failp_def cast_slice_def cast_u32_def to_vec_def u32_write_def del: read_msg.simps)
next
  case False
  then show ?thesis
    by (auto simp: gss_unwrapex_def message_signature_ex_def signature_reads bindp_def liftp_def simp del: read_msg.simps)
qed


theorem ntlm_unwrap_checks_witness:
  "\<forall>r. gss_unwrapex sample_crypto [2, 0, 0, 0, 9] r = (Err (rdp_err InvalidConst), r) \<and>
     gss_unwrapex sample_crypto [1, 0, 0, 0, 9] r = (Err (Io UnexpectedEof), r)"
proof -
  have "digests sample_crypto" by (simp add: digests_def sample_crypto_def)
  then show ?thesis using ntlm_unwrap_checks [of sample_crypto] by simp
qed

subsection \<open>Outcomes of a challenge\<close>

lemma tame_ntlm: "tame P challenge_message" "tame P av_pair" "arrays_end av_pair" "min_size av_pair = 4"
  by (simp_all add: challenge_message_def av_pair_def ntlm_version_def version_option_def)

lemma av_id_not_stuck: "wpo (av_id_of w) (\<lambda>_. True) {}"
  by (simp add: av_id_of_def)

lemma wpo_cast:
  "casts_to cast name m \<Longrightarrow> (\<And>x. wpo (f x) Q P) \<Longrightarrow> wpo (bindo (bindo (field m name) cast) f) Q P"
  "casts_to cast name m \<Longrightarrow> (\<And>x. Q' x) \<Longrightarrow> wpo (bindo (field m name) cast) Q' P"
  by (auto simp: casts_to_def)

text \<open>Messages of fixed fields: their length can be computed, and stays so when they are read.\<close>

fun plain :: "message \<Rightarrow> bool" where
  "plain (MTrame ms) = (\<forall>m \<in> set ms. plain m)"
| "plain (MComponent fs) = (\<forall>(k, m) \<in> set fs. plain m)"
| "plain (MCheck m) = plain m"
| "plain (MDyn m f) = (plain m \<and> (\<forall>v. calm (f v)))"
| "plain (MOpt x) = False"
| "plain (MArray ms t) = False"
| "plain _ = True"

lemma plain_options: "plain m \<Longrightarrow> calm (options m)"
  by (cases m) (auto simp: dyn_options_def)

lemma plain_component_length:
  "\<forall>(k, m) \<in> set fs. calm (msg_length m) \<and> calm (options m) \<Longrightarrow>
   calm (component_length (map (\<lambda>(k, m). (k, msg_length m, options m)) fs) F)"
  by (induction fs arbitrary: F) (auto intro!: calm_bindo)

lemma plain_trame_length: "\<forall>m \<in> set ms. calm (msg_length m) \<Longrightarrow> calm (trame_length (map msg_length ms))"
  by (induction ms) (auto intro!: calm_bindo)

lemma plain_length: "plain m \<Longrightarrow> calm (msg_length m)"
  by (induction m rule: plain.induct) (auto intro!: plain_component_length plain_trame_length plain_options)

lemma list_all2_source: "list_all2 P xs ys \<Longrightarrow> y \<in> set ys \<Longrightarrow> \<exists>x \<in> set xs. P x y"
  by (induction rule: list_all2_induct) auto

lemma read_keeps_check:
  assumes "fst (read_msg (MCheck t) s) = Ok m"
  shows "\<exists>x. fst (read_msg t s) = Ok x \<and> m = MCheck x"
proof -
  obtain x u where x: "check_read t (read_msg t) s = (Ok x, u)" "m = MCheck x"
    using fst_bindp_Ok [OF assms [unfolded read_msg.simps]] by (auto simp: retp_def)
  then obtain v where "read_msg t s = (Ok x, v)"
    by (auto simp: check_read_def bindp_eq_Ok failp_def retp_def split: if_splits)
  then show ?thesis using x(2) by simp
qed

lemma plain_read: "plain t \<Longrightarrow> fst (read_msg t s) = Ok m \<Longrightarrow> plain m"
proof (induction t arbitrary: s m rule: plain.induct)
  case (1 ts)
  obtain ms s' where m: "m = MTrame ms" "trame_read (map read_msg ts) s = (Ok ms, s')"
    using 1(3) by (auto simp: retp_def dest!: fst_bindp_Ok)
  have "plain x" if x: "x \<in> set ms" for x
  proof -
    obtain t u where "t \<in> set ts" "fst (read_msg t u) = Ok x"
      using list_all2_source [OF trame_read_each [OF m(2)] x] by blast
    then show ?thesis using 1(1) [of t] 1(2) by simp
  qed
  then show ?case by (simp add: m(1))
next
  case (2 fs)
  obtain rs where m: "m = MComponent rs" "list_all2 from_template fs rs" using read_component_shape 2(3) by blast
  have "plain (snd r)" if r: "r \<in> set rs" for r
  proof -
    obtain f where "f \<in> set fs" "from_template f r" using list_all2_source [OF m(2) r] by blast
    then have "plain (snd f)" "snd r = snd f \<or> (\<exists>u. fst (read_msg (snd f) u) = Ok (snd r))"
      using 2(2) by (auto simp: from_template_def)
    then show ?thesis using 2(1) [OF \<open>f \<in> set fs\<close> surjective_pairing [symmetric]] by metis
  qed
  then show ?case by (auto simp: m(1))
next
  case (3 t)
  then show ?case using read_keeps_check by (metis plain.simps(3))
next
  case (4 t f)
  then show ?case using read_keeps_dyn by (metis plain.simps(4))
qed (auto simp: retp_def dest!: fst_bindp_Ok)

lemma challenge_plain: "plain challenge_message"
  by (simp add: challenge_message_def ntlm_version_def version_option_def)

lemma wp_read_av_pairs: "length s < n \<Longrightarrow> wp (read_av_pairs n result) (\<lambda>_ _. True) {} s"
proof (induction n arbitrary: result s)
  case (Suc n)
  have "wp (read_msg av_pair) (\<lambda>m t. length t < n \<and> (casts_to cast_u16 ''AvId'' m \<and> casts_to cast_slice ''Value'' m)) {} s"
  proof (rule safeD [OF safe_read_msg [OF tame_ntlm(2)]])
    fix m t assume m: "read_msg av_pair s = (Ok m, t)"
    then have "fst (read_msg av_pair s) = Ok m" by simp
    note c = casts_to_read [OF this [unfolded av_pair_def]]
    show "length t < n \<and> (casts_to cast_u16 ''AvId'' m \<and> casts_to cast_slice ''Value'' m)"
      using consumesD [OF consumes_read_msg m] tame_ntlm(4) Suc.prems
        c(2) [of "''AvId''" "MU16 (LE 0)"] c(4) [of "''Value''" "MSlice []"] by (simp add: av_pair_def)
  qed
  then show ?case
    unfolding read_av_pairs.simps wp_bindp
    by (rule wp_mono) (auto simp: wp_liftp_wpo wp_retp wp_bindp intro!: wpo_cast wpo_mono [OF av_id_not_stuck] Suc.IH)
qed simp


lemma wpo_read_target_info: "wpo (read_target_info bs) (\<lambda>_. True) {}"
  unfolding read_target_info_def wpo_on_buffer by (rule wp_read_av_pairs) simp

lemma wp_random: "wp (random n) (\<lambda>bs _. length bs = n) P e"
  by (simp add: wp_def random_run)

lemma wpo_authenticate: "wpo (authenticate_message lm nt domain user ws key flags) (\<lambda>(h, p). \<exists>bs. write_msg h = Ok bs) {ArithOverflow}"
proof (cases "authenticate_message lm nt domain user ws key flags")
  case (Ok x)
  then show ?thesis using authenticate_written(1) by (cases x) auto
qed (auto simp: authenticate_message_def Let_def addw_def split: if_splits)

lemma wpo_payload_field:
  assumes "casts_to cast_slice ''Payload'' m" "calm (msg_length m)"
  shows "wpo (get_payload_field m len at) (\<lambda>_. True) {ArithOverflow, OutOfBounds}"
  unfolding get_payload_field_def
  by (rule wpo_cast [OF assms(1)]) (auto simp: wpo_bindo slice_range_def intro!: wpo_calm assms(2))

lemma wpo_target:
  assumes "casts_to cast_slice ''Payload'' m" "calm (msg_length m)" "casts_to cast_u16 ''TargetInfoLen'' m"
    "casts_to cast_u32 ''TargetInfoBufferOffset'' m"
  shows "wpo (target_info_field m) (\<lambda>_. True) {ArithOverflow, OutOfBounds}"
  unfolding target_info_field_def by (intro wpo_cast wpo_payload_field assms)

lemma wpo_bindo_Ok: "r = Ok a \<Longrightarrow> wpo (f a) Q P \<Longrightarrow> wpo (bindo r f) Q P"
  by simp

lemma wpo_rc4k: "length key = 16 \<Longrightarrow> wpo (rc4k key x) (\<lambda>_. True) P"
  using rc4k_total [of key x] by auto

lemma wpo_challenge:
  "wpo (on_buffer (read_msg challenge_message) request) (\<lambda>m. calm (msg_length m) \<and>
      casts_to cast_slice ''ServerChallenge'' m \<and> casts_to cast_u32 ''NegotiateFlags'' m \<and> casts_to cast_u16 ''TargetInfoLen'' m
       \<and> casts_to cast_u32 ''TargetInfoBufferOffset'' m \<and> casts_to cast_slice ''Payload'' m) P"
proof -
  have q: "calm (msg_length m) \<and>
      casts_to cast_slice ''ServerChallenge'' m \<and> casts_to cast_u32 ''NegotiateFlags'' m \<and> casts_to cast_u16 ''TargetInfoLen'' m
       \<and> casts_to cast_u32 ''TargetInfoBufferOffset'' m \<and> casts_to cast_slice ''Payload'' m"
    if m: "fst (read_msg challenge_message request) = Ok m" for m
  proof -
    note c = casts_to_read [OF m [unfolded challenge_message_def]]
    show ?thesis
      using plain_length [OF plain_read [OF challenge_plain m]] c(4) [of "''ServerChallenge''" "MSlice (replicate 8 0)"]
        c(8) [of "''NegotiateFlags''" "MDyn (MU32 (LE 0)) version_option"] c(2) [of "''TargetInfoLen''" "MU16 (LE 0)"]
        c(3) [of "''TargetInfoBufferOffset''" "MU32 (LE 0)"] c(4) [of "''Payload''" "MSlice []"] by simp
  qed
  show ?thesis
    unfolding challenge_message_def
    by (rule wpo_read_field, rule tame_ntlm(1) [unfolded challenge_message_def], rule q [unfolded challenge_message_def])
qed

lemma wp_read_challenge:
  assumes "digests c" "n_negotiate_message n = Some nego"
  shows "wp (read_challenge_message c request) (\<lambda>_ _. True) {ArithOverflow, OutOfBounds, ExplicitPanic} (n, e)"
proof -
  let ?P = "{ArithOverflow, OutOfBounds, ExplicitPanic}"
  have sixteen: "length (hmac_md5 c k bs) = 16" for k bs using assms(1) by (simp add: digests_def)
  show "wp (read_challenge_message c request) (\<lambda>_ _. True) ?P (n, e)"
    unfolding read_challenge_message_def wp_bindp wp_liftp_wpo compute_response_v2_def Let_def prod.case
    apply (rule wpo_mono [OF wpo_challenge])
    apply (elim conjE)
    apply (rule wpo_cast(2), assumption)
    apply (rule wpo_mono [OF wpo_target], assumption+)
    apply (rule wpo_bindo_Ok, assumption)
    apply (rule wpo_mono [OF wpo_read_target_info])
    apply (simp split: option.split)
    apply (simp add: wp_zoom wp_getp wp_modp wp_retp)
    apply (rule impI allI wp_mono [OF wp_random])+
    apply (rule wpo_mono [OF wpo_rc4k])
    apply (simp add: kx_key_v2_def sixteen)
    apply (rule wpo_cast(2), assumption)
    apply (rule wpo_mono [OF wpo_authenticate])
    apply (clarsimp simp: wp_simps wp_liftp_wpo assms(2) slice_write_def to_vec_def)
    by (auto simp: unwrap_option_def)
qed

text \<open>
  Reading a challenge always ends. Besides a value or an error it panics in three ways only:
  a field offset outside the payload underflows or leaves the slice, and a target information
  without a timestamp is an explicit panic. (A missing negotiate message would be a fourth.)
\<close>

lemma ntlm_challenge_outcomes:
  assumes "digests c" "n_negotiate_message n = Some nego"
  shows "fst (read_challenge_message c request (n, e)) \<noteq> Diverge
    \<and> (\<forall>p. fst (read_challenge_message c request (n, e)) = Panic p \<longrightarrow> p \<in> {ArithOverflow, OutOfBounds, ExplicitPanic})"
  using wp_read_challenge [OF assms, of request e]
  by (cases "read_challenge_message c request (n, e)") (auto dest: wp_outcome)

lemma ntlm_challenge_outcomes_witness:
  "fst (read_challenge_message sample_crypto [1, 2, 3] (known_user, \<lambda>_. 0)) \<noteq> Diverge"
  using ntlm_challenge_outcomes [of sample_crypto known_user "[78]" "[1, 2, 3]" "\<lambda>_. 0"] known_names(3)
  by (simp add: digests_def sample_crypto_def)


text \<open>
  The negotiate message has 32 bytes, asks for key exchange, 128-bit keys, extended session
  security, signing, sealing and Unicode, carries no version, and is kept for the integrity code.
\<close>

lemma ntlm_negotiate_sent:
  "create_negotiate_message (n, e) = (let bs = NTLMSSP @ [1, 0, 0, 0] @ [0x35, 0x82, 0x08, 0x60] @ replicate 16 0
     in (Ok bs, (n\<lparr>n_negotiate_message := Some bs\<rparr>, e)))"
proof -
  have "write_msg (negotiate_message 0x60088235) = Ok (NTLMSSP @ [1, 0, 0, 0] @ [0x35, 0x82, 0x08, 0x60] @ replicate 16 0)"
    by (simp add: negotiate_message_def u32_write_def u16_write_def slice_write_def dyn_options_def version_option_def add_filter_def
        u32_le_def u16_le_def NTLMSSP_def replicate_eight replicate_add [of 8 8, simplified])
  then show ?thesis
    by (simp add: create_negotiate_message_def to_vec_def bindp_def liftp_def zoom_def modp_def retp_def Let_def)
qed

end
