(* ===== verification/Cssp.thy ===== *)
theory Cssp imports Ntlm_Laws Asn1 X224 begin

section \<open>CredSSP\<close>

text \<open>
  \<^verbatim>\<open>src/src/nla/cssp.rs\<close>: the messages of the protocol and \<open>cssp_connect\<close>, which drives an
  authentication protocol over a TLS link. The protocol is a value of the type that stands for
  the traits of \<^verbatim>\<open>src/src/nla/sspi.rs\<close>; NTLM is one. The certificate parser and the
  big numbers are libraries, the fields of \<open>crates\<close>: of a certificate the code uses the public
  key, of a number its value from little-endian bytes.
\<close>

subsection \<open>Parameters\<close>

record x509_certificate =
  subject_public_key :: "u8 list"

record crates =
  cr_yasna :: yasna
  parse_x509_der :: "u8 list \<Rightarrow> x509_certificate option"
  from_bytes_le :: "u8 list \<Rightarrow> nat"

subsection \<open>Messages\<close>

abbreviation tagged :: "nat \<Rightarrow> asn1 \<Rightarrow> asn1" where
  "tagged n \<equiv> AExplicitTag (ContextTag n)"

definition create_ts_request :: "yasna \<Rightarrow> u8 list \<Rightarrow> u8 list" where
  "create_ts_request y nego = to_der y (ASequence [
     (''version'', tagged 0 (AInteger 2)),
     (''negoTokens'', tagged 1 (ASequenceOf [ASequence [(''negoToken'', tagged 0 (AOctetString nego))]] None))])"

definition read_ts_server_challenge :: "yasna \<Rightarrow> u8 list \<Rightarrow> u8 list outcome" where
  "read_ts_server_challenge y stream =
     bindo (from_der y (ASequence [
       (''version'', tagged 0 (AInteger 2)),
       (''negoTokens'', tagged 1 (ASequenceOf [] (Some (ASequence [(''negoToken'', tagged 0 (AOctetString []))]))))]) stream) (\<lambda>r.
     bindo (cast_sequence r) (\<lambda>ts_request.
     bindo (bindo (asn1_field ts_request ''negoTokens'') (\<lambda>a. unwrap (cast_sequence_of a))) (\<lambda>nego_tokens.
     bindo (bindo (slice_get nego_tokens 0) (\<lambda>a. unwrap (cast_sequence a))) (\<lambda>first_nego_tokens.
     bindo (asn1_field first_nego_tokens ''negoToken'') (\<lambda>a. unwrap (cast_octets a))))))"

definition create_ts_authenticate :: "yasna \<Rightarrow> u8 list \<Rightarrow> u8 list \<Rightarrow> u8 list" where
  "create_ts_authenticate y nego pub_key_auth = to_der y (ASequence [
     (''version'', tagged 0 (AInteger 2)),
     (''negoTokens'', tagged 1 (ASequenceOf [ASequence [(''negoToken'', tagged 0 (AOctetString nego))]] None)),
     (''pubKeyAuth'', tagged 3 (AOctetString pub_key_auth))])"

definition read_public_certificate :: "crates \<Rightarrow> u8 list \<Rightarrow> x509_certificate outcome" where
  "read_public_certificate lib stream = unwrap_option (parse_x509_der lib stream)"

definition read_ts_validate :: "yasna \<Rightarrow> u8 list \<Rightarrow> u8 list outcome" where
  "read_ts_validate y request =
     bindo (from_der y (ASequence [(''version'', tagged 0 (AInteger 2)), (''pubKeyAuth'', tagged 3 (AOctetString []))]) request) (\<lambda>r.
     bindo (cast_sequence r) (\<lambda>ts_challenge. bindo (asn1_field ts_challenge ''pubKeyAuth'') cast_octets))"

definition create_ts_credentials :: "yasna \<Rightarrow> u8 list \<Rightarrow> u8 list \<Rightarrow> u8 list \<Rightarrow> u8 list" where
  "create_ts_credentials y domain user password = (
     let ts_password_cred_encoded = construct_der y (write_asn1 (ASequence [
       (''domainName'', tagged 0 (AOctetString domain)),
       (''userName'', tagged 1 (AOctetString user)),
       (''password'', tagged 2 (AOctetString password))])) in
     to_der y (ASequence [
       (''credType'', tagged 0 (AInteger 1)),
       (''credentials'', tagged 1 (AOctetString ts_password_cred_encoded))]))"

definition create_ts_authinfo :: "yasna \<Rightarrow> u8 list \<Rightarrow> u8 list" where
  "create_ts_authinfo y auth_info = to_der y (ASequence [
     (''version'', tagged 0 (AInteger 2)),
     (''authInfo'', tagged 2 (AOctetString auth_info))])"

subsection \<open>The exchange\<close>

text \<open>
  The state is the authentication protocol and the link. The security interface is a value of
  its own: each call returns it updated.
\<close>

abbreviation on_auth :: "('a, 'b) prog \<Rightarrow> ('a \<times> stream, 'b) prog" where
  "on_auth \<equiv> zoom fst (\<lambda>a s. (a, snd s))"

abbreviation on_link :: "(stream, 'b) prog \<Rightarrow> ('a \<times> stream, 'b) prog" where
  "on_link \<equiv> zoom snd (\<lambda>l s. (fst s, l))"

definition cssp_credentials :: "crates \<Rightarrow> ('a, 'g) authentication \<Rightarrow> bool \<Rightarrow> 'g \<Rightarrow> ('a \<times> stream, unit) prog" where
  "cssp_credentials lib A restricted_admin_mode security_interface =
     bindp (getp fst) (\<lambda>a.
     let domain = if restricted_admin_mode then [] else au_domain A a;
       user = if restricted_admin_mode then [] else au_user A a;
       password = if restricted_admin_mode then [] else au_password A a in
     bindp (liftp (cursor (au_wrapex A (create_ts_credentials (cr_yasna lib) domain user password)) security_interface)) (\<lambda>(sealed, _).
     on_link (link_write (MSlice (create_ts_authinfo (cr_yasna lib) sealed)))))"

definition cssp_verify ::
  "crates \<Rightarrow> ('a, 'g) authentication \<Rightarrow> bool \<Rightarrow> u8 list \<Rightarrow> u8 list \<Rightarrow> 'g \<Rightarrow> ('a \<times> stream, unit) prog" where
  "cssp_verify lib A restricted_admin_mode client_challenge public_key security_interface =
     bindp (liftp (cursor (au_wrapex A public_key) security_interface)) (\<lambda>(sealed, security_interface).
     bindp (on_link (link_write (MSlice (create_ts_authenticate (cr_yasna lib) client_challenge sealed)))) (\<lambda>_.
     bindp (on_link (link_read 0)) (\<lambda>answer.
     bindp (liftp (read_ts_validate (cr_yasna lib) answer)) (\<lambda>validate.
     bindp (liftp (cursor (au_unwrapex A validate) security_interface)) (\<lambda>(inc_pub_key, security_interface).
     if from_bytes_le lib inc_pub_key \<noteq> from_bytes_le lib public_key + 1 then failp PossibleMITM
     else cssp_credentials lib A restricted_admin_mode security_interface)))))"

definition cssp_connect :: "crates \<Rightarrow> ('a, 'g) authentication \<Rightarrow> bool \<Rightarrow> ('a \<times> stream, unit) prog" where
  "cssp_connect lib A restricted_admin_mode =
     bindp (on_auth (au_negotiate A)) (\<lambda>negotiate.
     bindp (on_link (link_write (MSlice (create_ts_request (cr_yasna lib) negotiate)))) (\<lambda>_.
     bindp (on_link (link_read 0)) (\<lambda>answer.
     bindp (liftp (read_ts_server_challenge (cr_yasna lib) answer)) (\<lambda>server_challenge.
     bindp (on_auth (au_challenge A server_challenge)) (\<lambda>client_challenge.
     bindp (getp fst) (\<lambda>a.
     bindp (liftp (au_interface A a)) (\<lambda>security_interface.
     bindp (on_link get_peer_certificate) (\<lambda>peer.
     bindp (liftp (bindo (try_option peer) (read_public_certificate lib))) (\<lambda>certificate.
     cssp_verify lib A restricted_admin_mode client_challenge (subject_public_key certificate) security_interface)))))))))"

text \<open>NTLM as an authentication protocol; its state includes the source of random bytes.\<close>

definition ntlm_protocol :: "crypto \<Rightarrow> (ntlm_state, security_interface) authentication" where
  "ntlm_protocol c = \<lparr>au_negotiate = create_negotiate_message, au_challenge = read_challenge_message c,
     au_interface = (\<lambda>s. build_security_interface c (fst s)), au_domain = (\<lambda>s. get_domain_name (fst s)),
     au_user = (\<lambda>s. get_user_name (fst s)), au_password = (\<lambda>s. get_password (fst s)),
     au_wrapex = gss_wrapex c, au_unwrapex = gss_unwrapex c\<rparr>"

text \<open>The exchange as the X.224 layer runs it: the protocol's state ends with the call.\<close>

definition nla :: "crates \<Rightarrow> ('a, 'g) authentication \<Rightarrow> 'a \<Rightarrow> bool \<Rightarrow> (stream, unit) prog" where
  "nla lib A a restricted_admin_mode s = (case cssp_connect lib A restricted_admin_mode (a, s) of (r, (_, s')) \<Rightarrow> (r, s'))"

end
