(* ===== verification/Cssp_Laws.thy ===== *)
theory Cssp_Laws imports Cssp begin

section \<open>Laws of CredSSP\<close>

text \<open>
  What a CredSSP exchange may do with any authentication protocol that keeps the contract
  of the traits, stated as a locale and fulfilled by NTLM: it ends, the panics are known, and the
  credentials leave only after the server has proved that it holds the session key.
\<close>

subsection \<open>Messages\<close>

lemma sequence_of_read_each: "sequence_of_read f ds = Ok xs \<Longrightarrow> x \<in> set xs \<Longrightarrow> \<exists>d. f d = Ok x"
  by (induction ds arbitrary: xs) (auto simp: bindo_eq_Ok)

lemma explicit_tag_read_Ok: "explicit_tag_read tag rd d = Ok a \<Longrightarrow> \<exists>e. rd e = Ok a"
  by (auto simp: explicit_tag_read_def split: der.splits if_splits)

lemma read_tagged:
  "read_asn1 (tagged n (AOctetString bs)) d = Ok r \<Longrightarrow> \<exists>x. r = tagged n (AOctetString x)"
  "read_asn1 (tagged n (AInteger w)) d = Ok r \<Longrightarrow> \<exists>x. r = tagged n (AInteger x)"
  "read_asn1 (tagged n (ASequenceOf [] (Some t))) d = Ok r \<Longrightarrow>
   \<exists>xs. r = tagged n (ASequenceOf xs (Some t)) \<and> (\<forall>x \<in> set xs. \<exists>e. read_asn1 t e = Ok x)"
  by (force simp: bindo_eq_Ok split: der.splits dest!: explicit_tag_read_Ok dest: sequence_of_read_each)+

lemma read_sequence_one: "read_asn1 (ASequence [(k, t)]) d = Ok r \<Longrightarrow> \<exists>x e. r = ASequence [(k, x)] \<and> read_asn1 t e = Ok x"
  by (auto simp: bindo_eq_Ok simp del: read_asn1.simps(2-) split: der.splits list.splits if_splits)

lemma read_sequence_two:
  "read_asn1 (ASequence [(k, t), (j, u)]) d = Ok r \<Longrightarrow>
   \<exists>x y e f. r = ASequence [(k, x), (j, y)] \<and> read_asn1 t e = Ok x \<and> read_asn1 u f = Ok y"
  by (auto simp: bindo_eq_Ok simp del: read_asn1.simps(2-) split: der.splits list.splits if_splits)

lemma from_der_Ok: "from_der y t bs = Ok r \<Longrightarrow> \<exists>d. read_asn1 t d = Ok r"
  by (auto simp: from_der_def split: option.splits)

lemma wpo_from_der: "(\<And>r d. read_asn1 t d = Ok r \<Longrightarrow> Q r) \<Longrightarrow> wpo (from_der y t bs) Q P"
  using calm_from_der(1) [of y t bs] from_der_Ok by (intro wpo_calm) blast+

lemma read_token:
  "read_asn1 (ASequence [(''negoToken'', tagged 0 (AOctetString []))]) d = Ok x \<Longrightarrow>
   \<exists>bs. x = ASequence [(''negoToken'', tagged 0 (AOctetString bs))]"
  using read_sequence_one read_tagged(1) by metis

lemma wpo_server_challenge: "wpo (read_ts_server_challenge y bs) (\<lambda>_. True) {OutOfBounds}"
  unfolding read_ts_server_challenge_def wpo_bindo
proof (rule wpo_from_der)
  fix r d assume r: "read_asn1 (ASequence [(''version'', tagged 0 (AInteger 2)),
      (''negoTokens'', tagged 1 (ASequenceOf [] (Some (ASequence [(''negoToken'', tagged 0 (AOctetString []))]))))]) d = Ok r"
  then obtain v xs t where r: "r = ASequence [(''version'', v), (''negoTokens'', tagged 1 (ASequenceOf xs t))]"
    and xs: "\<And>x. x \<in> set xs \<Longrightarrow> \<exists>bs. x = ASequence [(''negoToken'', tagged 0 (AOctetString bs))]"
    by (auto dest!: read_sequence_two read_tagged(3) simp del: read_asn1.simps) (blast dest: read_token)
  show "wpo (cast_sequence r) (\<lambda>ts_request. wpo (asn1_field ts_request ''negoTokens'') (\<lambda>a. wpo (unwrap (cast_sequence_of a)) (\<lambda>nego_tokens.
     wpo (slice_get nego_tokens 0) (\<lambda>a. wpo (unwrap (cast_sequence a)) (\<lambda>first_nego_tokens.
     wpo (asn1_field first_nego_tokens ''negoToken'') (\<lambda>a. wpo (unwrap (cast_octets a)) (\<lambda>_. True) {OutOfBounds})
       {OutOfBounds}) {OutOfBounds}) {OutOfBounds}) {OutOfBounds}) {OutOfBounds}) {OutOfBounds}"
    using xs [of "xs ! 0"]
    by (auto simp: r cast_sequence_def asn1_field_def cast_sequence_of_def slice_get_def cast_octets_def)
qed

lemma wpo_validate: "wpo (read_ts_validate y bs) (\<lambda>_. True) P"
  unfolding read_ts_validate_def wpo_bindo
  by (rule wpo_from_der) (auto dest!: read_sequence_two read_tagged simp: cast_sequence_def asn1_field_def cast_octets_def simp del: read_asn1.simps)


subsection \<open>Programs that may fail on the way\<close>

text \<open>A weakest precondition with a second postcondition, on the state an error or a panic leaves.\<close>

definition wpe :: "('s, 'a) prog \<Rightarrow> ('a \<Rightarrow> 's \<Rightarrow> bool) \<Rightarrow> ('s \<Rightarrow> bool) \<Rightarrow> 's \<Rightarrow> bool" where
  "wpe m Q E s = (case m s of (Ok a, t) \<Rightarrow> Q a t | (_, t) \<Rightarrow> E t)"

named_theorems wpe_simps \<open>weakest preconditions with a failure postcondition\<close>

lemma wpe_bindp [wpe_simps]: "wpe (bindp m f) Q E s = wpe m (\<lambda>a. wpe (f a) Q E) E s"
  by (simp add: wpe_def bindp_def split: prod.split outcome.split)

lemma wpe_basic [wpe_simps]:
  "wpe (retp a) Q E s = Q a s" "wpe (failp k) Q E s = E s" "wpe (getp f) R E s = R (f s) s"
  by (simp_all add: wpe_def retp_def failp_def getp_def)

lemma wpe_if: "wpe (if b then m else k) Q E s = (if b then wpe m Q E s else wpe k Q E s)"
  by simp

lemma wpe_zoom [wpe_simps]: "wpe (zoom get put m) Q E s = wpe m (\<lambda>a t. Q a (put t s)) (\<lambda>t. E (put t s)) (get s)"
  by (simp add: wpe_def zoom_def split: prod.split outcome.split)

lemma wpe_liftp: "(\<And>a. r = Ok a \<Longrightarrow> Q a s) \<Longrightarrow> E s \<Longrightarrow> wpe (liftp r) Q E s"
  by (simp add: wpe_def liftp_def split: outcome.split)

lemma wpeI: "(\<And>a t. m s = (Ok a, t) \<Longrightarrow> Q a t) \<Longrightarrow> (\<And>t. E t) \<Longrightarrow> wpe m Q E s"
  by (simp add: wpe_def split: prod.split outcome.split)

lemma wpeD: "wpe m Q E s \<Longrightarrow> m s = (r, t) \<Longrightarrow> (\<exists>a. r = Ok a \<and> Q a t) \<or> (\<forall>a. r \<noteq> Ok a) \<and> E t"
  by (auto simp: wpe_def split: outcome.splits)

text \<open>The link: what it has sent, and the peer's certificate.\<close>

definition peer :: "stream \<Rightarrow> u8 list option outcome option" where
  "peer s = (case s of Ssl t \<Rightarrow> Some (s_cert t) | Raw i \<Rightarrow> None)"

definition steady :: "stream \<Rightarrow> stream \<Rightarrow> bool" where
  "steady s t \<longleftrightarrow> writes (stream_io t) = writes (stream_io s) \<and> peer t = peer s"

lemma steady_trans: "steady s t \<Longrightarrow> steady t u \<Longrightarrow> steady s u"
  by (simp add: steady_def)

lemma peer_set [simp]: "peer (set_stream_io i s) = peer s"
  by (cases s) (simp_all add: peer_def)

lemma wpe_write:
  assumes "writes (stream_io s) = []"
    and "\<And>t. steady s t \<Longrightarrow> sent t = sent s @ bs \<Longrightarrow> rx (stream_io t) = rx (stream_io s) \<Longrightarrow> Q () t"
  shows "wpe (link_write (MSlice bs)) Q E s"
proof -
  have "link_write (MSlice bs) s = (Ok (), set_stream_io ((stream_io s)\<lparr>tx := tx (stream_io s) @ bs\<rparr>) s)"
    using assms(1) by (simp add: link_write_def slice_write_def stream_write_def zoom_def bindp_def retp_def)
  then show ?thesis using assms(2) [of "set_stream_io ((stream_io s)\<lparr>tx := tx (stream_io s) @ bs\<rparr>) s"]
    by (simp add: wpe_def steady_def sent_def)
qed

text \<open>What a read returns is what the network has delivered next.\<close>

lemma wpe_read:
  assumes "\<And>bs t. steady s t \<Longrightarrow> sent t = sent s \<Longrightarrow> io_read 1500 (rx (stream_io s)) = (Ok bs, rx (stream_io t)) \<Longrightarrow> Q bs t"
    and "\<And>t. steady s t \<Longrightarrow> sent t = sent s \<Longrightarrow> E t"
  shows "wpe (link_read 0) Q E s"
proof -
  obtain r es where r: "io_read 1500 (rx (stream_io s)) = (r, es)" by fastforce
  then have "link_read 0 s = (r, set_stream_io ((stream_io s)\<lparr>rx := es\<rparr>) s)"
    by (simp add: link_read_def stream_read_def zoom_def)
  then show ?thesis using r assms [of "set_stream_io ((stream_io s)\<lparr>rx := es\<rparr>) s"]
    by (simp add: wpe_def steady_def sent_def split: outcome.split)
qed

lemma wpe_peer:
  assumes "\<And>c. peer s = Some (Ok c) \<Longrightarrow> Q c s" "E s"
  shows "wpe get_peer_certificate Q E s"
  using assms by (cases s) (auto simp: wpe_def get_peer_certificate_def peer_def split: outcome.split)

subsection \<open>When the credentials leave\<close>

text \<open>
  The steps of the exchange, each tied to what the network delivers. The server's challenge is
  the token in the bytes of the first read; the protocol answers it and builds its security interface.
\<close>

definition challenged :: "crates \<Rightarrow> ('a, 'g) authentication \<Rightarrow> 'a \<Rightarrow> rx_event list \<Rightarrow> u8 list \<Rightarrow> u8 list \<Rightarrow> 'a \<Rightarrow> 'g \<Rightarrow> rx_event list \<Rightarrow> bool" where
  "challenged lib A a es nego reply a' g es' \<longleftrightarrow> (\<exists>b bs token. au_negotiate A a = (Ok nego, b)
     \<and> io_read 1500 es = (Ok bs, es') \<and> read_ts_server_challenge (cr_yasna lib) bs = Ok token
     \<and> au_challenge A token b = (Ok reply, a') \<and> au_interface A a' = Ok g)"

text \<open>The client seals the public key of the peer's certificate.\<close>

definition key_sealed :: "crates \<Rightarrow> ('a, 'g) authentication \<Rightarrow> stream \<Rightarrow> 'g \<Rightarrow> u8 list \<Rightarrow> u8 list \<Rightarrow> 'g \<Rightarrow> bool" where
  "key_sealed lib A s g key sealed_key g' \<longleftrightarrow> (\<exists>cert. peer s = Some (Ok (Some cert))
     \<and> parse_x509_der lib cert = Some \<lparr>subject_public_key = key\<rparr> \<and> au_wrapex A key g = (Ok sealed_key, g'))"

text \<open>The server proves the key: the bytes that it sends next hold the sealed successor of it.\<close>

definition key_proved :: "crates \<Rightarrow> ('a, 'g) authentication \<Rightarrow> rx_event list \<Rightarrow> u8 list \<Rightarrow> 'g \<Rightarrow> 'g \<Rightarrow> bool" where
  "key_proved lib A es key g g' \<longleftrightarrow> (\<exists>bs es' proof_of_key inc. io_read 1500 es = (Ok bs, es')
     \<and> read_ts_validate (cr_yasna lib) bs = Ok proof_of_key \<and> au_unwrapex A proof_of_key g = (Ok inc, g')
     \<and> from_bytes_le lib inc = from_bytes_le lib key + 1)"

definition credentials_for :: "crates \<Rightarrow> ('a, 'g) authentication \<Rightarrow> bool \<Rightarrow> 'a \<Rightarrow> u8 list" where
  "credentials_for lib A restricted a = (if restricted then create_ts_credentials (cr_yasna lib) [] [] []
     else create_ts_credentials (cr_yasna lib) (au_domain A a) (au_user A a) (au_password A a))"

text \<open>
  The messages an exchange may have sent: none, the first, the first two, or all three. The second
  only after a challenge was read, and the third only after the proof of the key was read, from
  the same network; the credentials sealed are blank in restricted mode.
\<close>

inductive transcript :: "crates \<Rightarrow> ('a, 'g) authentication \<Rightarrow> bool \<Rightarrow> 'a \<Rightarrow> stream \<Rightarrow> 'a \<Rightarrow> u8 list list \<Rightarrow> bool"
  for lib A restricted a s where
  "transcript lib A restricted a s a' []"
| "au_negotiate A a = (Ok nego, b) \<Longrightarrow> transcript lib A restricted a s a' [create_ts_request (cr_yasna lib) nego]"
| "challenged lib A a (rx (stream_io s)) nego reply a' g0 es \<Longrightarrow> key_sealed lib A s g0 key sealed_key g1
   \<Longrightarrow> transcript lib A restricted a s a' [create_ts_request (cr_yasna lib) nego, create_ts_authenticate (cr_yasna lib) reply sealed_key]"
| "challenged lib A a (rx (stream_io s)) nego reply a' g0 es \<Longrightarrow> key_sealed lib A s g0 key sealed_key g1
   \<Longrightarrow> key_proved lib A es key g1 g2 \<Longrightarrow> au_wrapex A (credentials_for lib A restricted a') g2 = (Ok sealed, g3)
   \<Longrightarrow> transcript lib A restricted a s a' [create_ts_request (cr_yasna lib) nego,
     create_ts_authenticate (cr_yasna lib) reply sealed_key, create_ts_authinfo (cr_yasna lib) sealed]"

lemma challengedI:
  "au_negotiate A a = (Ok nego, b) \<Longrightarrow> io_read 1500 es = (Ok bs, es') \<Longrightarrow> read_ts_server_challenge (cr_yasna lib) bs = Ok token
   \<Longrightarrow> au_challenge A token b = (Ok reply, a') \<Longrightarrow> au_interface A a' = Ok g \<Longrightarrow> challenged lib A a es nego reply a' g es'"
  unfolding challenged_def by blast

lemma key_sealedI:
  "peer s = Some (Ok c) \<Longrightarrow> bindo (try_option c) (read_public_certificate lib) = Ok key
   \<Longrightarrow> cursor (au_wrapex A (subject_public_key key)) g = Ok x \<Longrightarrow> key_sealed lib A s g (subject_public_key key) (fst x) (snd x)"
  unfolding key_sealed_def try_option_def read_public_certificate_def unwrap_option_def
  by (cases x; cases key) (auto simp: cursor_Ok split: option.splits)

lemma key_provedI:
  "io_read 1500 es = (Ok bs, es') \<Longrightarrow> read_ts_validate (cr_yasna lib) bs = Ok answer \<Longrightarrow> cursor (au_unwrapex A answer) g = Ok y
   \<Longrightarrow> from_bytes_le lib (fst y) = from_bytes_le lib key + 1 \<Longrightarrow> key_proved lib A es key g (snd y)"
  unfolding key_proved_def by (cases y) (auto simp: cursor_Ok)

text \<open>The phases of the exchange, for any postconditions that hold whenever it may stop.\<close>

lemma verify_phases:
  assumes t: "writes (stream_io t) = []"
    and one: "\<And>u. sent u = sent t \<Longrightarrow> E (b, u)"
    and two: "\<And>u x. sent u = sent t @ create_ts_authenticate (cr_yasna lib) m (fst x)
      \<Longrightarrow> cursor (au_wrapex A key) g = Ok x \<Longrightarrow> E (b, u)"
    and rest: "\<And>u x g'. sent u = sent t @ create_ts_authenticate (cr_yasna lib) m (fst x) \<Longrightarrow> writes (stream_io u) = []
      \<Longrightarrow> cursor (au_wrapex A key) g = Ok x \<Longrightarrow> key_proved lib A (rx (stream_io t)) key (snd x) g'
      \<Longrightarrow> wpe (cssp_credentials lib A restricted g') Q E (b, u)"
  shows "wpe (cssp_verify lib A restricted m key g) Q E (b, t)"
  unfolding cssp_verify_def wpe_simps case_prod_beta fst_conv snd_conv wpe_if
  apply (rule wpe_liftp)
   apply (rule wpe_write, simp add: t)
   apply (rule wpe_read)
    apply (rule wpe_liftp)
     apply (rule wpe_liftp)
      apply (rule if_bool_eq_conj [THEN iffD2], intro conjI impI)
       apply (simp_all only: fst_conv snd_conv)
       apply (rule two, simp, assumption)
      apply (rule rest)
         apply simp
        apply (simp add: steady_def t)
       apply assumption
      apply (rule key_provedI, simp, assumption, assumption, simp)
     apply (rule two, simp, assumption)+
  apply (rule one, simp)
  done

lemma cssp_phases:
  assumes writes: "writes (stream_io s) = []"
    and none: "\<And>b t. sent t = sent s \<Longrightarrow> E (b, t)"
    and one: "\<And>b c t n. sent t = sent s @ create_ts_request (cr_yasna lib) n \<Longrightarrow> au_negotiate A a = (Ok n, c) \<Longrightarrow> E (b, t)"
    and two: "\<And>b t n m g0 es key w g1. sent t = sent s @ create_ts_request (cr_yasna lib) n @ create_ts_authenticate (cr_yasna lib) m w
      \<Longrightarrow> challenged lib A a (rx (stream_io s)) n m b g0 es \<Longrightarrow> key_sealed lib A s g0 key w g1 \<Longrightarrow> E (b, t)"
    and rest: "\<And>b t n m g0 es key w g1 g2. sent t = sent s @ create_ts_request (cr_yasna lib) n @ create_ts_authenticate (cr_yasna lib) m w
      \<Longrightarrow> challenged lib A a (rx (stream_io s)) n m b g0 es \<Longrightarrow> key_sealed lib A s g0 key w g1 \<Longrightarrow> key_proved lib A es key g1 g2
      \<Longrightarrow> writes (stream_io t) = [] \<Longrightarrow> wpe (cssp_credentials lib A restricted g2) Q E (b, t)"
  shows "wpe (cssp_connect lib A restricted) Q E (a, s)"
proof -
  have verify: "wpe (cssp_verify lib A restricted m (subject_public_key key) g0) Q E (b, t)"
    if t: "writes (stream_io t) = []" "sent t = sent s @ create_ts_request (cr_yasna lib) n" "au_negotiate A a = (Ok n, d)"
      and ch: "challenged lib A a (rx (stream_io s)) n m b g0 (rx (stream_io t))"
      and c: "peer s = Some (Ok c)" "bindo (try_option c) (read_public_certificate lib) = Ok key" for b t m n c d key g0
  proof (rule verify_phases [OF t(1)])
    fix u assume "sent u = sent t"
    then show "E (b, u)" using one [of u n d b] t(2,3) by simp
  next
    fix u x assume "sent u = sent t @ create_ts_authenticate (cr_yasna lib) m (fst x)" "cursor (au_wrapex A (subject_public_key key)) g0 = Ok x"
    then show "E (b, u)" using two [OF _ ch key_sealedI [OF c]] t(2) by simp
  next
    fix u x g' assume "sent u = sent t @ create_ts_authenticate (cr_yasna lib) m (fst x)" "writes (stream_io u) = []"
      "cursor (au_wrapex A (subject_public_key key)) g0 = Ok x" "key_proved lib A (rx (stream_io t)) (subject_public_key key) (snd x) g'"
    then show "wpe (cssp_credentials lib A restricted g') Q E (b, u)" using rest [OF _ ch key_sealedI [OF c]] t(2) by simp
  qed
  show ?thesis
    unfolding cssp_connect_def wpe_simps fst_conv snd_conv
    apply (rule wpeI)
     apply (rule wpe_write [OF writes])
     apply (rule wpe_read)
      apply (rule wpe_liftp)
       apply (rule wpeI)
        apply (rule wpe_liftp)
         apply (rule wpe_peer)
          apply (rule wpe_liftp)
           apply (rule verify)
                apply (simp add: steady_def writes)
               apply simp
              apply assumption
             apply (erule challengedI, simp, assumption, simp, simp)
            apply (simp add: steady_def)
           apply assumption
          apply (auto intro: none one)
    done
qed

text \<open>
  C11. CredSSP releases the credentials only to a server that proved the possession of the
  session key. With any authentication protocol, any server and however the exchange ends,
  the bytes sent are those of a transcript of this exchange: the second message, with the sealed public key of
  the peer's certificate, was sent only after the bytes of the first read held a challenge, to which it has the protocol's
  answer, and the third only after the bytes of the second read held an answer that the same security interface unsealed to
  that key plus one. The third carries blank credentials in restricted mode. On success all three were sent.
\<close>

theorem cssp_credentials_guarded:
  assumes "cssp_connect lib A restricted (a, s) = (r, (a', s'))" "writes (stream_io s) = []"
  shows "\<exists>ms. sent s' = sent s @ concat ms \<and> transcript lib A restricted a s a' ms \<and> (r = Ok () \<longrightarrow> length ms = 3)"
proof -
  let ?T = "transcript lib A restricted a s" and ?y = "cr_yasna lib"
  let ?E = "\<lambda>p. \<exists>ms. sent (snd p) = sent s @ concat ms \<and> ?T (fst p) ms"
  let ?Q = "\<lambda>_ p. \<exists>ms. sent (snd p) = sent s @ concat ms \<and> ?T (fst p) ms \<and> length ms = 3"
  have E: "?E (b, t)" if "?T b ms" "sent t = sent s @ concat ms" for b t ms
    using that by auto
  have two: "?E (b, t)" if "sent t = sent s @ create_ts_request ?y n @ create_ts_authenticate ?y m w"
      "challenged lib A a (rx (stream_io s)) n m b g0 es" "key_sealed lib A s g0 key w g1" for b t n m g0 es key w g1
    using E [OF transcript.intros(3) [OF that(2,3)]] that(1) by simp
  have last: "wpe (cssp_credentials lib A restricted g2) ?Q ?E (b, t)"
    if u: "sent t = sent s @ create_ts_request ?y n @ create_ts_authenticate ?y m w" "writes (stream_io t) = []"
      and k: "challenged lib A a (rx (stream_io s)) n m b g0 es" "key_sealed lib A s g0 key w g1" "key_proved lib A es key g1 g2"
    for b t n m g0 es key w g1 g2
    unfolding cssp_credentials_def wpe_simps fst_conv snd_conv Let_def
  proof (rule wpe_liftp)
    fix x assume "cursor (au_wrapex A (create_ts_credentials ?y (if restricted then [] else au_domain A b)
        (if restricted then [] else au_user A b) (if restricted then [] else au_password A b))) g2 = Ok x"
    then have x: "au_wrapex A (credentials_for lib A restricted b) g2 = (Ok (fst x), snd x)"
      by (cases x) (simp add: cursor_Ok credentials_for_def split: if_splits)
    show "wpe (case x of (sealed, _) \<Rightarrow> on_link (link_write (MSlice (create_ts_authinfo ?y sealed)))) ?Q ?E (b, t)"
      unfolding case_prod_beta wpe_simps fst_conv snd_conv
      by (rule wpe_write [OF u(2)], rule exI [of _ "[create_ts_request ?y n, create_ts_authenticate ?y m w, create_ts_authinfo ?y (fst x)]"])
        (use transcript.intros(4) [OF k x] u(1) in simp)
  qed (use two [OF u(1) k(1,2)] in blast)
  have "wpe (cssp_connect lib A restricted) ?Q ?E (a, s)"
  proof (rule cssp_phases [OF assms(2)])
    show "?E (b, t)" if "sent t = sent s" for b t
      using E [OF transcript.intros(1)] that by simp
    show "?E (b, t)" if "sent t = sent s @ create_ts_request ?y n" "au_negotiate A a = (Ok n, c)" for b c t n
      using E [OF transcript.intros(2) [OF that(2)]] that(1) by simp
  qed (rule two last; assumption)+
  from wpeD [OF this assms(1)] show ?thesis by auto
qed

subsection \<open>Outcomes\<close>

lemma wp_write_steady: "wp (link_write (MSlice bs)) (\<lambda>_ t. peer t = peer s) P s"
  by (simp add: link_write_def slice_write_def stream_write_def wp_def zoom_def bindp_def retp_def split: list.split tx_event.split)

lemma io_read_calm: "calm (fst (io_read n es))"
  by (cases "(n, es)" rule: io_read.cases) auto

lemma wp_read_steady: "wp (link_read 0) (\<lambda>_ t. peer t = peer s) P s"
proof (cases "io_read 1500 (rx (stream_io s))")
  case (Pair r es)
  then show ?thesis using io_read_calm [of 1500 "rx (stream_io s)"]
    by (cases r) (simp_all add: link_read_def stream_read_def wp_def zoom_def)
qed

lemma wp_peer: "(\<And>c. peer s = Some c \<Longrightarrow> calm c) \<Longrightarrow> (\<And>c. Q c s) \<Longrightarrow> wp get_peer_certificate Q P s"
  by (cases s) (auto simp: wp_def get_peer_certificate_def peer_def calm_def split: outcome.splits)

lemma wpo_certificate: "{OutOfBounds, UnwrapFailed} \<subseteq> P \<Longrightarrow> wpo (bindo (try_option c) (read_public_certificate lib)) (\<lambda>_. True) P"
  by (auto simp: try_option_def read_public_certificate_def unwrap_option_def split: option.split)

text \<open>
  The contract of an authentication protocol as CredSSP relies on it: each call ends without
  a panic outside \<open>P\<close> and leaves the state the next one needs.
\<close>

locale authentication_contract =
  fixes A :: "('a, 'g) authentication" and P :: "panic set" and start ready armed :: "'a \<Rightarrow> bool" and live :: "'g \<Rightarrow> bool"
  assumes negotiate: "start a \<Longrightarrow> wp (au_negotiate A) (\<lambda>_. ready) P a"
    and challenge: "ready a \<Longrightarrow> wp (au_challenge A c) (\<lambda>_. armed) P a"
    and interface: "armed a \<Longrightarrow> wpo (au_interface A a) live P"
    and wrapex: "live g \<Longrightarrow> wp (au_wrapex A d) (\<lambda>_. live) P g"
    and unwrapex: "live g \<Longrightarrow> wp (au_unwrapex A d) (\<lambda>_. live) P g"
begin

lemma credentials_end: "live g \<Longrightarrow> wp (cssp_credentials lib A restricted g) (\<lambda>_ _. True) P (a, s)"
  unfolding cssp_credentials_def Let_def wp_simps wp_liftp_wpo wpo_cursor case_prod_beta
  by (rule wp_mono [OF wrapex]) (auto simp: wp_simps intro: wp_mono [OF wp_write_steady])

lemma verify_end: "live g \<Longrightarrow> wp (cssp_verify lib A restricted m key g) (\<lambda>_ _. True) P (a, s)"
  unfolding cssp_verify_def Let_def wp_simps wp_liftp_wpo wpo_cursor case_prod_beta fst_conv snd_conv
  by (rule wp_mono [OF wrapex], assumption, rule wp_mono [OF wp_write_steady], rule wp_mono [OF wp_read_steady],
      rule wpo_mono [OF wpo_validate], rule wp_mono [OF unwrapex], assumption)
    (auto simp: wp_simps intro: credentials_end)

lemma exchange_ends:
  assumes "start a" "\<And>c. peer s = Some c \<Longrightarrow> calm c" "{OutOfBounds, UnwrapFailed} \<subseteq> P"
  shows "wp (cssp_connect lib A restricted) (\<lambda>_ _. True) P (a, s)"
  unfolding cssp_connect_def Let_def wp_simps wp_liftp_wpo fst_conv snd_conv
  apply (rule wp_mono [OF negotiate [OF assms(1)]])
   apply (rule wp_mono [OF wp_write_steady])
    apply (rule wp_mono [OF wp_read_steady])
     apply (rule wpo_mono [OF wpo_server_challenge])
       apply (rule wp_mono [OF challenge], assumption)
        apply (rule wpo_mono [OF interface], assumption)
         apply (rule wp_peer, rule assms(2), simp)
         apply (rule wpo_mono [OF wpo_certificate [OF assms(3)]])
           apply (rule verify_end)
           apply (use assms(3) in auto)
  done

end

subsection \<open>NTLM keeps the contract\<close>

definition ntlm_panics :: "panic set" where
  "ntlm_panics = {ArithOverflow, OutOfBounds, ExplicitPanic, UnwrapFailed}"

lemma ntlm_negotiate_ready: "wp create_negotiate_message (\<lambda>_ s. n_negotiate_message (fst s) \<noteq> None) P s"
  using ntlm_negotiate_sent [of "fst s" "snd s"] by (simp add: wp_def Let_def)

lemma ntlm_challenge_armed:
  assumes "digests c" "n_negotiate_message (fst s) \<noteq> None"
  shows "wp (read_challenge_message c request) (\<lambda>_ t. n_exported_session_key (fst t) \<noteq> None) ntlm_panics s"
proof -
  obtain nego where nego: "n_negotiate_message (fst s) = Some nego" using assms(2) by auto
  have "n_exported_session_key n' \<noteq> None" if "read_challenge_message c request (fst s, snd s) = (Ok out, (n', e'))" for out n' e'
    using challenge_answered [OF that nego] by (metis option.discI)
  then show ?thesis
    using wp_read_challenge [OF assms(1) nego, of request "snd s"]
    by (auto simp: wp_def ntlm_panics_def split: prod.splits outcome.splits)
qed

lemma ntlm_interface_built:
  "digests c \<Longrightarrow> n_exported_session_key n \<noteq> None \<Longrightarrow> wpo (build_security_interface c n) (\<lambda>_. True) P"
  by (auto simp: build_security_interface_def unwrap_option_def rc4_new_def seal_key_def digests_def)

lemma wp_process: "wp (rc4_process xs (replicate n 0)) Q P r = (if length xs = n then \<forall>ys r'. rc4_bytes xs r = (ys, r') \<longrightarrow> Q ys r' else AssertFailed \<in> P)"
  by (auto simp: wp_def rc4_process_def split: prod.split)

lemma ntlm_wrap_ends: "digests c \<Longrightarrow> wp (gss_wrapex c d) (\<lambda>_ _. True) ntlm_panics s"
  unfolding gss_wrapex_def mac_def
  by (auto simp: wp_simps wp_liftp_wpo wp_process slice_range_def digests_def to_vec_def u32_write_def slice_write_def message_signature_ex_def
      dest!: bytes_length simp: ntlm_panics_def)

lemma ntlm_unwrap_ends: "digests c \<Longrightarrow> wp (gss_unwrapex c d) (\<lambda>_ _. True) ntlm_panics r"
  unfolding gss_unwrapex_def message_signature_ex_def
  by (auto simp: wp_simps wp_liftp_wpo wp_process signature_reads on_buffer_def slice_read_def read_to_end_def cast_slice_def cast_u32_def
      slice_range_def digests_def to_vec_def u32_write_def dest!: bytes_length simp del: read_msg.simps)

interpretation ntlm_contract: authentication_contract "ntlm_protocol c" ntlm_panics "\<lambda>_. digests c"
  "\<lambda>s. digests c \<and> n_negotiate_message (fst s) \<noteq> None" "\<lambda>s. digests c \<and> n_exported_session_key (fst s) \<noteq> None" "\<lambda>_. digests c" for c
proof
  show "wp (au_negotiate (ntlm_protocol c)) (\<lambda>_ s. digests c \<and> n_negotiate_message (fst s) \<noteq> None) ntlm_panics a" if "digests c" for a
    using that ntlm_negotiate_ready [of ntlm_panics a] by (simp add: ntlm_protocol_def)
  show "wp (au_challenge (ntlm_protocol c) x) (\<lambda>_ s. digests c \<and> n_exported_session_key (fst s) \<noteq> None) ntlm_panics a"
    if "digests c \<and> n_negotiate_message (fst a) \<noteq> None" for a x
    using that ntlm_challenge_armed by (simp add: ntlm_protocol_def)
qed (auto simp: ntlm_protocol_def intro: ntlm_interface_built ntlm_wrap_ends ntlm_unwrap_ends)

text \<open>
  C37. CredSSP over NTLM always ends, whatever the server sends and whatever the libraries parse:
  with success, an error, or one of four panics (an empty list of tokens and a field offset leave
  their slice, offsets overflow, a challenge without a timestamp, a certificate that
  is not parsed).
\<close>

theorem cssp_ntlm_outcomes:
  assumes "digests c" "\<And>x. peer s = Some x \<Longrightarrow> calm x"
  shows "fst (cssp_connect lib (ntlm_protocol c) restricted (a, s)) \<noteq> Diverge
    \<and> (\<forall>p. fst (cssp_connect lib (ntlm_protocol c) restricted (a, s)) = Panic p \<longrightarrow> p \<in> ntlm_panics)"
proof -
  have "wp (cssp_connect lib (ntlm_protocol c) restricted) (\<lambda>_ _. True) ntlm_panics (a, s)"
    by (rule ntlm_contract.exchange_ends) (use assms in \<open>auto simp: ntlm_panics_def\<close>)
  then show ?thesis by (cases "cssp_connect lib (ntlm_protocol c) restricted (a, s)") (auto dest: wp_outcome)
qed

subsection \<open>An example\<close>

text \<open>An authentication protocol that seals nothing, and a server that answers it properly.\<close>

definition open_authentication :: "(nat, nat) authentication" where
  "open_authentication = \<lparr>au_negotiate = (\<lambda>n. (Ok [9], n + 1)), au_challenge = (\<lambda>c n. (Ok (8 # c), n + 1)),
     au_interface = Ok, au_domain = (\<lambda>n. [100]), au_user = (\<lambda>n. [117]), au_password = (\<lambda>n. [112]),
     au_wrapex = (\<lambda>d n. (Ok d, n + 1)), au_unwrapex = (\<lambda>d n. (Ok d, n + 1))\<rparr>"

definition little_endian :: "u8 list \<Rightarrow> nat" where
  "little_endian bs = foldr (\<lambda>b n. unat b + 256 * n) bs 0"

definition sample_crates :: crates where
  "sample_crates = \<lparr>cr_yasna = \<lparr>construct_der = (\<lambda>d. [48]),
       parse_der = (\<lambda>sh bs. Some (if bs = [1]
         then DerSequence [DerTagged (ContextTag 0) (DerU32 2), DerTagged (ContextTag 1)
           (DerSequenceOf [DerSequence [DerTagged (ContextTag 0) (DerBytes [7])]])]
         else DerSequence [DerTagged (ContextTag 0) (DerU32 2), DerTagged (ContextTag 3) (DerBytes [0, 6])])),
       parse_ber = (\<lambda>sh bs. None)\<rparr>,
     parse_x509_der = (\<lambda>bs. Some \<lparr>subject_public_key = [255, 5]\<rparr>), from_bytes_le = little_endian\<rparr>"

definition sample_tls :: "rx_event list \<Rightarrow> stream" where
  "sample_tls es = Ssl \<lparr>s_io = \<lparr>rx = es, tx = [], writes = []\<rparr>, s_cert = Ok (Some [3]), s_close = True\<rparr>"

lemma sample_answers:
  "read_ts_server_challenge (cr_yasna sample_crates) [1] = Ok [7]" "read_ts_validate (cr_yasna sample_crates) [2] = Ok [0, 6]"
  by (simp_all add: read_ts_server_challenge_def read_ts_validate_def from_der_def sample_crates_def explicit_tag_read_def integer_read_def
      octet_string_read_def cast_sequence_def cast_sequence_of_def cast_octets_def asn1_field_def slice_get_def)

lemma sample_exchange:
  "\<exists>p. cssp_connect sample_crates open_authentication False (0, sample_tls [Data [1], Data [2]]) = (Ok (), p)"
proof -
  have key: "parse_x509_der sample_crates bs = Some \<lparr>subject_public_key = [255, 5]\<rparr>" "from_bytes_le sample_crates = little_endian" for bs
    by (simp_all add: sample_crates_def)
  show ?thesis
    by (simp add: cssp_connect_def cssp_verify_def cssp_credentials_def sample_answers key little_endian_def open_authentication_def sample_tls_def
        link_write_def link_read_def stream_write_def stream_read_def get_peer_certificate_def try_option_def read_public_certificate_def
        unwrap_option_def slice_write_def zoom_def bindp_def liftp_def retp_def getp_def Let_def cursor_def)
qed

theorem cssp_credentials_guarded_witness:
  "\<exists>a s ms. cssp_connect sample_crates open_authentication False (0, sample_tls [Data [1], Data [2]]) = (Ok (), (a, s))
     \<and> sent s = concat ms \<and> transcript sample_crates open_authentication False 0 (sample_tls [Data [1], Data [2]]) a ms \<and> length ms = 3"
proof -
  obtain a s where run: "cssp_connect sample_crates open_authentication False (0, sample_tls [Data [1], Data [2]]) = (Ok (), (a, s))"
    using sample_exchange by fastforce
  show ?thesis using cssp_credentials_guarded [OF run] run by (auto simp: sample_tls_def sent_def)
qed


theorem cssp_ntlm_outcomes_witness:
  "fst (cssp_connect sample_crates (ntlm_protocol sample_crypto) True ((known_user, \<lambda>_. 0), sample_tls [Data [1], Data [2]])) \<noteq> Diverge"
proof -
  have "digests sample_crypto" by (simp add: digests_def sample_crypto_def)
  then show ?thesis
    using cssp_ntlm_outcomes [of sample_crypto "sample_tls [Data [1], Data [2]]" sample_crates True "(known_user, \<lambda>_. 0)"]
    by (simp add: sample_tls_def peer_def)
qed

end
