(* ===== verification/Client.thy ===== *)
theory Client imports Cssp_Laws Sec Global begin

section \<open>The client\<close>

text \<open>
  \<^verbatim>\<open>src/src/core/client.rs\<close>: the connector, which establishes the layers one on the other, and
  the client it makes, which reads payloads into events and writes input events. The client
  is the session of the global channel: the channel's state, the MCS client, and the events
  the callback has received. What the code takes from outside comes as one record: the TLS
  library, the libraries of CredSSP, the digests, the iteration order of the channel map and the
  random bytes.
\<close>

record environment =
  tls_library :: tls_connector
  crates_library :: crates
  crypto_library :: crypto
  map_order :: id_order
  noise :: entropy

definition keyboard_layout_from :: "rstring \<Rightarrow> keyboard_layout" where
  "keyboard_layout_from e = (if e = map of_char ''us'' then US else if e = map of_char ''fr'' then French else US)"

subsection \<open>Reading and writing\<close>

type_synonym rdp_client = global_session

definition rdp_read :: "id_order \<Rightarrow> (rdp_client, unit) prog" where
  "rdp_read iter = bindp (on_mcs (mcs_read iter)) (\<lambda>(channel_name, message).
     if channel_name = ''global'' then global_read message else failp UnexpectedType)"

definition pointer_flags :: "pointer_event \<Rightarrow> u16" where
  "pointer_flags pointer = (let flags = 0 OR pointer_flag_code (case pe_button pointer of
       ButtonLeft \<Rightarrow> PtrflagsButton1 | ButtonRight \<Rightarrow> PtrflagsButton2 | ButtonMiddle \<Rightarrow> PtrflagsButton3 | _ \<Rightarrow> PtrflagsMove) in
     if pe_down pointer then flags OR pointer_flag_code PtrflagsDown else flags)"

definition key_flags :: "keyboard_event \<Rightarrow> u16" where
  "key_flags key = (if \<not> ke_down key then 0 OR keyboard_flag_code KbdflagsRelease else 0)"

definition rdp_write :: "rdp_event \<Rightarrow> (rdp_client, unit) prog" where
  "rdp_write event = (case event of
       Pointer pointer \<Rightarrow> bindp (getp s_global) (\<lambda>g. on_mcs (write_input_event g
         (ts_pointer_event (Some (pointer_flags pointer)) (Some (pe_x pointer)) (Some (pe_y pointer)))))
     | Key key \<Rightarrow> bindp (getp s_global) (\<lambda>g. on_mcs (write_input_event g (ts_keyboard_event (Some (key_flags key)) (Some (ke_code key)))))
     | _ \<Rightarrow> failp UnexpectedType)"

definition try_write :: "rdp_event \<Rightarrow> (rdp_client, unit) prog" where
  "try_write event s = (case rdp_write event s of
       (Err (RdpError e), t) \<Rightarrow> (if error_kind e = InvalidAutomata then Ok () else Err (RdpError e), t)
     | (r, t) \<Rightarrow> (r, t))"

definition rdp_shutdown :: "(rdp_client, unit) prog" where
  "rdp_shutdown = on_mcs mcs_shutdown"

subsection \<open>The connector\<close>

record connector =
  c_width :: u16
  c_height :: u16
  c_layout :: keyboard_layout
  c_restricted_admin_mode :: bool
  c_domain :: rstring
  c_username :: rstring
  c_password :: rstring
  c_password_hash :: "u8 list option"
  c_auto_logon :: bool
  c_blank_creds :: bool
  c_check_certificate :: bool
  c_name :: rstring
  c_use_nla :: bool

definition connector_new :: connector where
  "connector_new = \<lparr>c_width = 800, c_height = 600, c_layout = US, c_restricted_admin_mode = False,
     c_domain = [], c_username = [], c_password = [], c_password_hash = None, c_auto_logon = False, c_blank_creds = False,
     c_check_certificate = False, c_name = map of_char ''rdp-rs'', c_use_nla = True\<rparr>"

definition screen :: "u16 \<Rightarrow> u16 \<Rightarrow> connector \<Rightarrow> connector" where
  "screen width height c = c\<lparr>c_width := width, c_height := height\<rparr>"

definition credentials :: "rstring \<Rightarrow> rstring \<Rightarrow> rstring \<Rightarrow> connector \<Rightarrow> connector" where
  "credentials domain username password c = c\<lparr>c_domain := domain, c_username := username, c_password := password\<rparr>"

definition set_restricted_admin_mode :: "bool \<Rightarrow> connector \<Rightarrow> connector" where
  "set_restricted_admin_mode state c = c\<lparr>c_restricted_admin_mode := state\<rparr>"

definition set_password_hash :: "u8 list \<Rightarrow> connector \<Rightarrow> connector" where
  "set_password_hash password_hash c = c\<lparr>c_password_hash := Some password_hash\<rparr>"

definition layout :: "keyboard_layout \<Rightarrow> connector \<Rightarrow> connector" where
  "layout l c = c\<lparr>c_layout := l\<rparr>"

definition auto_logon :: "bool \<Rightarrow> connector \<Rightarrow> connector" where
  "auto_logon b c = c\<lparr>c_auto_logon := b\<rparr>"

definition blank_creds :: "bool \<Rightarrow> connector \<Rightarrow> connector" where
  "blank_creds b c = c\<lparr>c_blank_creds := b\<rparr>"

definition check_certificate :: "bool \<Rightarrow> connector \<Rightarrow> connector" where
  "check_certificate b c = c\<lparr>c_check_certificate := b\<rparr>"

definition set_name :: "rstring \<Rightarrow> connector \<Rightarrow> connector" where
  "set_name n c = c\<lparr>c_name := n\<rparr>"

definition use_nla :: "bool \<Rightarrow> connector \<Rightarrow> connector" where
  "use_nla b c = c\<lparr>c_use_nla := b\<rparr>"

definition authentication_of :: "crypto \<Rightarrow> connector \<Rightarrow> ntlm" where
  "authentication_of crypt c = (case c_password_hash c of
       Some hash \<Rightarrow> ntlm_from_hash crypt (c_domain c) (c_username c) hash
     | None \<Rightarrow> ntlm_new crypt (c_domain c) (c_username c) (c_password c))"

definition requested_protocols :: "connector \<Rightarrow> u32" where
  "requested_protocols c = (if c_use_nla c then protocols_code ProtocolSSL OR protocols_code ProtocolHybrid
     else protocols_code ProtocolSSL)"

definition connector_session :: "environment \<Rightarrow> connector \<Rightarrow> (mcs_client, unit) prog" where
  "connector_session env c =
     bindp (mcs_connect (cr_yasna (crates_library env)) (map_order env) (c_name c) (c_width c) (c_height c) (c_layout c)) (\<lambda>_.
     if c_restricted_admin_mode c then sec_connect (map_order env) [] [] [] (c_auto_logon c)
     else sec_connect (map_order env) (c_domain c) (c_username c) (c_password c) (c_auto_logon c))"

definition connector_connect :: "environment \<Rightarrow> connector \<Rightarrow> io \<Rightarrow> rdp_client outcome" where
  "connector_connect env c tcp =
     bindo (x224_connect (tls_library env) (Raw tcp) (requested_protocols c) (c_check_certificate c)
       (Some (nla (crates_library env) (ntlm_protocol (crypto_library env)) (authentication_of (crypto_library env) c, noise env)))
       (c_restricted_admin_mode c) (c_blank_creds c)) (\<lambda>x224.
     bindo (cursor (connector_session env c) (mcs_new x224)) (\<lambda>(_, mcs).
     bindo (get_user_id mcs) (\<lambda>user_id. bindo (get_global_channel_id mcs) (\<lambda>channel_id.
     Ok \<lparr>s_global = global_new user_id channel_id (c_width c) (c_height c) (c_layout c) (c_name c),
       s_mcs = mcs, s_events = []\<rparr>))))"

end
