(* ===== verification/Client_Laws.thy ===== *)
theory Client_Laws imports Client Global_Events begin

section \<open>The client as a whole\<close>

text \<open>
  What the layers give together: the way from the bytes of a server to an active client, what
  a client that was made by the connector can do after any run, and what its input events
  become on the wire. Every lemma rests on the contracts of the layers: the negotiation of X.224,
  the joined session of MCS, the exchange of the security layer and the machine of the global
  channel.
\<close>

subsection \<open>Establishing the session\<close>

text \<open>What a server sends to the MCS connection: the response, the attach and the join confirms.\<close>

definition mcs_answers :: "id_order \<Rightarrow> u8 list \<Rightarrow> u16 \<Rightarrow> u8 list" where
  "mcs_answers iter resp v = data_frame resp @ data_frame ([0x2E, 0] @ u16_be v) @
     concat (map (\<lambda>ch. data_frame (join_confirm 0 v ch)) (map snd (iter [(''global'', 1003), (''user'', v + 1001)])))"

definition client_session :: "u16 \<Rightarrow> server_data \<Rightarrow> mcs_session" where
  "client_session v sd = (Some (v + 1001), [(''global'', 1003), (''user'', v + 1001)], Some sd)"

text \<open>The text fields of the information packet: none of them in restricted administration mode.\<close>

definition session_info :: "connector \<Rightarrow> server_data \<Rightarrow> u8 list" where
  "session_info c sd = (let ext = (sd_rdp_version sd = RdpVersion5plus) in
     if c_restricted_admin_mode c then info_packet ext [] [] [] (c_auto_logon c)
     else info_packet ext (c_domain c) (c_username c) (c_password c) (c_auto_logon c))"

text \<open>What the client sends to the MCS connection when the protocol \<open>p\<close> was chosen.\<close>

definition initial_of :: "environment \<Rightarrow> connector \<Rightarrow> protocols \<Rightarrow> u8 list outcome" where
  "initial_of env c p = client_initial (cr_yasna (crates_library env)) (c_width c) (c_height c) (c_layout c) (c_name c) p"

definition opens_session :: "environment \<Rightarrow> connector \<Rightarrow> protocols \<Rightarrow> u16 \<Rightarrow> u8 list \<Rightarrow> bool" where
  "opens_session env c p v bs \<longleftrightarrow> (\<exists>ini. initial_of env c p = Ok ini
     \<and> bs = mcs_opening ini v (map snd (map_order env [(''global'', 1003), (''user'', v + 1001)])))"

text \<open>
  What the client asks of its environment and its peer to be served at all: a connect initial that fits into a frame (it has
  400 bytes with the writer of the examples, and any settings), an answer that the library parses, one entry per channel when the map is walked, an
  initiator that leaves the channels apart, and messages that fit into theirs.
\<close>

definition served :: "environment \<Rightarrow> connector \<Rightarrow> u8 list \<Rightarrow> server_data \<Rightarrow> u16 \<Rightarrow> u8 list \<Rightarrow> bool" where
  "served env c resp sd v lic \<longleftrightarrow>
     (\<forall>p. \<exists>ini. initial_of env c p = Ok ini \<and> length ini + 7 < 65536)
     \<and> (\<exists>result called p cc. parse_ber (cr_yasna (crates_library env)) (shape_of (connect_response None)) resp
           = Some (write_asn1 (connect_answer result called p cc)) \<and> read_conference_create_response cc = Ok sd)
     \<and> length resp < 65000 \<and> unat v + 1001 < 65536 \<and> v \<noteq> 2
     \<and> mset (map_order env [(''global'', 1003), (''user'', v + 1001)]) = {#(''global'', 1003), (''user'', v + 1001)#}
     \<and> length (session_info c sd) < 0x8000 \<and> length lic < 0x8000 \<and> on_buffer sec_license lic = Ok ()"

lemma session_joined:
  assumes "unat v + 1001 < 65536" "v \<noteq> 2"
    and "set (iter [(''global'', 1003), (''user'', v + 1001)]) = {(''global'', 1003), (''user'', v + 1001)}"
  shows "session_ok iter (v + 1001) (client_session v sd)"
proof -
  have "1001 \<le> v + 1001" using assms(1) by (simp add: word_le_nat_alt unat_word_ariths)
  moreover have "v + 1001 \<noteq> 1003"
  proof
    assume "v + 1001 = 1003"
    then have "v = 1003 - 1001" by (simp only: eq_diff_eq)
    then show False using assms(2) by simp
  qed
  ultimately show ?thesis using assms(3) by (auto simp: session_ok_def client_session_def)
qed

lemma session_runs:
  assumes "served env c resp sd v lic" "conversation x (mcs_answers (map_order env) resp v @ global_indication h i prio lic @ q)"
    and "indication_ok h i"
  shows "\<exists>mcs before. connector_session env c (mcs_new x) = (Ok (), mcs)
     \<and> joined (map_order env) (v + 1001) (client_session v sd) mcs q \<and> opens_session env c (x_selected x) v before
     \<and> mcs_sent mcs = sent (x_transport x) @ before @ global_request (v + 1001) (session_info c sd)"
proof -
  let ?y = "cr_yasna (crates_library env)" and ?iter = "map_order env"
  let ?chs = "map snd (?iter [(''global'', 1003), (''user'', v + 1001)])"
  obtain result called p cc where cc: "parse_ber ?y (shape_of (connect_response None)) resp = Some (write_asn1 (connect_answer result called p cc))"
      "read_conference_create_response cc = Ok sd"
    using assms(1) by (auto simp: served_def)
  obtain ini where ini: "initial_of env c (x_selected x) = Ok ini" "length ini + 7 < 65536"
    using assms(1) by (auto simp: served_def)
  have walk: "set (?iter [(''global'', 1003), (''user'', v + 1001)]) = {(''global'', 1003), (''user'', v + 1001)}"
  proof -
    have "mset (?iter [(''global'', 1003), (''user'', v + 1001)]) = mset [(''global'', 1003), (''user'', v + 1001)]"
      using assms(1) by (simp add: served_def)
    from mset_eq_setD [OF this] show ?thesis by simp
  qed
  have "\<exists>m. mcs_connect ?y ?iter (c_name c) (c_width c) (c_height c) (c_layout c) (mcs_new x) = (Ok (), m)
     \<and> conversation (m_x224 m) (global_indication h i prio lic @ q) \<and> m_user_id m = Some (v + 1001)
     \<and> m_channel_ids m = [(''global'', 1003), (''user'', v + 1001)] \<and> m_server_data m = Some sd
     \<and> mcs_sent m = mcs_sent (mcs_new x) @ mcs_opening ini v ?chs"
    by (rule mcs_connect_run [where resp = resp and result = result and called = called and p = p and cc = cc and r = "\<lambda>_. 0"])
      (use assms cc ini in \<open>auto simp: served_def mcs_new_def mcs_answers_def initial_of_def get_selected_protocols_def\<close>)
  then obtain m where m: "mcs_connect ?y ?iter (c_name c) (c_width c) (c_height c) (c_layout c) (mcs_new x) = (Ok (), m)"
      "joined ?iter (v + 1001) (client_session v sd) m (global_indication h i prio lic @ q)"
      "mcs_sent m = sent (x_transport x) @ mcs_opening ini v ?chs"
    using session_joined [of v ?iter sd] walk assms(1) by (auto simp: joined_def mcs_session_def client_session_def served_def mcs_new_def)
  have opened: "opens_session env c (x_selected x) v (mcs_opening ini v ?chs)" using ini(1) by (auto simp: opens_session_def)
  have s: "snd (snd (client_session v sd)) = Some sd" by (simp add: client_session_def)
  have lic: "length lic < 0x8000" "on_buffer sec_license lic = Ok ()" using assms(1) by (simp_all add: served_def)
  show ?thesis
  proof (cases "c_restricted_admin_mode c")
    case True
    then show ?thesis
      using sec_connect_run [OF m(2) assms(3) lic(1) s, of "[]" "[]" "[]" "c_auto_logon c"] assms(1) m(1,3) lic(2) opened
      by (auto simp: connector_session_def bindp_def session_info_def served_def)
  next
    case False
    then show ?thesis
      using sec_connect_run [OF m(2) assms(3) lic(1) s, of "c_domain c" "c_username c" "c_password c" "c_auto_logon c"] assms(1) m(1,3) lic(2) opened
      by (auto simp: connector_session_def bindp_def session_info_def served_def)
  qed
qed

text \<open>The client of a connector whose X.224 layer is connected.\<close>

definition fresh_client :: "connector \<Rightarrow> u16 \<Rightarrow> global_client" where
  "fresh_client c v = global_new (v + 1001) 1003 (c_width c) (c_height c) (c_layout c) (c_name c)"

abbreviation x224_of :: "environment \<Rightarrow> connector \<Rightarrow> io \<Rightarrow> x224_client outcome" where
  "x224_of env c tcp \<equiv> x224_connect (tls_library env) (Raw tcp) (requested_protocols c) (c_check_certificate c)
       (Some (nla (crates_library env) (ntlm_protocol (crypto_library env)) (authentication_of (crypto_library env) c, noise env)))
       (c_restricted_admin_mode c) (c_blank_creds c)"

lemma connector_runs:
  assumes "served env c resp sd v lic" "x224_of env c tcp = Ok x"
    and "conversation x (mcs_answers (map_order env) resp v @ global_indication h i prio lic @ q)" "indication_ok h i"
  shows "\<exists>mcs before. connector_connect env c tcp = Ok \<lparr>s_global = fresh_client c v, s_mcs = mcs, s_events = []\<rparr>
     \<and> joined (map_order env) (v + 1001) (client_session v sd) mcs q \<and> opens_session env c (x_selected x) v before
     \<and> mcs_sent mcs = sent (x_transport x) @ before @ global_request (v + 1001) (session_info c sd)"
proof -
  obtain mcs before where m: "connector_session env c (mcs_new x) = (Ok (), mcs)"
     "joined (map_order env) (v + 1001) (client_session v sd) mcs q" "opens_session env c (x_selected x) v before"
     "mcs_sent mcs = sent (x_transport x) @ before @ global_request (v + 1001) (session_info c sd)"
    using session_runs [OF assms(1,3,4)] by blast
  have "get_user_id mcs = Ok (v + 1001)" "get_global_channel_id mcs = Ok 1003"
    using m(2) by (auto simp: joined_def mcs_session_def client_session_def get_user_id_def get_global_channel_id_def
        unwrap_option_def map_index_def)
  then show ?thesis using m assms(2) by (auto simp: connector_connect_def fresh_client_def)
qed

subsection \<open>The two ways through the negotiation\<close>

definition confirm_frame :: "protocols \<Rightarrow> u8 list" where
  "confirm_frame p = slow_frame ([14, 0xD0, 0, 0, 0, 0, 0, 2, 0, 8, 0] @ u32_le (protocols_code p))"

definition request_frame :: "connector \<Rightarrow> u8 list" where
  "request_frame c = slow_frame ([14, 0xE0, 0, 0, 0, 0, 0, 1, if c_restricted_admin_mode c then 1 else 0, 8, 0] @ u32_le (requested_protocols c))"

text \<open>A fresh raw stream on which the peer's bytes arrive, in any pieces.\<close>

definition arriving :: "io \<Rightarrow> u8 list \<Rightarrow> bool" where
  "arriving i q \<longleftrightarrow> sound_rx (rx i) \<and> rx_bytes (rx i) = q \<and> writes i = [] \<and> tx i = []"

lemma confirm_choice: "connection_confirm ([14, 0xD0, 0, 0, 0, 0, 0, 2, 0, 8, 0] @ u32_le (protocols_code p)) = Ok p"
  using connection_confirm_bytes [of 14 "0xD0" 0 0 0 0 0 2 0 8 0 _ _ _ _ "[]"]
  by (cases p) (simp_all add: u32_le_def le_u16_def le_u32_def protocols_of_def)

lemma x224_chosen:
  assumes "arriving tcp (confirm_frame p @ q)"
  obtains i where "tx i = request_frame c" "rx_bytes (rx i) = q" "sound_rx (rx i)" "writes i = []"
    "x224_establish (tls_library env) (requested_protocols c) check auth (c_restricted_admin_mode c) blank (Raw tcp)
       = (case p of ProtocolRDP \<Rightarrow> (Ok ProtocolRDP, Raw i)
        | ProtocolSSL \<Rightarrow> bindp (start_ssl (tls_library env) check) (\<lambda>_. retp ProtocolSSL) (Raw i)
        | ProtocolHybrid \<Rightarrow> (case auth of None \<Rightarrow> (Panic UnwrapFailed, Raw i)
             | Some a \<Rightarrow> bindp (start_nla (tls_library env) check a (c_restricted_admin_mode c \<or> blank)) (\<lambda>_. retp ProtocolHybrid) (Raw i))
        | ProtocolHybridEx \<Rightarrow> (Err (rdp_err InvalidProtocol), Raw i))"
proof -
  have s: "writes (stream_io (Raw tcp)) = []" "healthy (Raw tcp)" "pending (Raw tcp) = confirm_frame p @ q"
    using assms by (simp_all add: arriving_def healthy_def pending_def)
  from negotiation [OF s [unfolded confirm_frame_def] _ _ confirm_choice, of "c_restricted_admin_mode c" "requested_protocols c" "tls_library env" check auth blank]
  obtain s' where s': "sent s' = request_frame c" "pending s' = q" "\<not> is_ssl s'" "healthy s'" "writes (stream_io s') = []"
    "x224_establish (tls_library env) (requested_protocols c) check auth (c_restricted_admin_mode c) blank (Raw tcp)
       = (case p of ProtocolRDP \<Rightarrow> (Ok ProtocolRDP, s')
        | ProtocolSSL \<Rightarrow> bindp (start_ssl (tls_library env) check) (\<lambda>_. retp ProtocolSSL) s'
        | ProtocolHybrid \<Rightarrow> (case auth of None \<Rightarrow> (Panic UnwrapFailed, s')
             | Some a \<Rightarrow> bindp (start_nla (tls_library env) check a (c_restricted_admin_mode c \<or> blank)) (\<lambda>_. retp ProtocolHybrid) s')
        | ProtocolHybridEx \<Rightarrow> (Err (rdp_err InvalidProtocol), s'))"
    using assms by (auto simp: sent_def arriving_def request_frame_def u32_le_def)
  obtain i where i: "s' = Raw i" using s'(3) by (cases s') auto
  show ?thesis by (rule that [of i]) (use s'(1,2,4-6) [unfolded i] in \<open>simp_all add: sent_def pending_def healthy_def\<close>)
qed

subsection \<open>Reading until the client is active\<close>

primrec rdp_reads :: "id_order \<Rightarrow> nat \<Rightarrow> (rdp_client, unit) prog" where
  "rdp_reads iter 0 = retp ()"
| "rdp_reads iter (Suc n) = bindp (rdp_read iter) (\<lambda>_. rdp_reads iter n)"

lemma rdp_read_joined:
  assumes "joined iter u sess (s_mcs s) (global_indication h i prio bs @ q)" "indication_ok h i" "length bs < 0x8000"
  shows "\<exists>c'. rdp_read iter s = global_read (PRaw bs) (s\<lparr>s_mcs := c'\<rparr>) \<and> joined iter u sess c' q \<and> mcs_sent c' = mcs_sent (s_mcs s)"
proof -
  obtain c' where "mcs_read iter (s_mcs s) = (Ok (''global'', PRaw bs), c')" "joined iter u sess c' q" "mcs_sent c' = mcs_sent (s_mcs s)"
    using joined_read [OF assms] by blast
  then show ?thesis by (auto simp: rdp_read_def bindp_def zoom_def)
qed

lemma accepted_read:
  assumes "joined iter u sess (s_mcs s) (global_indication h i prio bs @ q)" "indication_ok h i" "length bs < 0x8000"
    and "g_state (s_global s) = st" "st \<notin> {DemandActivePDU, DataState}" "handshake_step st (classify bs) \<noteq> st"
  shows "\<exists>c'. rdp_read iter s = (Ok (), s\<lparr>s_global := s_global s\<lparr>g_state := successor st\<rparr>, s_mcs := c'\<rparr>)
     \<and> joined iter u sess c' q \<and> mcs_sent c' = mcs_sent (s_mcs s)"
proof -
  obtain c' where c: "rdp_read iter s = global_read (PRaw bs) (s\<lparr>s_mcs := c'\<rparr>)" "joined iter u sess c' q" "mcs_sent c' = mcs_sent (s_mcs s)"
    using rdp_read_joined [OF assms(1-3)] by blast
  have "global_read (PRaw bs) (s\<lparr>s_mcs := c'\<rparr>) = (Ok (), s\<lparr>s_global := s_global s\<lparr>g_state := successor st\<rparr>, s_mcs := c'\<rparr>)"
    using read_accepted_step [of "s\<lparr>s_mcs := c'\<rparr>" st bs] assms(4-6) by simp
  then show ?thesis using c by auto
qed

lemma rdp_activates:
  assumes "joined iter u sess (s_mcs s) (concat (map (global_indication h i prio) [d, sy, co, gr, fm]) @ q)" "indication_ok h i"
    and "list_all (\<lambda>bs. length bs < 0x8000) [d, sy, co, gr, fm]" "map classify [d, sy, co, gr, fm] = received DataState"
    and "g_state (s_global s) = DemandActivePDU" "length (as_bytes (g_name (s_global s))) < 0x7000"
  shows "\<exists>g c. rdp_reads iter 5 s = (Ok (), s\<lparr>s_global := g\<lparr>g_state := DataState\<rparr>, s_mcs := c\<rparr>)
     \<and> activated (s_global s) g \<and> joined iter u sess c q
     \<and> mcs_sent c = mcs_sent (s_mcs s) @ concat (map (global_request u) (client_pdus g))"
proof -
  let ?q = "\<lambda>bss. concat (map (global_indication h i prio) bss) @ q"
  obtain c1 where c1: "rdp_read iter s = global_read (PRaw d) (s\<lparr>s_mcs := c1\<rparr>)" "joined iter u sess c1 (?q [sy, co, gr, fm])"
      "mcs_sent c1 = mcs_sent (s_mcs s)"
    using rdp_read_joined [of iter u sess s h i prio d "?q [sy, co, gr, fm]"] assms(1-3) by auto
  obtain g c2 where c2: "activated (s_global s) g" "joined iter u sess c2 (?q [sy, co, gr, fm])"
      "rdp_read iter s = (Ok (), s\<lparr>s_global := g\<lparr>g_state := SynchronizePDU\<rparr>, s_mcs := c2\<rparr>)"
      "mcs_sent c2 = mcs_sent (s_mcs s) @ concat (map (global_request u) (client_pdus g))"
    using read_demand_step [of "s\<lparr>s_mcs := c1\<rparr>" d iter u sess "?q [sy, co, gr, fm]"] c1 assms(4-6) by auto
  let ?s = "\<lambda>st c. s\<lparr>s_global := g\<lparr>g_state := st\<rparr>, s_mcs := c\<rparr>"
  have step: "\<exists>c'. rdp_read iter (?s st c) = (Ok (), ?s (successor st) c') \<and> joined iter u sess c' (?q bss) \<and> mcs_sent c' = mcs_sent c"
    if "joined iter u sess c (?q (bs # bss))" "length bs < 0x8000" "st \<notin> {DemandActivePDU, DataState}"
      "handshake_step st (classify bs) \<noteq> st" for st c bs bss
    using accepted_read [of iter u sess "?s st c" h i prio bs "?q bss" st] that assms(2) by simp
  obtain c3 where c3: "rdp_read iter (?s SynchronizePDU c2) = (Ok (), ?s ControlCooperate c3)" "joined iter u sess c3 (?q [co, gr, fm])"
      "mcs_sent c3 = mcs_sent c2"
    using step [OF c2(2), of SynchronizePDU] assms(3,4) by auto
  obtain c4 where c4: "rdp_read iter (?s ControlCooperate c3) = (Ok (), ?s ControlGranted c4)" "joined iter u sess c4 (?q [gr, fm])"
      "mcs_sent c4 = mcs_sent c3"
    using step [OF c3(2), of ControlCooperate] assms(3,4) by auto
  obtain c5 where c5: "rdp_read iter (?s ControlGranted c4) = (Ok (), ?s FontMap c5)" "joined iter u sess c5 (?q [fm])" "mcs_sent c5 = mcs_sent c4"
    using step [OF c4(2), of ControlGranted] assms(3,4) by auto
  obtain c6 where c6: "rdp_read iter (?s FontMap c5) = (Ok (), ?s DataState c6)" "joined iter u sess c6 (?q [])" "mcs_sent c6 = mcs_sent c5"
    using step [OF c5(2), of FontMap] assms(3,4) by auto
  have "rdp_reads iter 5 s = (Ok (), ?s DataState c6)"
    using c2(3) c3(1) c4(1) c5(1) c6(1) by (simp add: eval_nat_numeral bindp_def retp_def)
  then show ?thesis using c2(1,4) c3(3) c4(3) c5(3) c6(2,3) by auto
qed

subsection \<open>What an input event becomes\<close>

text \<open>
  The event as the protocol describes it, with the flag bits written out: the kind of the event
  on the wire and its six bytes.
\<close>

definition mouse_bits :: "pointer_button \<Rightarrow> bool \<Rightarrow> u16" where
  "mouse_bits button down = (case button of ButtonLeft \<Rightarrow> 0x1000 | ButtonRight \<Rightarrow> 0x2000 | ButtonMiddle \<Rightarrow> 0x4000 | ButtonNone \<Rightarrow> 0x0800)
     + (if down then 0x8000 else 0)"

definition input_on_wire :: "rdp_event \<Rightarrow> (u16 \<times> u8 list) option" where
  "input_on_wire event = (case event of
       Pointer p \<Rightarrow> Some (0x8001, u16_le (mouse_bits (pe_button p) (pe_down p)) @ u16_le (pe_x p) @ u16_le (pe_y p))
     | Key k \<Rightarrow> Some (0x0004, u16_le (if ke_down k then 0 else 0x8000) @ u16_le (ke_code k) @ [0, 0])
     | Bitmap b \<Rightarrow> None)"

definition input_frame :: "u16 \<Rightarrow> global_client \<Rightarrow> u16 \<Rightarrow> u8 list \<Rightarrow> u8 list" where
  "input_frame u g t bs = global_request u (control_bytes PdutypeDatapdu (g_user_id g)
     (data_bytes (unwrap_or (g_share_id g) 0) Pdutype2Input ([1, 0, 0, 0, 0, 0, 0, 0] @ u16_le t @ bs)))"

lemma pointer_bits: "pointer_flags p = mouse_bits (pe_button p) (pe_down p)"
  by (simp add: pointer_flags_def mouse_bits_def Let_def split: pointer_button.split)

text \<open>An input event of the protocol for an event of the client, or none for a bitmap.\<close>

lemma rdp_write_cases:
  "(input_on_wire event = None \<and> rdp_write event s = (Err (rdp_err UnexpectedType), s))
   \<or> (\<exists>e t bs. input_on_wire event = Some (input_event_type_code t, bs) \<and> ti_type e = t \<and> write_msg (ti_message e) = Ok bs \<and> length bs = 6
       \<and> rdp_write event s = on_mcs (write_input_event (s_global s) e) s)"
proof (cases event)
  case (Pointer p)
  let ?e = "ts_pointer_event (Some (pointer_flags p)) (Some (pe_x p)) (Some (pe_y p))"
  have "ti_type ?e = InputEventMouse" "write_msg (ti_message ?e) = Ok (u16_le (pointer_flags p) @ u16_le (pe_x p) @ u16_le (pe_y p))"
    by (simp_all add: ts_pointer_event_def u16_write_def add_filter_def)
  then show ?thesis
    using Pointer by (intro disjI2 exI [of _ ?e]) (simp add: rdp_write_def bindp_def getp_def pointer_bits input_on_wire_def u16_le_def)
next
  case (Key k)
  let ?e = "ts_keyboard_event (Some (key_flags k)) (Some (ke_code k))"
  have "ti_type ?e = InputEventScancode" "write_msg (ti_message ?e) = Ok (u16_le (key_flags k) @ u16_le (ke_code k) @ [0, 0])"
    by (simp_all add: ts_keyboard_event_def u16_write_def add_filter_def u16_le_def [of 0])
  then show ?thesis
    using Key by (intro disjI2 exI [of _ ?e]) (simp add: rdp_write_def bindp_def getp_def key_flags_def input_on_wire_def u16_le_def)
qed (simp add: rdp_write_def input_on_wire_def failp_def)

lemma rdp_write_joined:
  assumes "joined iter u sess (s_mcs s) q" "input_on_wire event = Some (t, bs)" "g_state (s_global s) = DataState"
  shows "\<exists>c'. rdp_write event s = (Ok (), s\<lparr>s_mcs := c'\<rparr>) \<and> joined iter u sess c' q
     \<and> mcs_sent c' = mcs_sent (s_mcs s) @ input_frame u (s_global s) t bs"
proof -
  obtain e t' where e: "t = input_event_type_code t'" "ti_type e = t'" "write_msg (ti_message e) = Ok bs" "length bs = 6"
      "rdp_write event s = on_mcs (write_input_event (s_global s) e) s"
    using rdp_write_cases [of event s] assms(2) by auto
  then show ?thesis
    using input_joined [OF assms(1,3) e(3)] by (auto simp: zoom_def input_frame_def input_bytes_def)
qed

lemma rdp_write_elsewhere:
  assumes "g_state (s_global s) \<noteq> DataState"
  shows "rdp_write event s = (Err (rdp_err (if input_on_wire event = None then UnexpectedType else InvalidAutomata)), s)"
  using rdp_write_cases [of event s] assms by (auto simp: write_input_event_def failp_def zoom_def)

subsection \<open>Runs of a client\<close>

text \<open>What one read takes from the global channel.\<close>

definition delivered :: "id_order \<Rightarrow> rdp_client \<Rightarrow> payload list" where
  "delivered iter s = (case fst (mcs_read iter (s_mcs s)) of Ok (name, p) \<Rightarrow> if name = ''global'' then [p] else [] | _ \<Rightarrow> [])"

text \<open>Whatever the results of the operations are, the client may be used on.\<close>

inductive client_run :: "environment \<Rightarrow> connector \<Rightarrow> io \<Rightarrow> payload list \<Rightarrow> rdp_client \<Rightarrow> bool" for env c tcp where
  connected: "connector_connect env c tcp = Ok s \<Longrightarrow> client_run env c tcp [] s"
| reads: "client_run env c tcp ps s \<Longrightarrow> rdp_read (map_order env) s = (r, t) \<Longrightarrow> client_run env c tcp (ps @ delivered (map_order env) s) t"
| sends: "client_run env c tcp ps s \<Longrightarrow> rdp_write event s = (r, t) \<Longrightarrow> client_run env c tcp ps t"
| tries: "client_run env c tcp ps s \<Longrightarrow> try_write event s = (r, t) \<Longrightarrow> client_run env c tcp ps t"

lemma keeps_rdp_write:
  "keeps s_global (rdp_write event)" "keeps (mcs_session \<circ> s_mcs) (rdp_write event)"
proof -
  have mcs: "keeps s_global (on_mcs m)" "keeps mcs_session m \<Longrightarrow> keeps (mcs_session \<circ> s_mcs) (on_mcs m)" for m :: "(mcs_client, 'x) prog"
    by (auto intro: keeps_zoom keeps_zoom_part)
  show "keeps s_global (rdp_write event)" "keeps (mcs_session \<circ> s_mcs) (rdp_write event)"
    unfolding rdp_write_def by (auto intro!: keeps_intros mcs keeps_session_writes split: rdp_event.split)
qed

lemma try_write_state: "snd (try_write event s) = snd (rdp_write event s)"
  by (simp add: try_write_def split: prod.split outcome.split error.split)

lemma write_view:
  "s_global (snd (rdp_write event s)) = s_global s \<and> mcs_connected (s_mcs (snd (rdp_write event s))) = mcs_connected (s_mcs s)"
proof -
  obtain r t where t: "rdp_write event s = (r, t)" by fastforce
  show ?thesis
    using keepsD [OF keeps_rdp_write(1) t] keepsD [OF keeps_rdp_write(2) t] mcs_connected_session [of "s_mcs t" "s_mcs s"]
    by (simp add: t)
qed

lemma connector_established:
  assumes "connector_connect env c tcp = Ok s"
  shows "mcs_connected (s_mcs s) \<and> g_state (s_global s) = DemandActivePDU \<and> s_events s = []
     \<and> m_user_id (s_mcs s) = Some (g_user_id (s_global s)) \<and> g_channel_id (s_global s) = 1003"
proof -
  obtain x m u ch where m: "connector_session env c (mcs_new x) = (Ok (), m)" "get_user_id m = Ok u" "get_global_channel_id m = Ok ch"
      "s = \<lparr>s_global = global_new u ch (c_width c) (c_height c) (c_layout c) (c_name c), s_mcs = m, s_events = []\<rparr>"
    using assms by (auto simp: connector_connect_def bindo_eq_Ok cursor_Ok)
  have keep: "keeps mcs_session (sec_connect iter d n p a)" for iter d n p a
    unfolding sec_connect_def by (auto intro!: keeps_intros)
  have sec: "post (sec_connect iter d n p a) (\<lambda>_. mcs_connected) t" if "mcs_connected t" for iter d n p a t
    by (rule post_keeps [OF keep]) (use that mcs_connected_session in blast)
  have "post (connector_session env c) (\<lambda>_. mcs_connected) (mcs_new x)"
    unfolding connector_session_def post_bindp
    by (rule post_mono [OF post_connect]) (simp add: sec)
  then have "mcs_connected m" using m(1) by (rule postD)
  then show ?thesis
    using m(2-4) by (auto simp: mcs_connected_def get_user_id_def get_global_channel_id_def map_index_def unwrap_option_def
        global_new_def)
qed

lemma run_connected:
  "client_run env c tcp ps s \<Longrightarrow> mcs_connected (s_mcs s)
     \<and> (\<exists>g. g_state g = DemandActivePDU \<and> global_run g ps (s_global s))"
proof (induction rule: client_run.induct)
  case (connected s)
  then show ?case using connector_established global_run.start by blast
next
  case (reads ps s r t)
  let ?iter = "map_order env"
  obtain m c where m: "mcs_read ?iter (s_mcs s) = (m, c)" by fastforce
  have same: "mcs_session c = mcs_session (s_mcs s)" using keepsD [OF keeps_mcs_read m] .
  have "mcs_session (s_mcs t) = mcs_session c \<and> (if \<exists>p. m = Ok (''global'', p)
      then \<exists>p. delivered ?iter s = [p] \<and> global_read p (s\<lparr>s_mcs := c\<rparr>) = (r, t)
      else delivered ?iter s = [] \<and> s_global t = s_global s)"
  proof (cases "\<exists>p. m = Ok (''global'', p)")
    case True
    then obtain p where p: "m = Ok (''global'', p)" by blast
    then have "global_read p (s\<lparr>s_mcs := c\<rparr>) = (r, t)"
      using reads.hyps(2) m by (simp add: rdp_read_def bindp_def zoom_def)
    then show ?thesis using keepsD [OF keeps_global_read, of p "s\<lparr>s_mcs := c\<rparr>" r t] m p by (simp add: delivered_def)
  next
    case False
    then have "t = s\<lparr>s_mcs := c\<rparr>"
      using reads.hyps(2) m by (cases m) (auto simp: rdp_read_def bindp_def zoom_def failp_def split: if_splits)
    then show ?thesis using False m by (cases m) (auto simp: delivered_def)
  qed
  moreover have "global_run g (ps @ [p]) (s_global t)" if "global_run g ps (s_global s)" "global_read p (s\<lparr>s_mcs := c\<rparr>) = (r, t)" for g p
    using global_run.read [OF that(1), of p c "s_events s" r t] that(2) by (cases s) simp
  ultimately show ?case using reads.IH mcs_connected_session [of "s_mcs t" "s_mcs s"] same
    by (auto split: if_splits)
next
  case (sends ps s event r t)
  then show ?case using write_view [of event s] by simp
next
  case (tries ps s event r t)
  then show ?case using write_view [of event s] try_write_state [of event s] by simp
qed

subsection \<open>How an operation can end\<close>

lemma wpo_x224_strip: "wpo (x224_strip p) (\<lambda>_. True) {}"
proof -
  have "quiet x224_header" by (simp add: x224_header_def)
  then have "wpo (cursor (read_msg x224_header) bs) (\<lambda>_. True) {}" for bs
    using guarded_outcome [OF safe_read_msg, of "{}" x224_header bs]
    by (auto simp: cursor_def split: prod.split outcome.split)
  then show ?thesis by (cases p) (simp_all add: x224_strip_def wpo_bindo case_prod_beta)
qed

lemma safe_parts:
  "wpo r (\<lambda>_. True) P \<Longrightarrow> guarded P (liftp r)" "guarded P m \<Longrightarrow> guarded P (zoom get put m)" "guarded P (getp f)"
  by (simp_all add: guarded_def wp_simps wp_liftp_wpo)

lemma wpo_cursor_safe: "guarded P m \<Longrightarrow> wpo (cursor m bs) (\<lambda>_. True) P"
  by (simp add: wpo_cursor guarded_def)

lemma safe_mcs_read: "guarded arith (mcs_read iter)"
proof -
  have ints: "guarded arith u8_read" "guarded arith (u16_read (BE w))" for w
    by (auto simp: u8_read_def u16_read_def intro!: safe_intros)
  have add: "guarded arith (liftp (addw a b))" for a b :: "'w::len word"
    by (simp add: guarded_def wp_simps)
  have header: "guarded arith mcs_header"
    unfolding mcs_header_def read_integer_16_def by (intro safe_intros ints add)
  have size: "guarded arith (bindp read_enumerates (\<lambda>_. read_length))"
    unfolding read_enumerates_def read_length_def Let_def by (intro safe_intros ints add)
  have tpkt: "guarded arith tpkt_read"
    using wp_mono [OF wp_tpkt_read, of "\<lambda>_ _. True" arith] by (simp add: guarded_def)
  have strip: "wpo (x224_strip p) (\<lambda>_. True) arith" for p
    by (rule wpo_mono [OF wpo_x224_strip]) auto
  show ?thesis
    unfolding mcs_read_def x224_read_def
    by (auto intro!: safe_intros safe_parts tpkt strip wpo_cursor_safe header size split: payload.split option.split)
qed

lemma mcs_read_connected: "mcs_read iter c = (r, d) \<Longrightarrow> mcs_connected d = mcs_connected c"
  using keepsD [OF keeps_mcs_read] mcs_connected_session by blast

lemma wp_rdp_read:
  assumes "mcs_connected (s_mcs s)"
  shows "wp (rdp_read iter) (\<lambda>_ _. True) arith s"
  unfolding rdp_read_def wp_bindp wp_zoom
proof (rule safeD [OF safe_mcs_read])
  fix a c assume "mcs_read iter (s_mcs s) = (Ok a, c)"
  then have "mcs_connected c" using mcs_read_connected assms by blast
  then show "wp (case a of (channel_name, message) \<Rightarrow> if channel_name = ''global'' then global_read message else failp UnexpectedType)
      (\<lambda>_ _. True) arith (s\<lparr>s_mcs := c\<rparr>)"
    using wp_global_read [of "s\<lparr>s_mcs := c\<rparr>"] by (auto simp: wp_simps split: prod.split)
qed

lemma wp_rdp_write:
  assumes "mcs_connected (s_mcs s)"
  shows "wp (rdp_write event) (\<lambda>_ _. True) arith s"
proof -
  have "wp (write_input_event g e) (\<lambda>_ _. True) arith c" if "mcs_connected c" "write_msg (ti_message e) = Ok bs" for g e c bs
  proof -
    have v: "to_vec (ti_message e) = Ok bs" using that(2) by simp
    show ?thesis
      using wp_mono [OF wp_write_data_pdu [OF that(1) input_written [THEN conjunct2]]]
      by (auto simp: write_input_event_def v wp_simps)
  qed
  then have mcs: "wp (on_mcs (write_input_event (s_global s) e)) (\<lambda>_ _. True) arith s" if "write_msg (ti_message e) = Ok bs" for e bs
    using assms that by (simp add: wp_zoom)
  from rdp_write_cases [of event s] show ?thesis
  proof (elim disjE conjE exE)
    fix e bs assume "write_msg (ti_message e) = Ok bs" "rdp_write event s = on_mcs (write_input_event (s_global s) e) s"
    then show ?thesis using mcs by (simp add: wp_def)
  qed (simp add: wp_def)
qed

lemma wp_try_write: "mcs_connected (s_mcs s) \<Longrightarrow> wp (try_write event) (\<lambda>_ _. True) arith s"
  using wp_rdp_write [of s event] by (auto simp: wp_def try_write_def split: prod.splits outcome.splits error.split)

subsection \<open>The kind of the stream\<close>

definition over_tls :: "mcs_client \<Rightarrow> bool" where
  "over_tls c = is_ssl (x_transport (m_x224 c))"

lemma keeps_over_tls:
  "keeps over_tls (on_x224 (x224_write m))" "keeps over_tls (on_x224 x224_read)"
proof -
  have lift: "keeps over_tls (on_x224 f)" if "keeps (\<lambda>x. is_ssl (x_transport x)) f" for f :: "(x224_client, 'x) prog"
    using that by (rule keeps_zoom_part) (simp add: over_tls_def)
  have "keeps is_ssl tpkt_read" using keeps_tpkt_read by (simp add: keeps_def sending_side_def)
  then have "keeps (\<lambda>x. is_ssl (x_transport x)) x224_read"
    unfolding x224_read_def by (intro keeps_intros keeps_zoom_part) auto
  moreover have "keeps (\<lambda>x. is_ssl (x_transport x)) (x224_write m)"
    unfolding x224_write_def by (rule keeps_zoom_part [OF keeps_tpkt_write]) simp
  ultimately show "keeps over_tls (on_x224 (x224_write m))" "keeps over_tls (on_x224 x224_read)"
    using lift by blast+
qed

lemma keeps_over_tls_mcs:
  "keeps over_tls (mcs_write name m)" "keeps over_tls (mcs_read iter)"
  unfolding mcs_write_def mcs_read_def
  by (auto intro!: keeps_intros keeps_over_tls split: payload.split option.split)

lemma keeps_over_tls_session: "keeps over_tls (connector_session env c)"
proof -
  have join: "keeps over_tls (join_channels is)" for "is"
    by (induction "is") (auto simp: join_channel_def intro!: keeps_intros keeps_over_tls)
  have "keeps over_tls (sec_connect iter d n p a)" for iter d n p a
    unfolding sec_connect_def by (auto intro!: keeps_intros keeps_over_tls_mcs)
  moreover have "keeps over_tls (mcs_connect y iter name w h l)" for y iter name w h l
    unfolding mcs_connect_def write_connect_initial_def read_connect_response_def
    by (intro keeps_intros keeps_over_tls keeps_modp join) (auto simp: over_tls_def)
  ultimately show ?thesis unfolding connector_session_def by (auto intro!: keeps_intros)
qed

lemma arriving_conversation:
  "conversation \<lparr>x_transport = st, x_selected = p\<rparr> q \<longleftrightarrow> sound_rx (rx (stream_io st)) \<and> writes (stream_io st) = [] \<and> rx_bytes (rx (stream_io st)) = q"
  by (simp add: conversation_def healthy_def pending_def)

lemma connector_over:
  assumes "served env c resp sd v lic" "x224_of env c tcp = Ok x"
    and "conversation x (mcs_answers (map_order env) resp v @ global_indication h i prio lic @ q)" "indication_ok h i"
  shows "\<exists>mcs before. connector_connect env c tcp = Ok \<lparr>s_global = fresh_client c v, s_mcs = mcs, s_events = []\<rparr>
     \<and> joined (map_order env) (v + 1001) (client_session v sd) mcs q \<and> over_tls mcs = is_ssl (x_transport x)
     \<and> opens_session env c (x_selected x) v before
     \<and> mcs_sent mcs = sent (x_transport x) @ before @ global_request (v + 1001) (session_info c sd)"
proof -
  obtain mcs before where m: "connector_connect env c tcp = Ok \<lparr>s_global = fresh_client c v, s_mcs = mcs, s_events = []\<rparr>"
     "joined (map_order env) (v + 1001) (client_session v sd) mcs q" "opens_session env c (x_selected x) v before"
     "mcs_sent mcs = sent (x_transport x) @ before @ global_request (v + 1001) (session_info c sd)"
    using connector_runs [OF assms] by blast
  have "connector_session env c (mcs_new x) = (Ok (), mcs)"
    using m(1) assms(2) by (auto simp: connector_connect_def bindo_eq_Ok cursor_Ok)
  from keepsD [OF keeps_over_tls_session this] show ?thesis using m by (auto simp: over_tls_def mcs_new_def)
qed

lemma connects_over_tls:
  assumes "served env c resp sd v lic" "indication_ok h i" "arriving tcp (confirm_frame ProtocolSSL @ hello)"
    and "\<And>j. tx j = request_frame c \<Longrightarrow> rx_bytes (rx j) = hello \<Longrightarrow> tls_library env (c_check_certificate c) j = Ok t"
    and "arriving (s_io t) (mcs_answers (map_order env) resp v @ global_indication h i prio lic @ q)"
  shows "\<exists>mcs before. connector_connect env c tcp = Ok \<lparr>s_global = fresh_client c v, s_mcs = mcs, s_events = []\<rparr>
     \<and> joined (map_order env) (v + 1001) (client_session v sd) mcs q \<and> over_tls mcs
     \<and> opens_session env c ProtocolSSL v before \<and> mcs_sent mcs = before @ global_request (v + 1001) (session_info c sd)"
proof -
  obtain j where j: "tx j = request_frame c" "rx_bytes (rx j) = hello" "x224_establish (tls_library env) (requested_protocols c)
      (c_check_certificate c) (Some (nla (crates_library env) (ntlm_protocol (crypto_library env)) (authentication_of (crypto_library env) c, noise env)))
      (c_restricted_admin_mode c) (c_blank_creds c) (Raw tcp) = bindp (start_ssl (tls_library env) (c_check_certificate c)) (\<lambda>_. retp ProtocolSSL) (Raw j)"
    using x224_chosen [OF assms(3), of c env] by (metis protocols.case(2))
  have "x224_of env c tcp = Ok \<lparr>x_transport = Ssl t, x_selected = ProtocolSSL\<rparr>"
    using assms(4) [OF j(1,2)] j(3) by (simp add: x224_connect_def bindp_def start_ssl_def retp_def cursor_def)
  from connector_over [OF assms(1) this _ assms(2), of prio q] assms(5) show ?thesis
    by (simp add: arriving_conversation arriving_def sent_def)
qed

subsection \<open>An environment and a server, for the examples\<close>

abbreviation sample_license :: "u8 list" where
  "sample_license \<equiv> [0x80, 0, 0, 0, 3, 3, 4, 0]"

definition sample_flow :: "u8 list" where
  "sample_flow = concat (map (global_indication 0x68 6 0x70) sample_handshake)"

definition sample_server :: "u8 list" where
  "sample_server = mcs_answers (\<lambda>ids. ids) sample_response 6 @ global_indication 0x68 6 0x70 sample_license @ sample_flow"

definition sample_stream :: "u8 list \<Rightarrow> io" where
  "sample_stream bs = \<lparr>rx = [Data bs], tx = [], writes = []\<rparr>"

definition sample_peer :: tls_session where
  "sample_peer = \<lparr>s_io = sample_stream sample_server, s_cert = Ok None, s_close = True\<rparr>"

definition sample_environment :: environment where
  "sample_environment = \<lparr>tls_library = (\<lambda>check i. Ok sample_peer), crates_library = sample_crates\<lparr>cr_yasna := sample_yasna\<rparr>,
     crypto_library = sample_crypto, map_order = (\<lambda>ids. ids), noise = (\<lambda>_. 0)\<rparr>"

definition sample_connector :: connector where
  "sample_connector = check_certificate True (use_nla False (credentials [100] [117] [112] connector_new))"

abbreviation sample_data_block :: server_data where
  "sample_data_block \<equiv> \<lparr>sd_channel_ids = [1004], sd_rdp_version = version_from 0x00080004\<rparr>"

lemma sample_license_accepted: "on_buffer sec_license sample_license = Ok ()"
  using sec_license_bytes [of "0x80" 0 0 0 "[3, 3, 4, 0]"] by (simp add: license_bytes license_verdict_def le_u16_def)

lemma sample_served: "served sample_environment sample_connector sample_response sample_data_block 6 sample_license"
proof -
  have settings: "length (session_info sample_connector sample_data_block) < 0x8000" "\<forall>b \<in> set (c_name sample_connector). b < 0x80"
    by (simp_all add: session_info_def sample_connector_def connector_new_def credentials_def use_nla_def check_certificate_def
        info_packet_def to_unicode_def encode_utf16_def u16_le_def u32_le_def)
  have y: "cr_yasna (crates_library sample_environment) = sample_yasna" "map_order sample_environment = (\<lambda>ids. ids)"
    by (simp_all add: sample_environment_def)
  have "\<exists>ini. initial_of sample_environment sample_connector p = Ok ini \<and> length ini + 7 < 65536" for p
    unfolding initial_of_def y using sample_initial [OF settings(2)] by blast
  then show ?thesis
    unfolding served_def y
    using settings(1) sample_license_accepted sample_conference_read sample_parsed sample_response_length sample_user
    by (auto simp del: not_None_eq)
qed

lemma sample_streams:
  "arriving (sample_stream (confirm_frame ProtocolSSL)) (confirm_frame ProtocolSSL @ [])" "arriving (s_io sample_peer) sample_server"
  "arriving (sample_stream (confirm_frame ProtocolRDP @ sample_server)) (confirm_frame ProtocolRDP @ sample_server)"
proof -
  have "arriving (sample_stream bs) bs" if "bs \<noteq> []" for bs
    using that by (simp add: arriving_def sample_stream_def)
  then show "arriving (sample_stream (confirm_frame ProtocolSSL)) (confirm_frame ProtocolSSL @ [])" "arriving (s_io sample_peer) sample_server"
    "arriving (sample_stream (confirm_frame ProtocolRDP @ sample_server)) (confirm_frame ProtocolRDP @ sample_server)"
    by (simp_all add: confirm_frame_def slow_frame_def sample_peer_def sample_server_def mcs_answers_def)
qed

lemma sample_order: "map_order sample_environment = (\<lambda>ids. ids)" "tls_library sample_environment check i = Ok sample_peer"
  by (simp_all add: sample_environment_def)

lemma sample_connects:
  "\<exists>mcs before. connector_connect sample_environment sample_connector (sample_stream (confirm_frame ProtocolSSL))
       = Ok \<lparr>s_global = fresh_client sample_connector 6, s_mcs = mcs, s_events = []\<rparr>
     \<and> joined (\<lambda>ids. ids) (6 + 1001) (client_session 6 sample_data_block) mcs sample_flow
     \<and> over_tls mcs \<and> opens_session sample_environment sample_connector ProtocolSSL 6 before
     \<and> mcs_sent mcs = before @ global_request (6 + 1001) (session_info sample_connector sample_data_block)"
proof -
  show ?thesis
    using sample_streams connects_over_tls [OF sample_served, of "0x68" 6 _ "[]" sample_peer "0x70" sample_flow]
    by (simp add: sample_order sample_server_def indication_ok_def)
qed

lemma low_bytes: "u16_le 0x9000 = [0, 0x90]" "u16_le 3 = [3, 0]" "u16_le 4 = [4, 0]"
  by (simp_all add: u16_le_def)

lemma sample_flow_ready:
  "list_all (\<lambda>bs. length bs < 0x8000) sample_handshake" "map classify sample_handshake = received DataState"
  "g_state (fresh_client sample_connector 6) = DemandActivePDU" "length (as_bytes (g_name (fresh_client sample_connector 6))) < 0x7000"
  using sample_kinds
  by (simp_all add: sample_demand_def sample_data_def fresh_client_def global_new_def sample_connector_def connector_new_def
      credentials_def use_nla_def check_certificate_def as_bytes_def utf8_char_def)

lemma reads_run_client:
  "rdp_reads (map_order env) n s = (Ok (), t) \<Longrightarrow> client_run env c tcp ps s \<Longrightarrow> \<exists>ps'. client_run env c tcp ps' t"
proof (induction n arbitrary: s ps)
  case (Suc n)
  then obtain u where "rdp_read (map_order env) s = (Ok (), u)" "rdp_reads (map_order env) n u = (Ok (), t)"
    by (auto simp: bindp_eq_Ok)
  then show ?case using Suc.IH client_run.reads [OF Suc.prems(2)] by blast
qed (auto simp: retp_def)

abbreviation sample_key :: rdp_event where
  "sample_key \<equiv> Key \<lparr>ke_code = 30, ke_down = True\<rparr>"

lemma sample_run:
  "\<exists>ps s t. client_run sample_environment sample_connector (sample_stream (confirm_frame ProtocolSSL)) ps s
     \<and> rdp_write sample_key s = (Ok (), t)"
proof -
  let ?run = "client_run sample_environment sample_connector (sample_stream (confirm_frame ProtocolSSL))"
  let ?s = "\<lambda>mcs. \<lparr>s_global = fresh_client sample_connector 6, s_mcs = mcs, s_events = []\<rparr>"
  obtain mcs where m: "connector_connect sample_environment sample_connector (sample_stream (confirm_frame ProtocolSSL)) = Ok (?s mcs)"
     "joined (\<lambda>ids. ids) 1007 (client_session 6 sample_data_block) mcs (sample_flow @ [])"
    using sample_connects by auto
  obtain g c where g: "rdp_reads (\<lambda>ids. ids) 5 (?s mcs) = (Ok (), (?s mcs)\<lparr>s_global := g\<lparr>g_state := DataState\<rparr>, s_mcs := c\<rparr>)"
      "joined (\<lambda>ids. ids) 1007 (client_session 6 sample_data_block) c []"
    using rdp_activates [of "\<lambda>ids. ids" 1007 "client_session 6 sample_data_block" "?s mcs" "0x68" 6 "0x70" sample_demand _ _ _ _ "[]"]
      m(2) sample_flow_ready by (fastforce simp: sample_flow_def indication_ok_def)
  obtain ps where "?run ps ((?s mcs)\<lparr>s_global := g\<lparr>g_state := DataState\<rparr>, s_mcs := c\<rparr>)"
    using reads_run_client [of sample_environment 5 "?s mcs", OF _ client_run.connected [OF m(1)]] g(1) sample_order(1) by auto
  then show ?thesis
    using rdp_write_joined [of "\<lambda>ids. ids" 1007 _ "(?s mcs)\<lparr>s_global := g\<lparr>g_state := DataState\<rparr>, s_mcs := c\<rparr>" "[]" sample_key] g(2)
    by (fastforce simp: input_on_wire_def)
qed

subsection \<open>Properties\<close>

text \<open>
  C1. A server that chooses TLS and answers every step is connected to: given its answers on
  the session of the TLS library, the connector returns a client whose MCS session is joined
  over TLS with the server's user id, data and both channels, and whose global channel waits for the
  demand active PDU. On that session it has sent exactly its connect initial for the protocol chosen, the erect domain
  request, the attach user request, a join request for each channel and, last, the information packet; in restricted
  administration mode that packet carries no credentials. What the server has sent beyond its
  answers is still to be read.
\<close>

theorem connector_connects:
  assumes "served env c resp sd v lic" "indication_ok h i" "arriving tcp (confirm_frame ProtocolSSL @ hello)"
    and "\<And>j. tx j = request_frame c \<Longrightarrow> rx_bytes (rx j) = hello \<Longrightarrow> tls_library env (c_check_certificate c) j = Ok t"
    and "arriving (s_io t) (mcs_answers (map_order env) resp v @ global_indication h i prio lic @ q)"
  shows "\<exists>mcs before. connector_connect env c tcp = Ok \<lparr>s_global = fresh_client c v, s_mcs = mcs, s_events = []\<rparr>
     \<and> joined (map_order env) (v + 1001) (client_session v sd) mcs q \<and> over_tls mcs
     \<and> opens_session env c ProtocolSSL v before \<and> mcs_sent mcs = before @ global_request (v + 1001) (session_info c sd)"
  by (rule connects_over_tls [OF assms])

theorem connector_connects_witness:
  "\<exists>mcs before. connector_connect sample_environment sample_connector (sample_stream (confirm_frame ProtocolSSL))
       = Ok \<lparr>s_global = fresh_client sample_connector 6, s_mcs = mcs, s_events = []\<rparr>
     \<and> over_tls mcs \<and> opens_session sample_environment sample_connector ProtocolSSL 6 before
     \<and> mcs_sent mcs = before @ global_request 1007 (session_info sample_connector sample_data_block)"
  using connector_connects [OF sample_served, of "0x68" 6 "sample_stream (confirm_frame ProtocolSSL)" "[]" sample_peer "0x70" sample_flow]
    sample_streams
  by (auto simp: sample_order sample_server_def indication_ok_def)

text \<open>
  C5. Any connector, also one that only asked for TLS, with its certificate check on, may be answered with
  standard RDP security: it then runs the whole connection over the raw stream. After its negotiation request everything it
  sends there is in the clear: the opening of the MCS connection and, last, the information packet with domain, user name and password
  in it, unless it is in restricted administration mode.
\<close>

theorem connector_downgraded:
  assumes "served env c resp sd v lic" "indication_ok h i"
    and "arriving tcp (confirm_frame ProtocolRDP @ mcs_answers (map_order env) resp v @ global_indication h i prio lic @ q)"
  shows "\<exists>mcs before. connector_connect env c tcp = Ok \<lparr>s_global = fresh_client c v, s_mcs = mcs, s_events = []\<rparr>
     \<and> \<not> over_tls mcs \<and> opens_session env c ProtocolRDP v before
     \<and> mcs_sent mcs = request_frame c @ before @ global_request (v + 1001) (session_info c sd)"
proof -
  obtain j where j: "rx_bytes (rx j) = mcs_answers (map_order env) resp v @ global_indication h i prio lic @ q" "sound_rx (rx j)" "writes j = []" "tx j = request_frame c"
    "x224_establish (tls_library env) (requested_protocols c)
      (c_check_certificate c) (Some (nla (crates_library env) (ntlm_protocol (crypto_library env)) (authentication_of (crypto_library env) c, noise env)))
      (c_restricted_admin_mode c) (c_blank_creds c) (Raw tcp) = (Ok ProtocolRDP, Raw j)"
    using x224_chosen [OF assms(3), of c env] by (metis protocols.case(1))
  have "x224_of env c tcp = Ok \<lparr>x_transport = Raw j, x_selected = ProtocolRDP\<rparr>"
    using j(5) by (simp add: x224_connect_def cursor_def)
  from connector_over [OF assms(1) this _ assms(2), of prio q] j(1-4) show ?thesis
    by (auto simp: arriving_conversation sent_def)
qed

theorem connector_downgraded_witness:
  "\<exists>mcs before. connector_connect sample_environment sample_connector (sample_stream (confirm_frame ProtocolRDP @ sample_server))
       = Ok \<lparr>s_global = fresh_client sample_connector 6, s_mcs = mcs, s_events = []\<rparr>
     \<and> \<not> over_tls mcs \<and> opens_session sample_environment sample_connector ProtocolRDP 6 before
     \<and> mcs_sent mcs = request_frame sample_connector @ before @ global_request 1007 (session_info sample_connector sample_data_block)"
  using connector_downgraded [OF sample_served, of "0x68" 6 "sample_stream (confirm_frame ProtocolRDP @ sample_server)" "0x70" sample_flow]
    sample_streams
  by (simp add: sample_order sample_server_def indication_ok_def)

text \<open>
  C2. A client made by the connector becomes active: five reads of the server's demand
  active, synchronize, cooperate, granted control and font map PDUs, with whatever other
  contents, bring it to the data state; it answers with exactly its own five PDUs, reads
  nothing more and delivers no event.
\<close>

theorem client_activates:
  assumes "joined iter u sess (s_mcs s) (concat (map (global_indication h i prio) [d, sy, co, gr, fm]) @ q)" "indication_ok h i"
    and "list_all (\<lambda>bs. length bs < 0x8000) [d, sy, co, gr, fm]" "map classify [d, sy, co, gr, fm] = received DataState"
    and "g_state (s_global s) = DemandActivePDU" "length (as_bytes (g_name (s_global s))) < 0x7000"
  shows "\<exists>g c. rdp_reads iter 5 s = (Ok (), s\<lparr>s_global := g\<lparr>g_state := DataState\<rparr>, s_mcs := c\<rparr>)
     \<and> activated (s_global s) g \<and> joined iter u sess c q
     \<and> mcs_sent c = mcs_sent (s_mcs s) @ concat (map (global_request u) (client_pdus g))"
  by (rule rdp_activates [OF assms])

theorem client_activates_witness:
  "\<exists>s g c. connector_connect sample_environment sample_connector (sample_stream (confirm_frame ProtocolSSL)) = Ok s
     \<and> rdp_reads (\<lambda>ids. ids) 5 s = (Ok (), s\<lparr>s_global := g\<lparr>g_state := DataState\<rparr>, s_mcs := c\<rparr>)"
proof -
  obtain mcs where m: "connector_connect sample_environment sample_connector (sample_stream (confirm_frame ProtocolSSL))
       = Ok \<lparr>s_global = fresh_client sample_connector 6, s_mcs = mcs, s_events = []\<rparr>"
     "joined (\<lambda>ids. ids) 1007 (client_session 6 sample_data_block) mcs (sample_flow @ [])"
    using sample_connects by auto
  let ?s = "\<lparr>s_global = fresh_client sample_connector 6, s_mcs = mcs, s_events = []\<rparr>"
  have "joined (\<lambda>ids. ids) 1007 (client_session 6 sample_data_block) (s_mcs ?s)
      (concat (map (global_indication 0x68 6 0x70) sample_handshake) @ [])"
    using m(2) by (simp add: sample_flow_def)
  from client_activates [OF this] show ?thesis
    using m(1) sample_flow_ready by (fastforce simp: indication_ok_def)
qed

text \<open>
  C6. Input events: an active client sends a pointer or key event as exactly one input PDU with
  the flag bits of the protocol; before that \<open>write\<close> reports that it is not connected while
  \<open>try_write\<close> silently drops the event, and neither sends anything; a bitmap is refused by both.
\<close>

theorem client_input:
  assumes "joined iter u sess (s_mcs s) q"
  shows "case input_on_wire event of
       None \<Rightarrow> rdp_write event s = (Err (rdp_err UnexpectedType), s) \<and> try_write event s = rdp_write event s
     | Some (t, bs) \<Rightarrow> if g_state (s_global s) = DataState
         then \<exists>c'. rdp_write event s = (Ok (), s\<lparr>s_mcs := c'\<rparr>) \<and> try_write event s = rdp_write event s
           \<and> joined iter u sess c' q \<and> mcs_sent c' = mcs_sent (s_mcs s) @ input_frame u (s_global s) t bs
         else rdp_write event s = (Err (rdp_err InvalidAutomata), s) \<and> try_write event s = (Ok (), s)"
proof (cases "input_on_wire event")
  case None
  then show ?thesis using rdp_write_cases [of event s] by (auto simp: try_write_def)
next
  case (Some x)
  obtain t bs where x: "x = (t, bs)" by fastforce
  show ?thesis
  proof (cases "g_state (s_global s) = DataState")
    case True
    then show ?thesis using rdp_write_joined [OF assms _ True, of event t bs] Some x by (auto simp: try_write_def)
  next
    case False
    then show ?thesis using rdp_write_elsewhere [OF False, of event] Some x by (simp add: try_write_def)
  qed
qed

theorem client_input_witness:
  "\<exists>c'. rdp_write (Pointer \<lparr>pe_x = 3, pe_y = 4, pe_button = ButtonLeft, pe_down = True\<rparr>)
       \<lparr>s_global = sample_global\<lparr>g_state := DataState\<rparr>, s_mcs = sample_client [1], s_events = []\<rparr>
     = (Ok (), \<lparr>s_global = sample_global\<lparr>g_state := DataState\<rparr>, s_mcs = c', s_events = []\<rparr>)
     \<and> mcs_sent c' = input_frame 1007 (sample_global\<lparr>g_state := DataState\<rparr>) 0x8001 [0, 0x90, 3, 0, 4, 0]"
  using client_input [of rev 1007 sample_session "\<lparr>s_global = sample_global\<lparr>g_state := DataState\<rparr>, s_mcs = sample_client [1], s_events = []\<rparr>" "[1]"
      "Pointer \<lparr>pe_x = 3, pe_y = 4, pe_button = ButtonLeft, pe_down = True\<rparr>"] sample_joined [of "[1]"]
    low_bytes
  by (auto simp: input_on_wire_def mouse_bits_def sample_client_def sent_def)

text \<open>
  C3. A client that a connection has given is never stuck: after any reads and writes, with
  whatever results and whatever the network delivers, the next read and the next write end
  with success, an error, or the overflow of a length; no index is out of bounds, no field or
  session value is missing, and no loop runs on.
\<close>

theorem client_never_stuck:
  assumes "client_run env c tcp ps s" "m = rdp_read (map_order env) \<or> m = rdp_write event \<or> m = try_write event"
  shows "fst (m s) = Ok () \<or> (\<exists>e. fst (m s) = Err e) \<or> fst (m s) = Panic ArithOverflow"
proof -
  have "mcs_connected (s_mcs s)" using run_connected [OF assms(1)] by blast
  then have "wp m (\<lambda>_ _. True) arith s" using assms(2) wp_rdp_read wp_rdp_write wp_try_write by blast
  then show ?thesis using wp_outcome [of m _ arith s "fst (m s)" "snd (m s)"] by auto
qed

theorem client_never_stuck_witness:
  "\<exists>ps s. client_run sample_environment sample_connector (sample_stream (confirm_frame ProtocolSSL)) ps s
     \<and> (fst (rdp_read (\<lambda>ids. ids) s) = Ok () \<or> (\<exists>e. fst (rdp_read (\<lambda>ids. ids) s) = Err e)
       \<or> fst (rdp_read (\<lambda>ids. ids) s) = Panic ArithOverflow)"
proof -
  obtain ps s t where r: "client_run sample_environment sample_connector (sample_stream (confirm_frame ProtocolSSL)) ps s"
    using sample_run by blast
  then show ?thesis
    using client_never_stuck [OF r, of "rdp_read (\<lambda>ids. ids)"] by (intro exI [of _ ps] exI [of _ s]) (simp add: sample_order)
qed

text \<open>
  C4. No input reaches the server before the handshake: when a write of a client succeeds,
  the payloads that its reads have taken from the global channel contain the demand active,
  synchronize, cooperate, granted control and font map PDUs, in this order.
\<close>

theorem input_after_handshake:
  assumes "client_run env c tcp ps s" "rdp_write event s = (Ok (), t)"
  shows "subseq [SDemandActive, SSynchronize, SControl 4, SControl 2, SFontMap] (kinds ps)"
proof -
  obtain g where g: "g_state g = DemandActivePDU" "global_run g ps (s_global s)" using run_connected [OF assms(1)] by blast
  have "g_state (s_global s) = DataState"
    using rdp_write_elsewhere [of s event] assms(2) by (cases "g_state (s_global s) = DataState") auto
  then show ?thesis using run_received [OF g(2,1)] by simp
qed

theorem input_after_handshake_witness:
  "\<exists>ps s t. client_run sample_environment sample_connector (sample_stream (confirm_frame ProtocolSSL)) ps s
     \<and> rdp_write sample_key s = (Ok (), t)
     \<and> subseq [SDemandActive, SSynchronize, SControl 4, SControl 2, SFontMap] (kinds ps)"
  using sample_run input_after_handshake by blast

end
