(* ===== verification/Mstsc.thy ===== *)
theory Mstsc imports Client begin

section \<open>The window program\<close>

text \<open>
  \<^verbatim>\<open>src/src/bin/mstsc-rs.rs\<close>: the program around the library. One thread reads from the client
  and sends the bitmaps into a channel, the other draws them into the window's buffer and
  turns mouse and keyboard into events; they share the client behind a lock. What the window,
  the command line and the clock say is input: the budget of a frame, the mouse, the keys. The
  operations here are what each thread does when it is not interrupted; \<open>Program\<close> has the command line,
  the start of both threads and their interleaving.
\<close>

subsection \<open>Drawing\<close>

text \<open>The vector of bytes taken as a vector of words, on a little endian machine: an incomplete word is cut off.\<close>

fun transmute_vec :: "u8 list \<Rightarrow> u32 list" where
  "transmute_vec (a # b # c # d # rest) = le_u32 [a, b, c, d] # transmute_vec rest"
| "transmute_vec _ = []"

text \<open>
  The copy between raw pointers is undefined when a range leaves its buffer. Here it is the panic
  of an index out of bounds, which the bounds test before it is shown to rule out.
\<close>

definition copy_nonoverlapping :: "u32 list \<Rightarrow> nat \<Rightarrow> nat \<Rightarrow> nat \<Rightarrow> (u32 list, unit) prog" where
  "copy_nonoverlapping data src dest n = bindp get_state (\<lambda>buffer.
     if src + n \<le> length data \<and> dest + n \<le> length buffer
     then modp (\<lambda>b. take dest b @ take n (drop src data) @ drop (dest + n) b)
     else liftp (Panic OutOfBounds))"

definition transfer_row :: "nat \<Rightarrow> bitmap_event \<Rightarrow> u32 list \<Rightarrow> nat \<Rightarrow> (u32 list, unit) prog" where
  "transfer_row width bitmap data_aligned i = (let
       dest_i = (i + unat (b_dest_top bitmap)) * width + unat (b_dest_left bitmap);
       src_i = i * unat (b_width bitmap) in
     bindp (liftp (subn (unat (b_dest_right bitmap)) (unat (b_dest_left bitmap)))) (\<lambda>d. let count = d + 1 in
     bindp get_state (\<lambda>buffer.
       if dest_i > length buffer \<or> dest_i + count > length buffer \<or> src_i > length data_aligned \<or> src_i + count > length data_aligned
       then failp InvalidSize
       else copy_nonoverlapping data_aligned src_i dest_i count)))"

definition fast_bitmap_transfer :: "nat \<Rightarrow> bitmap_event \<Rightarrow> (u32 list, unit) prog" where
  "fast_bitmap_transfer width bitmap =
     bindp (liftp (decompress bitmap)) (\<lambda>data. let data_aligned = transmute_vec data in
     bindp (liftp (subn (unat (b_dest_bottom bitmap)) (unat (b_dest_top bitmap)))) (\<lambda>d.
     forp [0..<d + 1] (transfer_row width bitmap data_aligned)))"

subsection \<open>Mouse and keyboard\<close>

text \<open>Which buttons the window reports down, in its own names.\<close>

record mouse_buttons =
  left_down :: bool
  middle_down :: bool
  right_down :: bool

definition get_rdp_pointer_down :: "mouse_buttons \<Rightarrow> pointer_button" where
  "get_rdp_pointer_down window = (if left_down window then ButtonLeft
     else if middle_down window then ButtonMiddle
     else if right_down window then ButtonRight else ButtonNone)"

fun pointer_button_code :: "pointer_button \<Rightarrow> u8" where
  "pointer_button_code ButtonNone = 0" | "pointer_button_code ButtonLeft = 1"
| "pointer_button_code ButtonRight = 2" | "pointer_button_code ButtonMiddle = 3"

text \<open>The keys of the window library by the names of their variants.\<close>

type_synonym key = string

definition scancodes :: "(key \<times> u16) list" where
  "scancodes = [
    (''Escape'', 0x0001), (''Key1'', 0x0002), (''Key2'', 0x0003), (''Key3'', 0x0004), (''Key4'', 0x0005),
     (''Key5'', 0x0006), (''Key6'', 0x0007), (''Key7'', 0x0008), (''Key8'', 0x0009), (''Key9'', 0x000A), (''Key0'', 0x000B),
     (''Minus'', 0x000C), (''Equal'', 0x000D), (''Backspace'', 0x000E), (''Tab'', 0x000F), (''Q'', 0x0010), (''W'', 0x0011),
     (''E'', 0x0012), (''R'', 0x0013), (''T'', 0x0014), (''Y'', 0x0015), (''U'', 0x0016), (''I'', 0x0017), (''O'', 0x0018),
     (''P'', 0x0019), (''LeftBracket'', 0x001A), (''RightBracket'', 0x001B), (''Enter'', 0x001C), (''LeftCtrl'', 0x001D),
     (''A'', 0x001E), (''S'', 0x001F), (''D'', 0x0020), (''F'', 0x0021), (''G'', 0x0022), (''H'', 0x0023), (''J'', 0x0024),
     (''K'', 0x0025), (''L'', 0x0026), (''Semicolon'', 0x0027), (''Apostrophe'', 0x0028), (''Backquote'', 0x0029),
     (''LeftShift'', 0x002A), (''Backslash'', 0x002B), (''Z'', 0x002C), (''X'', 0x002D), (''C'', 0x002E), (''V'', 0x002F),
     (''B'', 0x0030), (''N'', 0x0031), (''M'', 0x0032), (''Comma'', 0x0033), (''Period'', 0x0034), (''Slash'', 0x0035),
     (''RightShift'', 0x0036), (''NumPadAsterisk'', 0x0037), (''LeftAlt'', 0x0038), (''Space'', 0x0039),
     (''CapsLock'', 0x003A), (''F1'', 0x003B), (''F2'', 0x003C), (''F3'', 0x003D), (''F4'', 0x003E), (''F5'', 0x003F),
     (''F6'', 0x0040), (''F7'', 0x0041), (''F8'', 0x0042), (''F9'', 0x0043), (''F10'', 0x0044), (''Pause'', 0x0045),
     (''ScrollLock'', 0x0046), (''NumPad7'', 0x0047), (''NumPad8'', 0x0048), (''NumPad9'', 0x0049),
     (''NumPadMinus'', 0x004A), (''NumPad4'', 0x004B), (''NumPad5'', 0x004C), (''NumPad6'', 0x004D),
     (''NumPadPlus'', 0x004E), (''NumPad1'', 0x004F), (''NumPad2'', 0x0050), (''NumPad3'', 0x0051), (''NumPad0'', 0x0052),
     (''NumPadDot'', 0x0053), (''F11'', 0x0057), (''F12'', 0x0058), (''F13'', 0x0064), (''F14'', 0x0065), (''F15'', 0x0066),
     (''NumPadEnter'', 0xE01C), (''RightCtrl'', 0xE01D), (''NumPadSlash'', 0xE035), (''RightAlt'', 0xE038),
     (''NumLock'', 0xE045), (''Home'', 0xE047), (''Up'', 0xE048), (''PageUp'', 0xE049), (''Left'', 0xE04B),
     (''Right'', 0xE04D), (''End'', 0xE04F), (''Down'', 0xE050), (''PageDown'', 0xE051), (''Insert'', 0xE052),
     (''Delete'', 0xE053), (''LeftSuper'', 0xE05B), (''RightSuper'', 0xE05C), (''Menu'', 0xE05D)]"

definition to_scancode :: "key \<Rightarrow> u16 outcome" where
  "to_scancode key = (case map_of scancodes key of Some c \<Rightarrow> Ok c | None \<Rightarrow> Panic ExplicitPanic)"

text \<open>The cast of a coordinate to 16 bits saturates; a position is given by its whole part.\<close>

definition cast_coordinate :: "int \<Rightarrow> u16" where
  "cast_coordinate x = (if x < 0 then 0 else if x > 65535 then 65535 else word_of_int x)"

subsection \<open>The shared state\<close>

text \<open>
  The client behind its lock and whether a panic has poisoned the lock; the channel of bitmaps
  with its sender (the reading thread) and its receiver (the window loop); the flag both loops
  watch; and what is the window loop's own: the buffer, the last button and the last keys.
\<close>

record app =
  a_client :: rdp_client
  a_poisoned :: bool
  a_channel :: "bitmap_event list"
  a_reader :: bool
  a_window :: bool
  a_sync :: bool
  a_buffer :: "u32 list"
  a_last_button :: pointer_button
  a_last_keys :: "key list"

definition app_start :: "rdp_client \<Rightarrow> nat \<Rightarrow> nat \<Rightarrow> app" where
  "app_start client width height = \<lparr>a_client = client, a_poisoned = False, a_channel = [], a_reader = True, a_window = True,
     a_sync = True, a_buffer = replicate (width * height) 0, a_last_button = ButtonNone, a_last_keys = []\<rparr>"

abbreviation on_client :: "(rdp_client, 'a) prog \<Rightarrow> (app, 'a) prog" where
  "on_client \<equiv> zoom a_client (\<lambda>c a. a\<lparr>a_client := c\<rparr>)"

abbreviation on_screen :: "(u32 list, 'a) prog \<Rightarrow> (app, 'a) prog" where
  "on_screen \<equiv> zoom a_buffer (\<lambda>b a. a\<lparr>a_buffer := b\<rparr>)"

subsection \<open>The reading thread\<close>

fun bitmaps_of :: "rdp_event list \<Rightarrow> bitmap_event list" where
  "bitmaps_of [] = []"
| "bitmaps_of (Bitmap b # es) = b # bitmaps_of es"
| "bitmaps_of (e # es) = bitmaps_of es"

text \<open>
  One round of the thread, given whether the socket is ready: the events of the read go to the
  channel. Only an error of the protocol ends the loop; a panic ends the thread and poisons the
  lock, and so does a bitmap that nobody receives.
\<close>

definition rdp_thread_round :: "id_order \<Rightarrow> bool \<Rightarrow> app \<Rightarrow> app" where
  "rdp_thread_round iter ready a =
     (if \<not> a_reader a then a
      else if \<not> (ready \<and> a_sync a) then a\<lparr>a_reader := False\<rparr>
      else if a_poisoned a then a\<lparr>a_reader := False\<rparr>
      else case rdp_read iter (a_client a) of (r, c) \<Rightarrow>
        let bitmaps = bitmaps_of (drop (length (s_events (a_client a))) (s_events c)) in
        if bitmaps \<noteq> [] \<and> \<not> a_window a then a\<lparr>a_client := c, a_reader := False, a_poisoned := True\<rparr>
        else let b = a\<lparr>a_client := c, a_channel := a_channel a @ bitmaps\<rparr> in
          (case r of Err (RdpError e) \<Rightarrow> b\<lparr>a_reader := False\<rparr>
           | Panic p \<Rightarrow> b\<lparr>a_reader := False, a_poisoned := True\<rparr> | _ \<Rightarrow> b))"

subsection \<open>The window loop\<close>

text \<open>What the window and the clock give to one frame.\<close>

record frame =
  f_budget :: nat
  f_position :: "(int \<times> int) option"
  f_buttons :: mouse_buttons
  f_keys :: "key list option"
  f_pressed :: "key \<Rightarrow> bool"
  f_updated :: bool

text \<open>One \<open>try_recv\<close>, and whether the loop goes on with the next one.\<close>

definition gui_receive :: "nat \<Rightarrow> (app, bool) prog" where
  "gui_receive width = bindp get_state (\<lambda>a. case a_channel a of
       bitmap # rest \<Rightarrow> bindp (modp (\<lambda>a. a\<lparr>a_channel := rest\<rparr>)) (\<lambda>_.
         bindp (on_screen (fast_bitmap_transfer width bitmap)) (\<lambda>_. retp True))
     | [] \<Rightarrow> if a_reader a then retp False
         else bindp (modp (\<lambda>a. a\<lparr>a_sync := False\<rparr>)) (\<lambda>_. retp False))"

primrec gui_drain :: "nat \<Rightarrow> nat \<Rightarrow> (app, unit) prog" where
  "gui_drain width 0 = retp ()"
| "gui_drain width (Suc n) = bindp (gui_receive width) (\<lambda>next_one. if next_one then gui_drain width n else retp ())"

definition mouse_button :: "pointer_button \<Rightarrow> pointer_button \<Rightarrow> pointer_button outcome" where
  "mouse_button last_button current_button = (if last_button = current_button then Ok ButtonNone
     else unwrap (pointer_button_of (pointer_button_code last_button OR pointer_button_code current_button)))"

definition gui_mouse :: "frame \<Rightarrow> (app, unit) prog" where
  "gui_mouse f = (case f_position f of
       None \<Rightarrow> retp ()
     | Some (x, y) \<Rightarrow> bindp get_state (\<lambda>a. if a_poisoned a then failp Unknown else
         let last_button = a_last_button a; current_button = get_rdp_pointer_down (f_buttons f) in
         bindp (liftp (mouse_button last_button current_button)) (\<lambda>button.
         bindp (on_client (rdp_write (Pointer \<lparr>pe_x = cast_coordinate x, pe_y = cast_coordinate y, pe_button = button,
           pe_down = (last_button \<noteq> current_button) \<and> last_button = ButtonNone\<rparr>))) (\<lambda>_.
         modp (\<lambda>a. a\<lparr>a_last_button := current_button\<rparr>)))))"

primrec send_keys :: "bool \<Rightarrow> key list \<Rightarrow> (app, unit) prog" where
  "send_keys down [] = retp ()"
| "send_keys down (k # ks) = bindp (liftp (to_scancode k)) (\<lambda>code.
     bindp (on_client (rdp_write (Key \<lparr>ke_code = code, ke_down = down\<rparr>))) (\<lambda>_. send_keys down ks))"

definition gui_keyboard :: "frame \<Rightarrow> (app, unit) prog" where
  "gui_keyboard f = (case f_keys f of
       None \<Rightarrow> retp ()
     | Some keys \<Rightarrow> bindp get_state (\<lambda>a. if a_poisoned a then liftp (Panic UnwrapFailed) else
         bindp (send_keys False (filter (\<lambda>k. k \<notin> set keys) (a_last_keys a))) (\<lambda>_.
         bindp (send_keys True (filter (f_pressed f) keys)) (\<lambda>_.
         modp (\<lambda>a. a\<lparr>a_last_keys := keys\<rparr>)))))"

definition gui_update :: "frame \<Rightarrow> (app, unit) prog" where
  "gui_update f = (if f_updated f then retp () else failp Unknown)"

definition gui_frame :: "nat \<Rightarrow> frame \<Rightarrow> (app, unit) prog" where
  "gui_frame width f = bindp (gui_drain width (f_budget f)) (\<lambda>_. bindp (gui_mouse f) (\<lambda>_. bindp (gui_keyboard f) (\<lambda>_.
     gui_update f)))"

text \<open>
  The end of the loop: the flag goes down, then the client is closed under its lock and the
  receiver of the channel goes with the function.
\<close>

definition gui_shutdown :: "(app, unit) prog" where
  "gui_shutdown = bindp get_state (\<lambda>a. if a_poisoned a then liftp (Panic UnwrapFailed) else
     bindp (on_client rdp_shutdown) (\<lambda>_. modp (\<lambda>a. a\<lparr>a_window := False\<rparr>)))"

definition gui_close :: "(app, unit) prog" where
  "gui_close = bindp (modp (\<lambda>a. a\<lparr>a_sync := False\<rparr>)) (\<lambda>_. gui_shutdown)"

text \<open>The loop over the frames until the window is closed or the flag is down.\<close>

primrec main_gui_loop :: "nat \<Rightarrow> frame list \<Rightarrow> (app, unit) prog" where
  "main_gui_loop width [] = gui_close"
| "main_gui_loop width (f # fs) = bindp (getp a_sync) (\<lambda>sync.
     if sync then bindp (gui_frame width f) (\<lambda>_. main_gui_loop width fs) else gui_close)"

subsection \<open>The command line\<close>

text \<open>The parsed arguments: the value of an option and the presence of a switch.\<close>

record arg_matches =
  value_of :: "string \<Rightarrow> rstring option"
  is_present :: "string \<Rightarrow> bool"

text \<open>The standard library's parser of an unsigned number: an optional plus sign and digits without overflow.\<close>

fun parse_digits :: "nat \<Rightarrow> nat \<Rightarrow> rstring \<Rightarrow> nat option" where
  "parse_digits limit n [] = Some n"
| "parse_digits limit n (c # cs) = (if 0x30 \<le> c \<and> c \<le> 0x39
     then (let m = 10 * n + (c - 0x30) in if m < limit then parse_digits limit m cs else None) else None)"

definition parse_unsigned :: "nat \<Rightarrow> rstring \<Rightarrow> nat option" where
  "parse_unsigned limit s = (let ds = (case s of c # cs \<Rightarrow> if c = 0x2B then cs else s | [] \<Rightarrow> []) in
     if ds = [] then None else parse_digits limit 0 ds)"

definition arg_u16 :: "arg_matches \<Rightarrow> string \<Rightarrow> u16 outcome" where
  "arg_u16 args name = (case parse_unsigned (2 ^ 16) (unwrap_or (value_of args name) []) of
       Some n \<Rightarrow> Ok (of_nat n) | None \<Rightarrow> Err (rdp_err UnexpectedType))"

definition connector_from_args :: "(rstring \<Rightarrow> u8 list option) \<Rightarrow> arg_matches \<Rightarrow> connector outcome" where
  "connector_from_args hex_decode args =
     bindo (arg_u16 args ''width'') (\<lambda>width. bindo (arg_u16 args ''height'') (\<lambda>height.
     let text = (\<lambda>name. unwrap_or (value_of args name) []);
       rdp_connector = use_nla (\<not> is_present args ''disable_nla'') (set_name (text ''name'')
         (check_certificate (is_present args ''check_certificate'') (layout (keyboard_layout_from (text ''layout''))
         (blank_creds (is_present args ''blank_creds'') (auto_logon (is_present args ''auto_logon'')
         (set_restricted_admin_mode (is_present args ''admin'') (credentials (text ''domain'') (text ''username'') (text ''password'')
         (screen width height connector_new)))))))) in
     case value_of args ''hash'' of
       None \<Rightarrow> Ok rdp_connector
     | Some hash \<Rightarrow> (case hex_decode hash of
         None \<Rightarrow> Err (rdp_err InvalidData) | Some bs \<Rightarrow> Ok (set_password_hash bs rdp_connector))))"

definition rdp_from_args :: "environment \<Rightarrow> (rstring \<Rightarrow> u8 list option) \<Rightarrow> arg_matches \<Rightarrow> io \<Rightarrow> rdp_client outcome" where
  "rdp_from_args env hex_decode args stream = bindo (connector_from_args hex_decode args) (\<lambda>c. connector_connect env c stream)"

end
