(* ===== verification/Mstsc_Laws.thy ===== *)
theory Mstsc_Laws imports Mstsc Client_Laws begin

section \<open>What the window program guarantees\<close>

text \<open>
  The unsafe copy stays in its buffers and draws exactly the rectangle of the event; the bitmaps
  reach the buffer in the order in which the client delivered them, however the two threads
  interleave; what a frame sends for the mouse; and how the reading thread takes the end of
  the connection.
\<close>

subsection \<open>Drawing a bitmap\<close>

lemma transmute_length: "length (transmute_vec bs) = length bs div 4"
  by (induction bs rule: transmute_vec.induct) auto

definition draw_row :: "nat \<Rightarrow> bitmap_event \<Rightarrow> u32 list \<Rightarrow> nat \<Rightarrow> u32 list \<Rightarrow> u32 list" where
  "draw_row width e px i b = (let dest = (i + unat (b_dest_top e)) * width + unat (b_dest_left e);
     n = unat (b_dest_right e) - unat (b_dest_left e) + 1 in
     take dest b @ take n (drop (i * unat (b_width e)) px) @ drop (dest + n) b)"

definition row_fits :: "nat \<Rightarrow> bitmap_event \<Rightarrow> u32 list \<Rightarrow> nat \<Rightarrow> nat \<Rightarrow> bool" where
  "row_fits width e px m i \<longleftrightarrow> (i + unat (b_dest_top e)) * width + unat (b_dest_right e) < m
     \<and> i * unat (b_width e) + (unat (b_dest_right e) - unat (b_dest_left e)) < length px"

lemma transfer_row_run:
  assumes "b_dest_left e \<le> b_dest_right e"
  shows "transfer_row width e px i b = (if row_fits width e px (length b) i then (Ok (), draw_row width e px i b)
     else (Err (rdp_err InvalidSize), b))"
  using assms by (auto simp: transfer_row_def copy_nonoverlapping_def row_fits_def draw_row_def Let_def bindp_def liftp_def subn_def
      get_state_def failp_def modp_def word_le_nat_alt)

lemma splice:
  assumes "s + n \<le> length px" "d + n \<le> length b"
  shows "length (take d b @ take n (drop s px) @ drop (d + n) b) = length b"
    and "p < length b \<Longrightarrow> (take d b @ take n (drop s px) @ drop (d + n) b) ! p = (if d \<le> p \<and> p < d + n then px ! (s + (p - d)) else b ! p)"
  using assms by (auto simp: nth_append)

lemma draw_row_length: "row_fits width e px (length b) i \<Longrightarrow> b_dest_left e \<le> b_dest_right e \<Longrightarrow> length (draw_row width e px i b) = length b"
  unfolding draw_row_def row_fits_def Let_def word_le_nat_alt by (rule splice) auto

text \<open>A row changes the pixels of its line between the left and the right edge.\<close>

lemma row_position:
  assumes "l \<le> r" "r < width"
  shows "k * width + l \<le> p \<and> p < k * width + l + (r - l + 1) \<longleftrightarrow> p div width = k \<and> l \<le> p mod width \<and> p mod width \<le> (r :: nat)"
proof
  assume a: "k * width + l \<le> p \<and> p < k * width + l + (r - l + 1)"
  then have "p = k * width + (p - k * width)" "p - k * width < width" "l \<le> p - k * width" "p - k * width \<le> r" using assms by auto
  then show "p div width = k \<and> l \<le> p mod width \<and> p mod width \<le> r"
    by (metis Euclidean_Rings.div_eq_0_iff add.right_neutral div_mult_self3 mod_less mod_mult_self3 gr_implies_not0)
next
  assume a: "p div width = k \<and> l \<le> p mod width \<and> p mod width \<le> r"
  have "p = p div width * width + p mod width" by simp
  then show "k * width + l \<le> p \<and> p < k * width + l + (r - l + 1)" using a by auto
qed

lemma draw_row_nth:
  assumes "row_fits width e px (length b) i" "b_dest_left e \<le> b_dest_right e" "p < length b" "unat (b_dest_right e) < width"
  shows "draw_row width e px i b ! p = (if p div width = i + unat (b_dest_top e) \<and> unat (b_dest_left e) \<le> p mod width \<and> p mod width \<le> unat (b_dest_right e)
     then px ! (i * unat (b_width e) + (p mod width - unat (b_dest_left e))) else b ! p)"
proof -
  let ?l = "unat (b_dest_left e)" and ?r = "unat (b_dest_right e)"
  have lr: "?l \<le> ?r" using assms(2) by (simp add: word_le_nat_alt)
  have *: "draw_row width e px i b ! p = (if (i + unat (b_dest_top e)) * width + ?l \<le> p \<and> p < (i + unat (b_dest_top e)) * width + ?l + (?r - ?l + 1)
     then px ! (i * unat (b_width e) + (p - ((i + unat (b_dest_top e)) * width + ?l))) else b ! p)"
    unfolding draw_row_def Let_def by (rule splice(2)) (use assms(1,3) lr in \<open>auto simp: row_fits_def\<close>)
  have "p - ((i + unat (b_dest_top e)) * width + ?l) = p mod width - ?l" if "p div width = i + unat (b_dest_top e)"
    using that by (metis add_diff_cancel_left' diff_diff_left div_mult_mod_eq)
  then show ?thesis unfolding * row_position [OF lr assms(4)] by auto
qed

subsection \<open>Drawing all rows\<close>

lemma forp_snoc: "forp (is @ [i]) f = bindp (forp is f) (\<lambda>_. f i)"
proof (induction "is")
  case Nil
  show ?case by (rule ext) (simp add: bindp_def retp_def split: prod.split outcome.split)
next
  case (Cons a "is")
  have "forp ((a # is) @ [i]) f = bindp (f a) (\<lambda>_. bindp (forp is f) (\<lambda>_. f i))" using Cons by simp
  then show ?case by (simp only: forp.simps bindp_assoc)
qed

lemma fits_below: "row_fits width e px m i \<Longrightarrow> j \<le> i \<Longrightarrow> row_fits width e px m j"
  using mult_le_mono1 [of "j + unat (b_dest_top e)" "i + unat (b_dest_top e)" width] mult_le_mono1 [of j i "unat (b_width e)"]
  unfolding row_fits_def by linarith

definition draw_rows :: "nat \<Rightarrow> bitmap_event \<Rightarrow> u32 list \<Rightarrow> nat \<Rightarrow> u32 list \<Rightarrow> u32 list" where
  "draw_rows width e px k b = fold (draw_row width e px) [0..<k] b"

lemma draw_rows_run:
  assumes "b_dest_left e \<le> b_dest_right e"
  shows "if \<forall>i < k. row_fits width e px (length b) i
    then forp [0..<k] (transfer_row width e px) b = (Ok (), draw_rows width e px k b) \<and> length (draw_rows width e px k b) = length b
    else \<exists>c. forp [0..<k] (transfer_row width e px) b = (Err (rdp_err InvalidSize), c) \<and> length c = length b"
proof (induction k)
  case (Suc k)
  show ?case
  proof (cases "\<forall>i < k. row_fits width e px (length b) i")
    case True
    then have IH: "forp [0..<k] (transfer_row width e px) b = (Ok (), draw_rows width e px k b)" "length (draw_rows width e px k b) = length b"
      using Suc by auto
    then show ?thesis using True transfer_row_run [OF assms, of width px k "draw_rows width e px k b"]
        draw_row_length [OF _ assms, of width px "draw_rows width e px k b" k]
      by (auto simp: forp_snoc bindp_def draw_rows_def less_Suc_eq)
  next
    case False
    then have "\<not> (\<forall>i < Suc k. row_fits width e px (length b) i)" by (meson less_SucI)
    then show ?thesis using Suc False by (auto simp: forp_snoc bindp_def)
  qed
qed (simp add: draw_rows_def retp_def)

lemma draw_rows_nth:
  assumes "b_dest_left e \<le> b_dest_right e" "unat (b_dest_right e) < width" "p < length b" "\<forall>i < k. row_fits width e px (length b) i"
  shows "draw_rows width e px k b ! p = (if unat (b_dest_top e) \<le> p div width \<and> p div width < unat (b_dest_top e) + k
       \<and> unat (b_dest_left e) \<le> p mod width \<and> p mod width \<le> unat (b_dest_right e)
     then px ! ((p div width - unat (b_dest_top e)) * unat (b_width e) + (p mod width - unat (b_dest_left e))) else b ! p)"
  using assms(4)
proof (induction k)
  case (Suc k)
  have l: "length (draw_rows width e px k b) = length b"
    using draw_rows_run [OF assms(1), of k width px b] Suc.prems by auto
  have "draw_rows width e px (Suc k) b ! p = draw_row width e px k (draw_rows width e px k b) ! p"
    by (simp add: draw_rows_def)
  also have "\<dots> = (if p div width = k + unat (b_dest_top e) \<and> unat (b_dest_left e) \<le> p mod width \<and> p mod width \<le> unat (b_dest_right e)
     then px ! (k * unat (b_width e) + (p mod width - unat (b_dest_left e))) else draw_rows width e px k b ! p)"
    by (rule draw_row_nth) (use assms Suc.prems l in auto)
  finally show ?case using Suc.IH Suc.prems by auto
qed (auto simp: draw_rows_def)

lemma transfer_run:
  assumes "decompress e = Ok data" "b_dest_top e \<le> b_dest_bottom e" "b_dest_left e \<le> b_dest_right e"
    and "n = unat (b_dest_bottom e) - unat (b_dest_top e)" "px = transmute_vec data"
  shows "if row_fits width e px (length b) n
    then fast_bitmap_transfer width e b = (Ok (), draw_rows width e px (Suc n) b) \<and> length (draw_rows width e px (Suc n) b) = length b
    else \<exists>c. fast_bitmap_transfer width e b = (Err (rdp_err InvalidSize), c) \<and> length c = length b"
proof -
  have "fast_bitmap_transfer width e b = forp [0..<Suc n] (transfer_row width e px) b"
    using assms by (simp del: upt_Suc add: fast_bitmap_transfer_def Let_def word_le_nat_alt subn_def bindp_def liftp_def)
  moreover have "(\<forall>i < Suc n. row_fits width e px (length b) i) \<longleftrightarrow> row_fits width e px (length b) n"
    using fits_below [of width e px "length b" n] by auto
  ultimately show ?thesis using draw_rows_run [OF assms(3), where k = "Suc n"] by (simp del: upt_Suc)
qed

text \<open>A rectangle that is turned around panics before or at its first row.\<close>

lemma transfer_turned:
  assumes "decompress e = Ok data" "b_dest_bottom e < b_dest_top e \<or> b_dest_right e < b_dest_left e"
  shows "fast_bitmap_transfer width e b = (Panic ArithOverflow, b)"
proof -
  have row: "transfer_row width e px i b = (Panic ArithOverflow, b)" if "b_dest_right e < b_dest_left e" for px i
    using that by (simp add: transfer_row_def Let_def subn_def bindp_def liftp_def word_less_nat_alt)
  have zero: "[0..<Suc n] = 0 # [1..<Suc n]" for n by (simp add: upt_conv_Cons)
  show ?thesis
    using assms by (auto simp: fast_bitmap_transfer_def Let_def word_le_nat_alt word_less_nat_alt subn_def bindp_def liftp_def zero row
        simp del: upt_Suc)
qed

subsection \<open>What the client delivers\<close>

text \<open>A program that only adds to a list of its state.\<close>

definition adds :: "('s \<Rightarrow> 'e list) \<Rightarrow> ('s, 'a) prog \<Rightarrow> bool" where
  "adds v m \<longleftrightarrow> (\<forall>s. \<exists>cs. v (snd (m s)) = v s @ cs)"

lemma adds_bindp:
  assumes "adds v m" "\<And>a. adds v (f a)"
  shows "adds v (bindp m f)"
  unfolding adds_def
proof
  fix s
  obtain r t where t: "m s = (r, t)" by fastforce
  obtain cs where cs: "v t = v s @ cs" using assms(1) t by (metis adds_def snd_conv)
  have "\<exists>ds. v (snd (f a t)) = v t @ ds" for a using assms(2) by (simp add: adds_def)
  then have "\<exists>ds. v (snd (f a t)) = v s @ cs @ ds" for a using cs by (metis append_assoc)
  then show "\<exists>cs. v (snd (bindp m f s)) = v s @ cs" using t cs by (cases r) (auto simp: bindp_def)
qed

lemma adds_keeps: "keeps v m \<Longrightarrow> adds v m"
  by (simp add: keeps_def adds_def)

lemma adds_basic: "adds v (retp a)" "adds v (liftp r)" "adds v (failp e)" "adds v (getp g)"
  by (auto intro: adds_keeps keeps_basic)

lemma adds_event: "adds (\<lambda>es. es) (modp (\<lambda>es. es @ [x]))"
  by (simp add: adds_def modp_def)

lemma adds_read_fast_path: "adds (\<lambda>es. es) (read_fast_path bs)"
proof -
  have emit: "adds (\<lambda>es. es) (emit_bitmaps rs)" for rs
    by (induction rs) (auto intro!: adds_bindp adds_event adds_basic)
  have "adds (\<lambda>es. es) (handle_updates ms)" for ms
    by (induction ms) (auto intro!: adds_bindp emit adds_basic split: option.split)
  then show ?thesis unfolding read_fast_path_def by (auto intro!: adds_bindp adds_basic)
qed

lemma bitmaps_append: "bitmaps_of (es @ cs) = bitmaps_of es @ bitmaps_of cs"
  by (induction es rule: bitmaps_of.induct) auto

lemma rdp_read_events: "\<exists>cs. s_events (snd (rdp_read iter s)) = s_events s @ cs"
proof -
  have other: "adds s_events (on_global m)" "adds s_events (on_mcs k)" for m :: "(global_client, 'x) prog" and k :: "(mcs_client, 'y) prog"
    by (auto intro!: adds_keeps keeps_zoom)
  have events: "adds s_events (on_events (read_fast_path bs))" for bs
    using adds_read_fast_path [of bs] by (simp add: adds_def zoom_def case_prod_beta)
  have goto: "adds s_events (goto_if b st)" for b st
    unfolding goto_if_def by (auto intro!: other adds_basic)
  have "adds s_events (global_read p)" for p
    unfolding global_read_def
    by (auto intro!: adds_bindp other adds_basic events goto split: client_state.split payload.split)
  then have "adds s_events (rdp_read iter)"
    unfolding rdp_read_def by (auto intro!: adds_bindp other adds_basic)
  then show ?thesis by (simp add: adds_def)
qed

subsection \<open>Two threads\<close>

text \<open>
  The steps of both threads in any order, while the window is open and its own steps succeed.
  The window's steps of one frame come in a fixed order in the program; any order is allowed here.
\<close>

inductive app_run :: "id_order \<Rightarrow> nat \<Rightarrow> app \<Rightarrow> app \<Rightarrow> bool" for iter width start where
  begin_run: "app_run iter width start start"
| thread_step: "app_run iter width start a \<Longrightarrow> app_run iter width start (rdp_thread_round iter ready a)"
| receive_step: "app_run iter width start a \<Longrightarrow> gui_receive width a = (Ok cont, b) \<Longrightarrow> app_run iter width start b"
| mouse_step: "app_run iter width start a \<Longrightarrow> gui_mouse f a = (Ok (), b) \<Longrightarrow> app_run iter width start b"
| keyboard_step: "app_run iter width start a \<Longrightarrow> gui_keyboard f a = (Ok (), b) \<Longrightarrow> app_run iter width start b"

text \<open>A frame of the window loop is such a run.\<close>

lemma drain_run: "app_run iter width start a \<Longrightarrow> gui_drain width n a = (Ok (), b) \<Longrightarrow> app_run iter width start b"
proof (induction n arbitrary: a)
  case (Suc n)
  then obtain cont c where "gui_receive width a = (Ok cont, c)" "(if cont then gui_drain width n else retp ()) c = (Ok (), b)"
    by (auto simp: bindp_eq_Ok)
  then show ?case using Suc.IH [of c] Suc.prems(1) app_run.receive_step [OF Suc.prems(1)] by (cases cont) (auto simp: retp_def)
qed (simp add: retp_def)

lemma frame_run:
  assumes "app_run iter width start a" "gui_frame width f a = (Ok (), b)"
  shows "app_run iter width start b"
proof -
  obtain c d where "gui_drain width (f_budget f) a = (Ok (), c)" "gui_mouse f c = (Ok (), d)" "gui_keyboard f d = (Ok (), b)"
    using assms(2) by (auto simp: gui_frame_def gui_update_def bindp_eq_Ok retp_def failp_def split: if_splits)
  then show ?thesis using assms(1) drain_run mouse_step keyboard_step by blast
qed

primrec draw_all :: "nat \<Rightarrow> bitmap_event list \<Rightarrow> (u32 list, unit) prog" where
  "draw_all width [] = retp ()"
| "draw_all width (e # es) = bindp (fast_bitmap_transfer width e) (\<lambda>_. draw_all width es)"

lemma draw_all_snoc:
  "draw_all width es b = (Ok (), c) \<Longrightarrow> fast_bitmap_transfer width e c = (Ok (), d) \<Longrightarrow> draw_all width (es @ [e]) b = (Ok (), d)"
  by (induction es arbitrary: b) (auto simp: bindp_eq_Ok retp_def)

text \<open>What has been drawn, what is in the channel, and what the client has delivered.\<close>

definition in_step :: "nat \<Rightarrow> u32 list \<Rightarrow> app \<Rightarrow> bool" where
  "in_step width blank a \<longleftrightarrow> a_window a \<and> (\<exists>drawn. drawn @ a_channel a = bitmaps_of (s_events (a_client a))
     \<and> draw_all width drawn blank = (Ok (), a_buffer a))"

lemma keeps_view_send: "keeps (\<lambda>a. (s_events (a_client a), a_window a, a_channel a, a_buffer a)) (on_client (rdp_write e))"
proof -
  have "keeps s_events (rdp_write e)"
    unfolding rdp_write_def by (auto intro!: keeps_intros keeps_zoom split: rdp_event.split)
  then show ?thesis by (rule keeps_zoom_part) simp
qed

lemma keeps_view_input:
  "keeps (\<lambda>a. (s_events (a_client a), a_window a, a_channel a, a_buffer a)) (gui_mouse f)"
  "keeps (\<lambda>a. (s_events (a_client a), a_window a, a_channel a, a_buffer a)) (gui_keyboard f)"
proof -
  have keys: "keeps (\<lambda>a. (s_events (a_client a), a_window a, a_channel a, a_buffer a)) (send_keys down ks)" for down ks
    by (induction ks) (auto intro!: keeps_intros keeps_view_send)
  show "keeps (\<lambda>a. (s_events (a_client a), a_window a, a_channel a, a_buffer a)) (gui_mouse f)"
    unfolding gui_mouse_def Let_def by (auto intro!: keeps_intros keeps_view_send keeps_modp split: option.split)
  show "keeps (\<lambda>a. (s_events (a_client a), a_window a, a_channel a, a_buffer a)) (gui_keyboard f)"
    unfolding gui_keyboard_def by (auto intro!: keeps_intros keys keeps_modp split: option.split)
qed

lemma in_step_view:
  "keeps (\<lambda>a. (s_events (a_client a), a_window a, a_channel a, a_buffer a)) m \<Longrightarrow> in_step width blank a \<Longrightarrow> m a = (r, b) \<Longrightarrow> in_step width blank b"
  using keepsD [of "\<lambda>a. (s_events (a_client a), a_window a, a_channel a, a_buffer a)" m a r b] by (simp add: in_step_def)

lemma in_step_receive:
  assumes "in_step width blank a" "gui_receive width a = (Ok cont, b)"
  shows "in_step width blank b"
proof (cases "a_channel a")
  case Nil
  then show ?thesis using assms by (auto simp: gui_receive_def bindp_def get_state_def modp_def retp_def in_step_def split: if_splits)
next
  case (Cons e rest)
  then obtain buffer where t: "fast_bitmap_transfer width e (a_buffer a) = (Ok (), buffer)"
      "b = a\<lparr>a_channel := rest, a_buffer := buffer\<rparr>"
    using assms(2) by (auto simp: gui_receive_def bindp_eq_Ok get_state_def modp_def retp_def zoom_Ok)
  obtain drawn where d: "drawn @ a_channel a = bitmaps_of (s_events (a_client a))" "draw_all width drawn blank = (Ok (), a_buffer a)" "a_window a"
    using assms(1) by (auto simp: in_step_def)
  have "draw_all width (drawn @ [e]) blank = (Ok (), buffer)" using draw_all_snoc [OF d(2) t(1)] .
  then show ?thesis using d Cons t(2) by (auto simp: in_step_def intro!: exI [of _ "drawn @ [e]"])
qed

lemma in_step_thread:
  assumes "in_step width blank a"
  shows "in_step width blank (rdp_thread_round iter ready a)"
proof -
  obtain r c where c: "rdp_read iter (a_client a) = (r, c)" by fastforce
  obtain cs where cs: "s_events c = s_events (a_client a) @ cs" using rdp_read_events [of iter "a_client a"] c by auto
  obtain drawn where d: "drawn @ a_channel a = bitmaps_of (s_events (a_client a))" "draw_all width drawn blank = (Ok (), a_buffer a)" "a_window a"
    using assms by (auto simp: in_step_def)
  have "in_step width blank (a\<lparr>a_client := c, a_channel := a_channel a @ bitmaps_of cs\<rparr>)"
    using d by (auto simp: in_step_def cs bitmaps_append intro!: exI [of _ drawn])
  moreover have "in_step width blank (b\<lparr>a_reader := x, a_poisoned := y\<rparr>) = in_step width blank b" "in_step width blank (b\<lparr>a_reader := x\<rparr>) = in_step width blank b" for b x y
    by (simp_all add: in_step_def)
  ultimately show ?thesis
    using assms c cs d(3) by (auto simp: rdp_thread_round_def Let_def split: outcome.split error.split)
qed

lemma run_in_step: "app_run iter width start a \<Longrightarrow> in_step width blank start \<Longrightarrow> in_step width blank a"
proof (induction rule: app_run.induct)
  case (mouse_step a f b)
  then show ?case using in_step_view [OF keeps_view_input(1)] by blast
next
  case (keyboard_step a f b)
  then show ?case using in_step_view [OF keeps_view_input(2)] by blast
qed (simp_all add: in_step_thread in_step_receive)

subsection \<open>The mouse\<close>

text \<open>The button and the direction that a change of the pressed button is sent as.\<close>

definition button_change :: "pointer_button \<Rightarrow> pointer_button \<Rightarrow> pointer_button \<times> bool" where
  "button_change last_button current_button = (if last_button = current_button then (ButtonNone, False)
     else if last_button = ButtonNone then (current_button, True)
     else if current_button = ButtonNone then (last_button, False)
     else (ButtonMiddle, False))"

lemma mouse_button_change:
  "mouse_button last_button current_button = Ok (fst (button_change last_button current_button))"
  "snd (button_change last_button current_button) \<longleftrightarrow> last_button \<noteq> current_button \<and> last_button = ButtonNone"
  by (cases last_button; cases current_button; simp add: mouse_button_def button_change_def pointer_button_of_def)+

subsection \<open>The keyboard\<close>

text \<open>Different keys have different scan codes, and every key of the table has one.\<close>

lemma scancodes_distinct: "distinct (map fst scancodes)" "distinct (map snd scancodes)"
  by (simp_all add: scancodes_def)

lemma to_scancode_inj:
  assumes "to_scancode k = Ok c" "to_scancode l = Ok c"
  shows "k = l"
proof -
  have "(k, c) \<in> set scancodes" "(l, c) \<in> set scancodes"
    using assms by (auto simp: to_scancode_def dest: map_of_SomeD split: option.splits)
  then show ?thesis using scancodes_distinct(2) by (metis distinct_map inj_onD prod.inject snd_conv)
qed

subsection \<open>The end of the connection\<close>

lemma closed_read:
  assumes "rx (stream_io (x_transport (m_x224 (s_mcs s)))) = []"
  shows "rdp_read iter s = (Err (Io UnexpectedEof), s)"
proof -
  let ?t = "x_transport (m_x224 (s_mcs s))"
  have same: "(stream_io ?t)\<lparr>rx := []\<rparr> = stream_io ?t" using assms by (cases "stream_io ?t") simp
  have "tpkt_read ?t = (Err (Io UnexpectedEof), ?t)"
    using assms by (simp add: same tpkt_read_def tpkt_read_over_def bindp_def link_read_def stream_read_exact_def zoom_def)
  then show ?thesis
    by (simp add: rdp_read_def mcs_read_def x224_read_def bindp_def zoom_def)
qed

text \<open>A picture and a client, for the examples.\<close>

definition sample_tile :: bitmap_event where
  "sample_tile = \<lparr>b_dest_left = 1, b_dest_top = 0, b_dest_right = 2, b_dest_bottom = 1, b_width = 2, b_height = 2, b_bpp = 32,
     b_is_compress = False, b_data = [4, 3, 2, 1, 7, 0, 0, 0, 6, 0, 0, 0, 8, 0, 0, 0]\<rparr>"

definition closed_client :: "u8 list \<Rightarrow> rdp_client" where
  "closed_client out = \<lparr>s_global = sample_global, s_mcs = (sample_client [1])\<lparr>m_x224 :=
     \<lparr>x_transport = Raw \<lparr>rx = [], tx = out, writes = []\<rparr>, x_selected = ProtocolSSL\<rparr>\<rparr>, s_events = []\<rparr>"

subsection \<open>Properties\<close>

text \<open>
  C7. Drawing a bitmap whose right edge is inside the window: either exactly the pixels of its
  rectangle are replaced by the decoded ones, row by row, or the result is an error or a panic of the
  subtraction of a rectangle that is turned around; it is drawn exactly when its last row fits in
  both buffers. The unsafe copy never leaves them, and the window's buffer keeps its size.
\<close>

theorem bitmap_drawn:
  assumes "decompress e = Ok data" "unat (b_dest_right e) < width"
    and "rows = unat (b_dest_bottom e) - unat (b_dest_top e)" "columns = unat (b_dest_right e) - unat (b_dest_left e)"
    and "fast_bitmap_transfer width e b = (r, c)"
  shows "length c = length b \<and> r = (if b_dest_bottom e < b_dest_top e \<or> b_dest_right e < b_dest_left e then Panic ArithOverflow
       else if unat (b_dest_bottom e) * width + unat (b_dest_right e) < length b \<and> rows * unat (b_width e) + columns < length data div 4
       then Ok () else Err (rdp_err InvalidSize))
     \<and> (r = Ok () \<longrightarrow> (\<forall>p < length b. let y = p div width; x = p mod width in
       c ! p = (if unat (b_dest_top e) \<le> y \<and> y \<le> unat (b_dest_bottom e) \<and> unat (b_dest_left e) \<le> x \<and> x \<le> unat (b_dest_right e)
         then transmute_vec data ! ((y - unat (b_dest_top e)) * unat (b_width e) + (x - unat (b_dest_left e))) else b ! p)))"
proof (cases "b_dest_bottom e < b_dest_top e \<or> b_dest_right e < b_dest_left e")
  case True
  then show ?thesis using transfer_turned [OF assms(1), of width b] assms(5) by auto
next
  case False
  then have le: "b_dest_top e \<le> b_dest_bottom e" "b_dest_left e \<le> b_dest_right e" by auto
  have top: "rows + unat (b_dest_top e) = unat (b_dest_bottom e)" using le(1) assms(3) by (simp add: word_le_nat_alt)
  let ?px = "transmute_vec data"
  have fits: "row_fits width e ?px (length b) rows \<longleftrightarrow>
      unat (b_dest_bottom e) * width + unat (b_dest_right e) < length b \<and> rows * unat (b_width e) + columns < length data div 4"
    by (simp add: row_fits_def top transmute_length assms(4))
  have run: "if row_fits width e ?px (length b) rows
    then fast_bitmap_transfer width e b = (Ok (), draw_rows width e ?px (Suc rows) b) \<and> length (draw_rows width e ?px (Suc rows) b) = length b
    else \<exists>c. fast_bitmap_transfer width e b = (Err (rdp_err InvalidSize), c) \<and> length c = length b"
    by (rule transfer_run [OF assms(1) le assms(3) refl])
  show ?thesis
  proof (cases "row_fits width e ?px (length b) rows")
    case True
    then have all: "\<forall>i < Suc rows. row_fits width e ?px (length b) i" using fits_below by auto
    have "c = draw_rows width e ?px (Suc rows) b" "r = Ok ()" "length c = length b" using run True assms(5) by auto
    then show ?thesis
      using True False fits top draw_rows_nth [OF le(2) assms(2) _ all] by (auto simp: Let_def less_Suc_eq_le)
  next
    case wide: False
    then show ?thesis using run False fits assms(5) by auto
  qed
qed

theorem bitmap_drawn_witness:
  "\<exists>c. fast_bitmap_transfer 3 sample_tile [9, 9, 9, 9, 9, 9] = (Ok (), c) \<and> c ! 1 = 0x01020304 \<and> c ! 5 = 8 \<and> c ! 3 = 9"
proof -
  obtain r c where c: "fast_bitmap_transfer 3 sample_tile [9, 9, 9, 9, 9, 9] = (r, c)" by fastforce
  have "decompress sample_tile = Ok [4, 3, 2, 1, 7, 0, 0, 0, 6, 0, 0, 0, 8, 0, 0, 0]" by (simp add: decompress_def sample_tile_def)
  from bitmap_drawn [OF this _ refl refl c] show ?thesis
    using c by (auto simp: sample_tile_def le_u32_def Let_def)
qed

text \<open>
  No bitmap is lost, repeated or overtaken on its way to the screen: however the rounds of the
  reading thread and the steps of the window loop interleave, the window's buffer is what drawing
  a prefix of the bitmaps the client delivered gives, and the others wait in the channel in their order.
\<close>

lemma bitmaps_in_order:
  assumes "app_run iter width (app_start client width height) a" "s_events client = []"
  shows "\<exists>drawn. drawn @ a_channel a = bitmaps_of (s_events (a_client a))
     \<and> draw_all width drawn (replicate (width * height) 0) = (Ok (), a_buffer a)"
proof -
  have "in_step width (replicate (width * height) 0) (app_start client width height)"
    using assms(2) by (simp add: in_step_def app_start_def retp_def)
  then show ?thesis using run_in_step [OF assms(1)] by (auto simp: in_step_def)
qed

lemma bitmaps_in_order_witness:
  "\<exists>drawn. drawn @ a_channel (rdp_thread_round rev True (app_start (closed_client [1]) 4 3))
       = bitmaps_of (s_events (a_client (rdp_thread_round rev True (app_start (closed_client [1]) 4 3))))
     \<and> draw_all 4 drawn (replicate (4 * 3) 0) = (Ok (), a_buffer (rdp_thread_round rev True (app_start (closed_client [1]) 4 3)))"
  by (rule bitmaps_in_order [OF app_run.thread_step [OF app_run.begin_run]]) (simp add: closed_client_def)

text \<open>
  A frame with the mouse over the window sends exactly one pointer event, with the position
  saturated to 16 bits: a press, a release or a move; going from one button straight to another is sent
  as the release of the middle button. Before the client is active the frame fails instead, which
  ends the program.
\<close>

lemma mouse_sent:
  assumes "joined iter u sess (s_mcs (a_client a)) q" "f_position f = Some (x, y)" "\<not> a_poisoned a"
    and "button_change (a_last_button a) (get_rdp_pointer_down (f_buttons f)) = (button, down)"
  shows "if g_state (s_global (a_client a)) = DataState
    then \<exists>c. gui_mouse f a = (Ok (), a\<lparr>a_client := (a_client a)\<lparr>s_mcs := c\<rparr>, a_last_button := get_rdp_pointer_down (f_buttons f)\<rparr>)
       \<and> joined iter u sess c q \<and> mcs_sent c = mcs_sent (s_mcs (a_client a)) @ input_frame u (s_global (a_client a)) 0x8001
          (u16_le (mouse_bits button down) @ u16_le (cast_coordinate x) @ u16_le (cast_coordinate y))
    else gui_mouse f a = (Err (rdp_err InvalidAutomata), a)"
proof -
  let ?e = "Pointer \<lparr>pe_x = cast_coordinate x, pe_y = cast_coordinate y, pe_button = button, pe_down = down\<rparr>"
  let ?cur = "get_rdp_pointer_down (f_buttons f)"
  have b: "mouse_button (a_last_button a) ?cur = Ok button" "((a_last_button a \<noteq> ?cur) \<and> a_last_button a = ButtonNone) = down"
    using mouse_button_change [of "a_last_button a" ?cur] assms(4) by auto
  have run: "gui_mouse f a = bindp (on_client (rdp_write ?e)) (\<lambda>_. modp (\<lambda>a. a\<lparr>a_last_button := ?cur\<rparr>)) a"
    using assms(2,3) b by (simp add: gui_mouse_def get_state_def Let_def bindp_def [of "\<lambda>s. (Ok s, s)"] bindp_def [of "liftp _"] liftp_def)
  have w: "input_on_wire ?e = Some (0x8001, u16_le (mouse_bits button down) @ u16_le (cast_coordinate x) @ u16_le (cast_coordinate y))"
    by (simp add: input_on_wire_def)
  show ?thesis
  proof (cases "g_state (s_global (a_client a)) = DataState")
    case True
    then show ?thesis using rdp_write_joined [OF assms(1) w True] run by (auto simp: bindp_def zoom_def modp_def)
  next
    case False
    then show ?thesis using rdp_write_elsewhere [OF False, of ?e] run w by (simp add: bindp_def zoom_def)
  qed
qed

lemma mouse_sent_witness:
  "\<exists>b c. gui_mouse \<lparr>f_budget = 1, f_position = Some (3, 70000), f_buttons = \<lparr>left_down = True, middle_down = False, right_down = False\<rparr>,
      f_keys = None, f_pressed = (\<lambda>k. False), f_updated = True\<rparr>
      (app_start \<lparr>s_global = sample_global\<lparr>g_state := DataState\<rparr>, s_mcs = sample_client [1], s_events = []\<rparr> 4 3) = (Ok (), b)
     \<and> joined rev 1007 sample_session c [1] \<and> a_last_button b = ButtonLeft"
  using mouse_sent [of rev 1007 sample_session
      "app_start \<lparr>s_global = sample_global\<lparr>g_state := DataState\<rparr>, s_mcs = sample_client [1], s_events = []\<rparr> 4 3" "[1]"
      "\<lparr>f_budget = 1, f_position = Some (3, 70000), f_buttons = \<lparr>left_down = True, middle_down = False, right_down = False\<rparr>,
      f_keys = None, f_pressed = (\<lambda>k. False), f_updated = True\<rparr>" 3 70000 ButtonLeft True] sample_joined [of "[1]"]
  by (fastforce simp: app_start_def button_change_def get_rdp_pointer_down_def)

text \<open>
  C38. The end of the stream is not noticed: once the server has closed the connection, every round
  of the reading thread fails with an end of file, which the loop does not look at. It
  goes round for ever and nothing changes, whereas an error of the protocol, such as the server's
  disconnection, ends the thread at once.
\<close>

theorem closed_connection_spins:
  assumes "rx (stream_io (x_transport (m_x224 (s_mcs (a_client a))))) = []" "a_reader a" "a_sync a" "\<not> a_poisoned a"
  shows "(rdp_thread_round iter True ^^ n) a = a \<and> a_reader a
    \<and> (\<forall>d e. \<not> a_poisoned d \<longrightarrow> fst (rdp_read iter (a_client d)) = Err (RdpError e) \<longrightarrow> \<not> a_reader (rdp_thread_round iter ready d))"
proof -
  have "rdp_thread_round iter True a = a"
    using assms closed_read [OF assms(1), of iter] by (simp add: rdp_thread_round_def)
  then have "(rdp_thread_round iter True ^^ n) a = a" by (induction n) simp_all
  then show ?thesis using assms(2) by (auto simp: rdp_thread_round_def Let_def split: prod.split)
qed

theorem closed_connection_spins_witness:
  "(rdp_thread_round rev True ^^ 1000) (app_start (closed_client []) 4 3) = app_start (closed_client []) 4 3"
  using closed_connection_spins [where a = "app_start (closed_client []) 4 3" and iter = rev and n = 1000]
  by (simp add: app_start_def closed_client_def)

end
