(* ===== verification/Program.thy ===== *)
theory Program imports Mstsc begin

section \<open>The program as a whole\<close>

text \<open>
  \<^verbatim>\<open>src/src/bin/mstsc-rs.rs\<close>, \<^verbatim>\<open>main\<close>: from the command line to the end of both threads. The
  connection, the client and the window are made first; then the reading thread and the window loop
  run beside each other, as steps of one process. A step ends where the other thread may
  see or change something shared (the flag, the lock, the channel), and where a call into the network
  begins: such a call returns when the network lets it, or never. The lock is held by the
  reading thread from the start of a read to its end, while it waits for the network and while the bitmaps of the read go
  one by one into the channel, and by the window loop during the mouse and the keyboard
  input of a frame and during the shutdown, which write.
\<close>

subsection \<open>The command line\<close>

text \<open>The arguments that the program declares: name, long option, whether it is declared to take a value, default value.\<close>

record arg_spec =
  arg_name :: string
  arg_long :: string
  arg_takes_value :: bool
  arg_default :: "string option"

abbreviation arg :: "string \<Rightarrow> string \<Rightarrow> bool \<Rightarrow> string option \<Rightarrow> arg_spec" where
  "arg n l t d \<equiv> \<lparr>arg_name = n, arg_long = l, arg_takes_value = t, arg_default = d\<rparr>"

definition mstsc_args :: "arg_spec list" where
  "mstsc_args = [
     arg ''target'' ''target'' True None,
     arg ''port'' ''port'' True (Some ''3389''),
     arg ''width'' ''width'' True (Some ''1600''),
     arg ''height'' ''height'' True (Some ''1200''),
     arg ''domain'' ''dom'' True (Some ''''),
     arg ''username'' ''user'' True (Some ''''),
     arg ''password'' ''pass'' True (Some ''''),
     arg ''hash'' ''hash'' True None,
     arg ''admin'' ''admin'' False None,
     arg ''layout'' ''layout'' True (Some ''us''),
     arg ''auto_logon'' ''auto'' False None,
     arg ''blank_creds'' ''blank'' False None,
     arg ''check_certificate'' ''check'' False None,
     arg ''disable_nla'' ''ssl'' False None,
     arg ''name'' ''name'' False (Some ''mstsc-rs'')]"

text \<open>
  What the program takes from outside: the parser of the command line, which may end the process
  instead; the decoder of hexadecimal; the parser of a socket address, the connection to one
  and its option against delays; and the window, which may get another size than asked for.
\<close>

record 'address host =
  get_matches :: "arg_spec list \<Rightarrow> rstring list \<Rightarrow> arg_matches option"
  hex_decode :: "rstring \<Rightarrow> u8 list option"
  parse_address :: "rstring \<Rightarrow> 'address option"
  tcp_connect :: "'address \<Rightarrow> io option"
  set_nodelay :: "io \<Rightarrow> bool"
  new_window :: "nat \<Rightarrow> nat \<Rightarrow> (nat \<times> nat) option"

definition tcp_from_args :: "'address host \<Rightarrow> arg_matches \<Rightarrow> io outcome" where
  "tcp_from_args host args =
     bindo (unwrap_option (value_of args ''target'')) (\<lambda>ip. let port = unwrap_or (value_of args ''port'') [] in
     case parse_address host (ip @ [0x3A] @ port) of
       None \<Rightarrow> Err (rdp_err InvalidData)
     | Some addr \<Rightarrow> bindo (unwrap_option (tcp_connect host addr)) (\<lambda>tcp.
         if set_nodelay host tcp then Ok tcp else Err (rdp_err InvalidData)))"

definition arg_usize :: "arg_matches \<Rightarrow> string \<Rightarrow> nat outcome" where
  "arg_usize args name = (case parse_unsigned (2 ^ 64) (unwrap_or (value_of args name) []) of
       Some n \<Rightarrow> Ok n | None \<Rightarrow> Err (rdp_err UnexpectedType))"

definition window_from_args :: "'address host \<Rightarrow> arg_matches \<Rightarrow> (nat \<times> nat) outcome" where
  "window_from_args host args = bindo (arg_usize args ''width'') (\<lambda>width. bindo (arg_usize args ''height'') (\<lambda>height.
     case new_window host width height of Some window \<Rightarrow> Ok window | None \<Rightarrow> Err (rdp_err Unknown)))"

subsection \<open>The process\<close>

text \<open>
  Where the reading thread is: in the call of \<open>select\<close> at the head of its loop, waiting for the lock, in a read with the
  lock held, or sending what it read with the lock still held.
\<close>

datatype reader = AtHead | AtLock | Reading | Sending "bitmap_event list" "unit outcome" | Stopped | Panicked

text \<open>
  Where the main thread is, in the window loop or behind it: before the mouse, the keyboard and the
  shutdown it waits for the lock, and in them it writes with the lock held.
\<close>

datatype gui = LoopHead | Draining frame nat | AtMouse frame | InMouse frame | AtKeyboard frame | InKeyboard frame | AtUpdate frame
  | Closing | AtShutdown | InShutdown | Joining | Exited "unit outcome"

record process =
  p_app :: app
  p_width :: nat
  p_reader :: reader
  p_gui :: gui

definition process_start :: "rdp_client \<Rightarrow> nat \<Rightarrow> nat \<Rightarrow> process" where
  "process_start client width height =
     \<lparr>p_app = app_start client width height, p_width = width, p_reader = AtHead, p_gui = LoopHead\<rparr>"

text \<open>What \<open>main\<close> does before the threads run; nothing runs when the command line is refused.\<close>

definition main_start :: "environment \<Rightarrow> 'address host \<Rightarrow> rstring list \<Rightarrow> process option outcome" where
  "main_start env host line = (case get_matches host mstsc_args line of
       None \<Rightarrow> Ok None
     | Some matches \<Rightarrow> bindo (unwrap (tcp_from_args host matches)) (\<lambda>tcp.
         bindo (unwrap (rdp_from_args env (hex_decode host) matches tcp)) (\<lambda>rdp_client.
         bindo (unwrap (window_from_args host matches)) (\<lambda>(width, height).
         Ok (Some (process_start rdp_client width height))))))"

subsection \<open>Steps of the reading thread\<close>

datatype platform = Windows | Linux | Macos

text \<open>Whether the socket is ready, by the result of \<open>select\<close> on it.\<close>

definition wait_for_fd :: "platform \<Rightarrow> int \<Rightarrow> bool" where
  "wait_for_fd platform result = (case platform of Macos \<Rightarrow> result > 0 | _ \<Rightarrow> result = 1)"

definition reader_ends :: "reader \<Rightarrow> process \<Rightarrow> process" where
  "reader_ends e p = p\<lparr>p_app := (p_app p)\<lparr>a_reader := False\<rparr>, p_reader := e\<rparr>"

definition reader_panics :: "process \<Rightarrow> process" where
  "reader_panics p = reader_ends Panicked (p\<lparr>p_app := (p_app p)\<lparr>a_poisoned := True\<rparr>\<rparr>)"

definition lock_held :: "process \<Rightarrow> bool" where
  "lock_held p = (case p_reader p of Reading \<Rightarrow> True | Sending bs r \<Rightarrow> True | _ \<Rightarrow> False)"

definition gui_holds :: "process \<Rightarrow> bool" where
  "gui_holds p = (case p_gui p of InMouse f \<Rightarrow> True | InKeyboard f \<Rightarrow> True | InShutdown \<Rightarrow> True | _ \<Rightarrow> False)"

text \<open>
  The argument \<open>call\<close> is what the network does: \<open>None\<close> while the call that the thread is in has not returned, so the
  thread stays where it is; otherwise that it returned, for \<open>select\<close> with whether the socket is ready. A read that
  returned gave what \<open>rdp_read\<close> gives. A panic with the lock held poisons it. The channel refuses a bitmap when its receiver is
  gone, and the \<open>unwrap\<close> of that is such a panic. A read that diverges would hold the lock for ever.
\<close>

definition reader_step :: "id_order \<Rightarrow> bool option \<Rightarrow> process \<Rightarrow> process" where
  "reader_step iter call p = (let a = p_app p in case p_reader p of
       AtHead \<Rightarrow> (case call of None \<Rightarrow> p
         | Some ready \<Rightarrow> if ready \<and> a_sync a then p\<lparr>p_reader := AtLock\<rparr> else reader_ends Stopped p)
     | AtLock \<Rightarrow> if gui_holds p then p else if a_poisoned a then reader_ends Panicked p else p\<lparr>p_reader := Reading\<rparr>
     | Reading \<Rightarrow> (case call of None \<Rightarrow> p
         | Some ready \<Rightarrow> (case rdp_read iter (a_client a) of (r, c) \<Rightarrow>
             p\<lparr>p_app := a\<lparr>a_client := c\<rparr>,
               p_reader := Sending (bitmaps_of (drop (length (s_events (a_client a))) (s_events c))) r\<rparr>))
     | Sending (b # bs) r \<Rightarrow> if a_window a
         then p\<lparr>p_app := a\<lparr>a_channel := a_channel a @ [b]\<rparr>, p_reader := Sending bs r\<rparr> else reader_panics p
     | Sending [] r \<Rightarrow> (case r of
         Err (RdpError e) \<Rightarrow> reader_ends Stopped p | Panic x \<Rightarrow> reader_panics p | Diverge \<Rightarrow> p
       | _ \<Rightarrow> p\<lparr>p_reader := AtHead\<rparr>)
     | _ \<Rightarrow> p)"

subsection \<open>Steps of the window loop\<close>

text \<open>An error that the loop returns is unwrapped by \<open>main\<close>, which ends the process.\<close>

definition gui_run :: "(app, 'b) prog \<Rightarrow> ('b \<Rightarrow> gui) \<Rightarrow> process \<Rightarrow> process" where
  "gui_run m k p = (case m (p_app p) of (r, a) \<Rightarrow> p\<lparr>p_app := a, p_gui := (case unwrap r of
       Ok b \<Rightarrow> k b | Err e \<Rightarrow> Exited (Err e) | Panic x \<Rightarrow> Exited (Panic x) | Diverge \<Rightarrow> Exited Diverge)\<rparr>)"

text \<open>
  Inside of \<open>if let\<close>, so only with something to send, the lock is needed: the loop waits for it, and then holds it. A
  poisoned lock is an error at once.
\<close>

definition under_lock :: "bool \<Rightarrow> gui \<Rightarrow> (process \<Rightarrow> process) \<Rightarrow> process \<Rightarrow> process" where
  "under_lock needed inside step p = (if \<not> needed then step p else if lock_held p then p
     else if a_poisoned (p_app p) then step p else p\<lparr>p_gui := inside\<rparr>)"

text \<open>With the lock held, the writes of a part of the frame are done when the network has taken them.\<close>

definition gui_step :: "bool \<Rightarrow> frame \<Rightarrow> bool \<Rightarrow> process \<Rightarrow> process" where
  "gui_step is_open f returned p = (case p_gui p of
       LoopHead \<Rightarrow> p\<lparr>p_gui := if is_open \<and> a_sync (p_app p) then Draining f (f_budget f) else Closing\<rparr>
     | Draining f n \<Rightarrow> (case n of 0 \<Rightarrow> p\<lparr>p_gui := AtMouse f\<rparr>
         | Suc n \<Rightarrow> gui_run (gui_receive (p_width p)) (\<lambda>next_one. if next_one then Draining f n else AtMouse f) p)
     | AtMouse f \<Rightarrow> under_lock (f_position f \<noteq> None) (InMouse f) (gui_run (gui_mouse f) (\<lambda>_. AtKeyboard f)) p
     | InMouse f \<Rightarrow> if returned then gui_run (gui_mouse f) (\<lambda>_. AtKeyboard f) p else p
     | AtKeyboard f \<Rightarrow> under_lock (f_keys f \<noteq> None) (InKeyboard f) (gui_run (gui_keyboard f) (\<lambda>_. AtUpdate f)) p
     | InKeyboard f \<Rightarrow> if returned then gui_run (gui_keyboard f) (\<lambda>_. AtUpdate f) p else p
     | AtUpdate f \<Rightarrow> gui_run (gui_update f) (\<lambda>_. LoopHead) p
     | Closing \<Rightarrow> gui_run (modp (\<lambda>a. a\<lparr>a_sync := False\<rparr>)) (\<lambda>_. AtShutdown) p
     | AtShutdown \<Rightarrow> under_lock True InShutdown (gui_run gui_shutdown (\<lambda>_. Joining)) p
     | InShutdown \<Rightarrow> if returned then gui_run gui_shutdown (\<lambda>_. Joining) p else p
     | Joining \<Rightarrow> (case p_reader p of Stopped \<Rightarrow> p\<lparr>p_gui := Exited (Ok ())\<rparr>
         | Panicked \<Rightarrow> p\<lparr>p_gui := Exited (Panic UnwrapFailed)\<rparr> | _ \<Rightarrow> p)
     | Exited r \<Rightarrow> p)"

subsection \<open>Runs\<close>

definition exited :: "process \<Rightarrow> bool" where
  "exited p = (case p_gui p of Exited r \<Rightarrow> True | _ \<Rightarrow> False)"

text \<open>
  The process is over with its main thread; until then either thread may be next, and a call into the network may
  return in the step or not: nothing says when, or that it ever does.
\<close>

inductive process_step :: "id_order \<Rightarrow> process \<Rightarrow> process \<Rightarrow> bool" for iter where
  reader_moves: "\<not> exited p \<Longrightarrow> process_step iter p (reader_step iter (map_option (wait_for_fd platform) call) p)"
| gui_moves: "\<not> exited p \<Longrightarrow> process_step iter p (gui_step is_open f returned p)"

inductive process_run :: "id_order \<Rightarrow> process \<Rightarrow> process \<Rightarrow> bool" for iter start where
  process_begin: "process_run iter start start"
| process_next: "process_run iter start p \<Longrightarrow> process_step iter p q \<Longrightarrow> process_run iter start q"

end
