(* ===== verification/Program_Laws.thy ===== *)
theory Program_Laws imports Program Mstsc_Laws begin

section \<open>What the whole program guarantees\<close>

text \<open>
  Every interleaving of the steps of the two threads: the bitmaps reach the screen in their order,
  the client behind the lock is only used as a client may be, nothing but an overflow goes wrong in a
  read, the threads never wait only for each other but may both wait for the network, and both end after the window was
  closed when the network lets them.
  A thread that is not interrupted does what its loop says.
\<close>

subsection \<open>Rules for steps\<close>

inductive_cases process_stepE: "process_step iter p q"

lemma run_trans: "process_run iter q r \<Longrightarrow> process_run iter p q \<Longrightarrow> process_run iter p r"
  by (induction rule: process_run.induct) (auto intro: process_next)

lemma gui_run_app [simp]:
  "p_app (gui_run m k p) = snd (m (p_app p))" "p_reader (gui_run m k p) = p_reader p" "p_width (gui_run m k p) = p_width p"
  by (simp_all add: gui_run_def split: prod.split)

lemma gui_run_gui:
  "p_gui (gui_run m k p) = (case fst (m (p_app p)) of Ok b \<Rightarrow> k b | Err e \<Rightarrow> Exited (Panic UnwrapFailed)
     | Panic x \<Rightarrow> Exited (Panic x) | Diverge \<Rightarrow> Exited Diverge)"
  by (simp add: gui_run_def split: prod.split outcome.split)

text \<open>
  A step of the window loop is blocked, only moves on, or runs one of its operations: where it needs the lock, either the
  reading thread does not hold it or it is the window loop that does.
\<close>

lemma gui_holds_simps [simp]:
  "gui_holds (p\<lparr>p_app := a\<rparr>) = gui_holds p" "gui_holds (p\<lparr>p_reader := r\<rparr>) = gui_holds p"
  by (simp_all add: gui_holds_def)

lemma lock_held_simps [simp]: "lock_held (p\<lparr>p_app := a\<rparr>) = lock_held p" "lock_held (p\<lparr>p_gui := g\<rparr>) = lock_held p"
  by (simp_all add: lock_held_def)

lemma gui_step_rule:
  assumes "Q p"
    and "\<And>g. g \<notin> {AtShutdown, InShutdown, Joining} \<Longrightarrow> \<forall>r. g \<noteq> Exited r \<Longrightarrow> gui_holds (p\<lparr>p_gui := g\<rparr>) \<longrightarrow> \<not> lock_held p \<Longrightarrow> Q (p\<lparr>p_gui := g\<rparr>)"
    and "p_gui p = AtShutdown \<Longrightarrow> \<not> lock_held p \<Longrightarrow> Q (p\<lparr>p_gui := InShutdown\<rparr>)"
    and "p_gui p = Joining \<Longrightarrow> p_reader p = Stopped \<Longrightarrow> Q (p\<lparr>p_gui := Exited (Ok ())\<rparr>)"
    and "p_gui p = Joining \<Longrightarrow> p_reader p = Panicked \<Longrightarrow> Q (p\<lparr>p_gui := Exited (Panic UnwrapFailed)\<rparr>)"
    and "\<And>f n. Q (gui_run (gui_receive (p_width p)) (\<lambda>next_one. if next_one then Draining f n else AtMouse f) p)"
    and "\<And>f. f_position f = None \<or> \<not> lock_held p \<or> gui_holds p \<Longrightarrow> Q (gui_run (gui_mouse f) (\<lambda>_. AtKeyboard f) p)"
    and "\<And>f. f_keys f = None \<or> \<not> lock_held p \<or> gui_holds p \<Longrightarrow> Q (gui_run (gui_keyboard f) (\<lambda>_. AtUpdate f) p)"
    and "\<And>f. Q (gui_run (gui_update f) (\<lambda>_. LoopHead) p)"
    and "Q (gui_run (modp (\<lambda>a. a\<lparr>a_sync := False\<rparr>)) (\<lambda>_. AtShutdown) p)"
    and "p_gui p \<in> {AtShutdown, InShutdown} \<Longrightarrow> \<not> lock_held p \<or> gui_holds p \<Longrightarrow> Q (gui_run gui_shutdown (\<lambda>_. Joining) p)"
  shows "Q (gui_step is_open f returned p)"
proof (cases "p_gui p")
  case (InMouse f)
  then show ?thesis using assms(1,7) by (simp add: gui_step_def gui_holds_def)
next
  case (InKeyboard f)
  then show ?thesis using assms(1,8) by (simp add: gui_step_def gui_holds_def)
next
  case InShutdown
  then show ?thesis using assms(1,11) by (simp add: gui_step_def gui_holds_def)
next
  case (AtMouse f)
  then show ?thesis using assms(1,2,7) by (simp add: gui_step_def under_lock_def gui_holds_def del: not_None_eq)
next
  case (AtKeyboard f)
  then show ?thesis using assms(1,2,8) by (simp add: gui_step_def under_lock_def gui_holds_def del: not_None_eq)
next
  case AtShutdown
  then show ?thesis using assms(1,3,11) by (simp add: gui_step_def under_lock_def)
next
  case (Draining f n)
  then show ?thesis using assms(2,6) by (simp add: gui_step_def gui_holds_def split: nat.split)
qed (use assms in \<open>auto simp: gui_step_def gui_holds_def split: reader.split\<close>)

lemma ends_simps [simp]:
  "p_gui (reader_ends e p) = p_gui p" "p_width (reader_ends e p) = p_width p" "p_reader (reader_ends e p) = e"
  "p_app (reader_ends e p) = (p_app p)\<lparr>a_reader := False\<rparr>"
  "p_gui (reader_panics p) = p_gui p" "p_width (reader_panics p) = p_width p" "p_reader (reader_panics p) = Panicked"
  "p_app (reader_panics p) = (p_app p)\<lparr>a_reader := False, a_poisoned := True\<rparr>"
  by (simp_all add: reader_ends_def reader_panics_def)

lemma reader_gui [simp]: "p_gui (reader_step iter call p) = p_gui p" "p_width (reader_step iter call p) = p_width p"
  by (simp_all add: reader_step_def Let_def split: reader.split option.split list.split outcome.split error.split prod.split)

text \<open>At most one of the threads has the lock.\<close>

definition exclusive :: "process \<Rightarrow> bool" where
  "exclusive p \<longleftrightarrow> \<not> (lock_held p \<and> gui_holds p)"

lemma exclusive_reader: "exclusive p \<Longrightarrow> exclusive (reader_step iter call p)"
  by (auto simp: exclusive_def reader_step_def reader_ends_def reader_panics_def lock_held_def Let_def gui_holds_def
      split: reader.split option.split list.split outcome.split error.split prod.split if_splits)

lemma exclusive_gui:
  assumes "exclusive p"
  shows "exclusive (gui_step is_open f returned p)"
proof -
  have run: "exclusive (gui_run m k p)" if "\<And>b. \<not> gui_holds (p\<lparr>p_gui := k b\<rparr>)" for m :: "(app, 'x) prog" and k
  proof -
    have "\<not> gui_holds (gui_run m k p)"
      using that by (simp add: gui_holds_def gui_run_gui split: outcome.split)
    then show ?thesis by (simp add: exclusive_def)
  qed
  have move: "exclusive (p\<lparr>p_gui := g\<rparr>)" if "gui_holds (p\<lparr>p_gui := g\<rparr>) \<longrightarrow> \<not> lock_held p" for g
    using that by (auto simp: exclusive_def)
  show ?thesis
    by (rule gui_step_rule) (auto intro!: assms run move simp: gui_holds_def split: if_splits)
qed

lemma run_exclusive: "process_run iter p q \<Longrightarrow> exclusive p \<Longrightarrow> exclusive q"
  by (induction rule: process_run.induct) (auto elim!: process_stepE intro: exclusive_reader exclusive_gui)

subsection \<open>The bitmaps in their order\<close>

definition unsent :: "process \<Rightarrow> bitmap_event list" where
  "unsent p = (case p_reader p of Sending bs r \<Rightarrow> bs | _ \<Rightarrow> [])"

definition ordered :: "nat \<Rightarrow> u32 list \<Rightarrow> process \<Rightarrow> bool" where
  "ordered width blank p \<longleftrightarrow> p_width p = width \<and> (a_window (p_app p) \<and> \<not> exited p \<longrightarrow>
     (\<exists>drawn. drawn @ a_channel (p_app p) @ unsent p = bitmaps_of (s_events (a_client (p_app p)))
       \<and> draw_all width drawn blank = (Ok (), a_buffer (p_app p))))"

lemma ordered_reader:
  assumes "ordered width blank p"
  shows "ordered width blank (reader_step iter call p)"
proof (cases "a_window (p_app p) \<and> \<not> exited p")
  case True
  have ex: "exited (reader_step iter call p) = exited p" by (simp add: exited_def)
  obtain r c where c: "rdp_read iter (a_client (p_app p)) = (r, c)" by fastforce
  obtain cs where cs: "s_events c = s_events (a_client (p_app p)) @ cs" using rdp_read_events [of iter "a_client (p_app p)"] c by auto
  show ?thesis
    using assms True ex c cs unfolding ordered_def
    by (auto simp: reader_step_def unsent_def Let_def bitmaps_append
        split: reader.splits option.splits list.splits outcome.splits error.splits)
next
  case False
  then have "\<not> (a_window (p_app (reader_step iter call p)) \<and> \<not> exited (reader_step iter call p))"
    by (auto simp: reader_step_def Let_def exited_def split: reader.split option.split list.split outcome.split error.split prod.split)
  then show ?thesis using assms by (auto simp: ordered_def)
qed

text \<open>An operation of the window loop that leaves the events, the channel and the buffer alone.\<close>

abbreviation view :: "app \<Rightarrow> rdp_event list \<times> bool \<times> bitmap_event list \<times> u32 list" where
  "view a \<equiv> (s_events (a_client a), a_window a, a_channel a, a_buffer a)"

lemma unsent_run [simp]: "unsent (gui_run m k p) = unsent p" "unsent (p\<lparr>p_gui := g\<rparr>) = unsent p"
  by (simp_all add: unsent_def)

lemma ordered_view:
  assumes "keeps view m" "ordered width blank p" "\<not> exited p"
  shows "ordered width blank (gui_run m k p)"
  using assms keepsD [OF assms(1), of "p_app p" "fst (m (p_app p))" "snd (m (p_app p))"] by (simp add: ordered_def)

lemma ordered_receive:
  assumes "ordered width blank p" "\<not> exited p"
  shows "ordered width blank (gui_run (gui_receive width) k p)"
proof (cases "fst (gui_receive width (p_app p))")
  case (Ok cont)
  then obtain b where b: "gui_receive width (p_app p) = (Ok cont, b)" by (metis prod.collapse)
  show ?thesis
  proof (cases "a_channel (p_app p)")
    case Nil
    then show ?thesis using assms b
      by (auto simp: ordered_def gui_receive_def bindp_def get_state_def modp_def retp_def split: if_splits)
  next
    case (Cons e rest)
    then obtain buffer where t: "fast_bitmap_transfer width e (a_buffer (p_app p)) = (Ok (), buffer)"
        "b = (p_app p)\<lparr>a_channel := rest, a_buffer := buffer\<rparr>"
      using b by (auto simp: gui_receive_def bindp_eq_Ok get_state_def modp_def retp_def zoom_Ok)
    show ?thesis using assms b t Cons draw_all_snoc [OF _ t(1)] unfolding ordered_def
      by (auto intro: exI [of _ "_ @ [e]"])
  qed
qed (use assms in \<open>auto simp: ordered_def exited_def gui_run_gui\<close>)

lemma ordered_shutdown:
  assumes "p_width p = width"
  shows "ordered width blank (gui_run gui_shutdown (\<lambda>_. Joining) p)"
  using assms
  by (auto simp: ordered_def exited_def gui_run_gui gui_shutdown_def bindp_def get_state_def modp_def liftp_def
      split: outcome.splits prod.splits)

lemma ordered_gui:
  assumes "ordered width blank p" "\<not> exited p"
  shows "ordered width blank (gui_step is_open f returned p)"
proof -
  have w: "p_width p = width" using assms(1) by (simp add: ordered_def)
  have at: "ordered width blank (p\<lparr>p_gui := g\<rparr>)" for g
    using assms by (simp add: ordered_def)
  have view: "keeps view (gui_update f)" "keeps view (modp (\<lambda>a. a\<lparr>a_sync := False\<rparr>))" for f
    by (auto intro!: keeps_intros keeps_modp simp: gui_update_def)
  show ?thesis
    by (rule gui_step_rule)
      (auto intro!: assms at ordered_view [OF _ assms] view keeps_view_input ordered_receive [OF assms, folded w]
        ordered_shutdown [OF w] simp: w ordered_receive [OF assms])
qed

lemma run_ordered: "process_run iter p q \<Longrightarrow> ordered width blank p \<Longrightarrow> ordered width blank q"
  by (induction rule: process_run.induct) (auto elim!: process_stepE intro: ordered_reader ordered_gui)

subsection \<open>How the parts can end\<close>

text \<open>Whatever a bitmap holds, its decompression ends, and its panics are those of the decoders.\<close>

abbreviation image_panics :: "panic set" where
  "image_panics \<equiv> {ArithOverflow, OutOfBounds, UnwrapFailed, ExplicitPanic}"

lemma wp_raw_pixel_any: "length s = n \<Longrightarrow> wp (raw_pixel e i j) (\<lambda>_ t. length t = n) image_panics s"
  by (auto simp: raw_pixel_def wp_simps wp_liftp_wpo raw_source_def raw_target_def wpo_bindo mulw_def slice_get_def slice_set_def)

lemma decompress_ends: "wpo (decompress e) (\<lambda>_. True) image_panics"
proof -
  let ?w = "unat (b_width e)" and ?h = "unat (b_height e)"
  consider "b_bpp e = 32" | "b_bpp e = 16" "b_is_compress e" | "b_bpp e = 16" "\<not> b_is_compress e" | "b_bpp e \<noteq> 32" "b_bpp e \<noteq> 16"
    by blast
  then show ?thesis
  proof cases
    case 1
    show ?thesis
    proof (cases "b_is_compress e")
      case True
      show ?thesis by (rule wpo_mono [OF decompress_32 [OF 1 True]]) auto
    qed (use 1 in \<open>simp add: decompress_def Let_def\<close>)
  next
    case 2
    then show ?thesis using wpo_mono [OF decompress_16 [OF 2, of image_panics]] by auto
  next
    case 3
    have "wp (raw_pixels e) (\<lambda>_ t. length t = ?w * ?h) image_panics (replicate (?w * ?h) 0)"
      unfolding raw_pixels_def
      by (rule wp_forp [where I = "\<lambda>t. length t = ?w * ?h"]) (auto intro!: wp_forp [where I = "\<lambda>t. length t = ?w * ?h"] wp_raw_pixel_any)
    from filled_wp [OF this] have "wpo (filled (raw_pixels e) (replicate (?w * ?h) 0)) (\<lambda>t. length t = ?w * ?h) image_panics" .
    then have "wpo (bindo (filled (raw_pixels e) (replicate (?w * ?h) 0)) (\<lambda>r. rgb565torgb32 r ?w ?h)) (\<lambda>_. True) image_panics"
      unfolding wpo_bindo
    proof (rule wpo_mono)
      fix r :: "u16 list" assume "length r = ?w * ?h"
      then show "wpo (rgb565torgb32 r ?w ?h) (\<lambda>_. True) image_panics" using rgb565torgb32_length [of ?w ?h r] by auto
    qed simp
    then show ?thesis using 3 by (simp add: decompress_def Let_def)
  qed (simp add: decompress_def Let_def)
qed

lemma wp_transfer: "wp (fast_bitmap_transfer width e) (\<lambda>_ _. True) image_panics b"
proof -
  have row: "wp (transfer_row width e px i) (\<lambda>_ _. True) image_panics b" for px i b
    by (auto simp: transfer_row_def copy_nonoverlapping_def Let_def wp_simps)
  show ?thesis
    by (auto simp: fast_bitmap_transfer_def Let_def wp_simps wp_liftp_wpo simp del: upt_Suc
        intro!: wpo_mono [OF decompress_ends] wp_forp [where I = "\<lambda>_. True"] row)
qed

lemma wp_receive: "wp (gui_receive width) (\<lambda>_ _. True) image_panics a"
  by (auto simp: gui_receive_def wp_simps intro!: wp_mono [OF wp_transfer] split: list.split)

definition linked :: "app \<Rightarrow> bool" where
  "linked a \<longleftrightarrow> mcs_connected (s_mcs (a_client a))"

lemma write_linked:
  "mcs_connected (s_mcs c) \<Longrightarrow> wp (rdp_write event) (\<lambda>_ d. mcs_connected (s_mcs d)) image_panics c"
  using wp_rdp_write [of c event] write_view [of event c] by (auto simp: wp_def split: prod.splits outcome.splits)

lemma wp_mouse: "linked a \<Longrightarrow> wp (gui_mouse f) (\<lambda>_. linked) image_panics a"
  by (auto simp: gui_mouse_def wp_simps Let_def wp_liftp_wpo mouse_button_change(1) linked_def
      intro!: wp_mono [OF write_linked] split: option.split)

lemma wp_send_keys: "linked a \<Longrightarrow> wp (send_keys down ks) (\<lambda>_. linked) image_panics a"
proof (induction ks arbitrary: a)
  case (Cons k ks)
  then show ?case
    by (auto simp: wp_simps wp_liftp_wpo to_scancode_def linked_def intro!: wp_mono [OF write_linked] split: option.split)
qed (simp add: wp_simps)

lemma wp_keyboard: "linked a \<Longrightarrow> wp (gui_keyboard f) (\<lambda>_. linked) image_panics a"
  by (auto simp: gui_keyboard_def wp_simps intro!: wp_mono [OF wp_send_keys] split: option.split) (simp add: linked_def)

lemma wp_shutdown: "wp gui_shutdown (\<lambda>_ _. True) image_panics a"
proof -
  let ?m = "MTrame [x224_header, MTrame [MU8 (mcs_pdu_header (Some DisconnectProviderUltimatum) (Some 1)), write_enumerates 0x80,
      MSlice [0, 0, 0, 0, 0, 0]]]"
  obtain bs where bs: "write_msg ?m = Ok bs"
    by (simp add: write_enumerates_def x224_header_def u8_write_def slice_write_def add_filter_def)
  have written: "wp (tpkt_write ?m) (\<lambda>_ _. True) image_panics t" for t
    by (rule wp_mono [OF wp_tpkt_write [OF bs]]) auto
  have shut: "wp tpkt_shutdown (\<lambda>_ _. True) image_panics t" for t
    by (cases t) (simp_all add: tpkt_shutdown_def link_shutdown_def wp_def)
  have "wp mcs_shutdown (\<lambda>_ _. True) image_panics c" for c
    unfolding mcs_shutdown_def x224_write_def x224_shutdown_def wp_bindp wp_zoom
    by (rule wp_mono [OF written]) (simp_all add: shut)
  then show ?thesis
    by (simp add: gui_shutdown_def rdp_shutdown_def wp_simps)
qed

subsection \<open>Every state of the program\<close>

lemma linked_keeps:
  assumes "keeps (mcs_session \<circ> s_mcs \<circ> a_client) m" "linked a"
  shows "linked (snd (m a))"
proof -
  have "mcs_session (s_mcs (a_client (snd (m a)))) = mcs_session (s_mcs (a_client a))" using assms(1) by (simp add: keeps_def)
  then show ?thesis using assms(2) mcs_connected_session unfolding linked_def by blast
qed

lemma keeps_linked:
  "keeps (mcs_session \<circ> s_mcs \<circ> a_client) (gui_receive width)"
  "keeps (mcs_session \<circ> s_mcs \<circ> a_client) (gui_update f)"
  "keeps (mcs_session \<circ> s_mcs \<circ> a_client) gui_shutdown"
proof -
  have "keeps (mcs_session \<circ> s_mcs \<circ> a_client) (on_client rdp_shutdown)"
    unfolding rdp_shutdown_def
    by (rule keeps_zoom_part [where g = "mcs_session \<circ> s_mcs"], rule keeps_zoom_part [OF keeps_mcs_io(2)]) simp_all
  then show "keeps (mcs_session \<circ> s_mcs \<circ> a_client) gui_shutdown"
    unfolding gui_shutdown_def by (auto intro!: keeps_intros keeps_modp)
  show "keeps (mcs_session \<circ> s_mcs \<circ> a_client) (gui_receive width)" "keeps (mcs_session \<circ> s_mcs \<circ> a_client) (gui_update f)"
    unfolding gui_receive_def gui_update_def by (auto intro!: keeps_intros keeps_modp keeps_zoom split: list.split)
qed

lemma keeps_rdp_read: "keeps (mcs_session \<circ> s_mcs) (rdp_read iter)"
proof -
  have "keeps (mcs_session \<circ> s_mcs) (on_mcs (mcs_read iter))" by (rule keeps_zoom_part [OF keeps_mcs_read]) simp
  then show ?thesis unfolding rdp_read_def by (auto intro!: keeps_intros keeps_global_read)
qed

text \<open>
  The client is connected while the process lives, a read has an ordinary result, and so has
  the process when it is over.
\<close>

definition sound :: "process \<Rightarrow> bool" where
  "sound p \<longleftrightarrow> (exited p \<or> linked (p_app p))
     \<and> (\<forall>bs r. p_reader p = Sending bs r \<longrightarrow> calm r \<or> r = Panic ArithOverflow)
     \<and> (\<forall>r. p_gui p = Exited r \<longrightarrow> r = Ok () \<or> r \<in> Panic ` image_panics)"

lemma sound_run:
  assumes "sound p" "wp m (\<lambda>_. linked) image_panics (p_app p)" "\<And>b r. k b \<noteq> Exited r"
  shows "sound (gui_run m k p)"
proof -
  from wp_outcome [OF assms(2), of "fst (m (p_app p))" "snd (m (p_app p))"] show ?thesis
    using assms(1,3) by (auto simp: sound_def exited_def gui_run_gui split: gui.split)
qed

lemma wp_linked:
  assumes "wp m (\<lambda>_ _. True) image_panics a" "keeps (mcs_session \<circ> s_mcs \<circ> a_client) m" "linked a"
  shows "wp m (\<lambda>_. linked) image_panics a"
  using assms(1) linked_keeps [OF assms(2,3)] by (auto simp: wp_def split: prod.splits outcome.splits)

lemma sound_gui:
  assumes "sound p" "\<not> exited p"
  shows "sound (gui_step is_open f returned p)"
proof -
  have l: "linked (p_app p)" using assms by (simp add: sound_def)
  have "wp (gui_update f) (\<lambda>_ _. True) image_panics (p_app p)" for f by (simp add: gui_update_def wp_simps)
  then have parts: "wp (gui_receive (p_width p)) (\<lambda>_. linked) image_panics (p_app p)" "wp (gui_update f) (\<lambda>_. linked) image_panics (p_app p)"
      "wp gui_shutdown (\<lambda>_. linked) image_panics (p_app p)" for f
    using wp_linked [OF _ _ l] keeps_linked wp_receive wp_shutdown by blast+
  show ?thesis
    by (rule gui_step_rule)
      (use assms l in \<open>auto intro!: sound_run [OF assms(1)] parts wp_mouse wp_keyboard simp: wp_simps linked_def\<close>,
       auto simp: sound_def exited_def linked_def split: if_splits)
qed

lemma sound_reader:
  assumes "sound p" "\<not> exited p"
  shows "sound (reader_step iter call p)"
proof -
  have l: "mcs_connected (s_mcs (a_client (p_app p)))" using assms by (simp add: sound_def linked_def)
  obtain r c where c: "rdp_read iter (a_client (p_app p)) = (r, c)" by fastforce
  have r: "calm r \<or> r = Panic ArithOverflow" using wp_outcome [OF wp_rdp_read [OF l] c] by (auto simp: calm_iff)
  have "mcs_connected (s_mcs c)"
    using keepsD [OF keeps_rdp_read c] l mcs_connected_session [of "s_mcs c"] by simp
  then show ?thesis
    using assms l c r
    by (auto simp: sound_def linked_def exited_def reader_step_def Let_def split: reader.splits option.splits list.splits outcome.splits error.splits gui.splits)
qed

text \<open>The phases of the end: the flag is down before the shutdown, and the window closed after it.\<close>

definition phased :: "process \<Rightarrow> bool" where
  "phased p \<longleftrightarrow> (p_gui p = AtShutdown \<or> p_gui p = InShutdown \<longrightarrow> \<not> a_sync (p_app p))
     \<and> (p_gui p = Joining \<or> p_gui p = Exited (Ok ()) \<longrightarrow> \<not> a_sync (p_app p) \<and> \<not> a_window (p_app p))
     \<and> (p_gui p = Exited (Ok ()) \<longrightarrow> p_reader p = Stopped)"

lemma phased_gui:
  assumes "phased p" "\<not> exited p"
  shows "phased (gui_step is_open f returned p)"
proof -
  have running: "phased (gui_run m k p)" if "\<And>b. k b \<notin> {AtShutdown, InShutdown, Joining} \<and> (\<forall>r. k b \<noteq> Exited r)"
    for m :: "(app, 'b) prog" and k
    using that by (auto simp: phased_def gui_run_gui split: outcome.split)
  have closing: "phased (gui_run (modp (\<lambda>a. a\<lparr>a_sync := False\<rparr>)) (\<lambda>_. AtShutdown) p)"
    by (simp add: phased_def gui_run_gui modp_def)
  have shut: "phased (gui_run gui_shutdown (\<lambda>_. Joining) p)" if "p_gui p \<in> {AtShutdown, InShutdown}"
  proof (cases "gui_shutdown (p_app p)")
    case (Pair r a)
    then have "a_sync a = a_sync (p_app p) \<and> (r = Ok () \<longrightarrow> \<not> a_window a)"
      by (auto simp: gui_shutdown_def bindp_def get_state_def liftp_def modp_def zoom_def split: if_splits prod.splits outcome.splits)
    then show ?thesis using assms(1) that Pair by (auto simp: phased_def gui_run_gui split: outcome.split)
  qed
  show ?thesis
    by (rule gui_step_rule) (use assms shut in \<open>auto intro!: running closing split: if_splits\<close>, auto simp: phased_def)
qed

lemma phased_reader: "phased p \<Longrightarrow> \<not> exited p \<Longrightarrow> phased (reader_step iter call p)"
  by (auto simp: phased_def exited_def reader_step_def Let_def split: reader.splits option.splits list.splits outcome.splits error.splits prod.splits)

lemma run_sound: "process_run iter p q \<Longrightarrow> sound p \<and> phased p \<Longrightarrow> sound q \<and> phased q"
  by (induction rule: process_run.induct) (auto elim!: process_stepE intro: sound_gui sound_reader phased_gui phased_reader)

text \<open>What the first state of a program is.\<close>

lemma main_start_Some:
  "main_start env host line = Ok (Some p) \<longleftrightarrow> (\<exists>args tcp client width height. get_matches host mstsc_args line = Some args
     \<and> tcp_from_args host args = Ok tcp \<and> rdp_from_args env (hex_decode host) args tcp = Ok client
     \<and> window_from_args host args = Ok (width, height) \<and> p = process_start client width height)"
proof -
  have u: "unwrap r = Ok a \<longleftrightarrow> r = Ok a" for r :: "'x outcome" and a by (cases r) auto
  show ?thesis by (auto simp: main_start_def bindo_eq_Ok u split: option.split)
qed

lemma start_connected:
  assumes "main_start env host line = Ok (Some p)"
  obtains c tcp client width height where "connector_connect env c tcp = Ok client" "p = process_start client width height"
  using assms unfolding main_start_Some rdp_from_args_def bindo_eq_Ok by blast

lemma start_sound:
  assumes "main_start env host line = Ok (Some p)"
  shows "sound p \<and> phased p"
proof -
  obtain c tcp client width height where p: "connector_connect env c tcp = Ok client" "p = process_start client width height"
    using start_connected [OF assms] .
  then show ?thesis using connector_established [OF p(1)]
    by (simp add: sound_def phased_def linked_def process_start_def app_start_def)
qed

lemma start_exclusive:
  assumes "main_start env host line = Ok (Some p)"
  shows "exclusive p"
  using assms by (auto simp: main_start_Some exclusive_def lock_held_def process_start_def)

subsection \<open>The use of the client\<close>

text \<open>The window loop leaves the client alone while the reading thread holds the lock.\<close>

lemma lock_excludes:
  assumes "lock_held p" "exclusive p"
  shows "a_client (p_app (gui_step is_open f returned p)) = a_client (p_app p)"
proof -
  have k: "keeps a_client (gui_receive n)" "keeps a_client (gui_update f)" "keeps a_client (modp (\<lambda>a. a\<lparr>a_sync := False\<rparr>))" for n f
    unfolding gui_receive_def gui_update_def by (auto intro!: keeps_intros keeps_modp keeps_zoom split: list.split)
  show ?thesis
    by (rule gui_step_rule)
      (use assms k in \<open>auto simp: keeps_def gui_mouse_def gui_keyboard_def retp_def exclusive_def\<close>)
qed

text \<open>A predicate that a program never breaks, whatever its result.\<close>

definition stable :: "('s \<Rightarrow> bool) \<Rightarrow> ('s, 'a) prog \<Rightarrow> bool" where
  "stable P m \<longleftrightarrow> (\<forall>s. P s \<longrightarrow> P (snd (m s)))"

lemma stable_bindp: "stable P m \<Longrightarrow> (\<And>a. stable P (f a)) \<Longrightarrow> stable P (bindp m f)"
  unfolding stable_def bindp_def by (auto split: prod.splits outcome.splits)

lemma stable_basic: "stable P (retp a)" "stable P (liftp r)" "stable P (failp e)" "stable P get_state"
  by (simp_all add: stable_def retp_def liftp_def failp_def get_state_def)

lemma stable_modp: "(\<And>s. P s \<Longrightarrow> P (g s)) \<Longrightarrow> stable P (modp g)"
  by (simp add: stable_def modp_def)

definition used :: "environment \<Rightarrow> connector \<Rightarrow> io \<Rightarrow> app \<Rightarrow> bool" where
  "used env c tcp a \<longleftrightarrow> (\<exists>ps. client_run env c tcp ps (a_client a))"

lemma used_write: "stable (used env c tcp) (on_client (rdp_write event))"
  unfolding stable_def zoom_def used_def by (auto split: prod.split intro: client_run.sends)

lemma used_input:
  "stable (used env c tcp) (gui_mouse f)" "stable (used env c tcp) (gui_keyboard f)"
proof -
  have keys: "stable (used env c tcp) (send_keys down ks)" for down ks
    by (induction ks) (auto intro!: stable_bindp stable_basic used_write)
  show "stable (used env c tcp) (gui_mouse f)"
    unfolding gui_mouse_def Let_def by (auto intro!: stable_bindp stable_basic used_write stable_modp split: option.split simp: used_def)
  show "stable (used env c tcp) (gui_keyboard f)"
    unfolding gui_keyboard_def by (auto intro!: stable_bindp stable_basic keys stable_modp split: option.split simp: used_def)
qed

lemma used_view: "stable (used env c tcp) (gui_receive width)" "stable (used env c tcp) (gui_update f)"
  unfolding gui_receive_def gui_update_def stable_def used_def
  by (auto simp: bindp_def get_state_def modp_def retp_def failp_def zoom_def split: list.split prod.splits outcome.splits)

text \<open>Until the shutdown, the client in a state of the program is one that a run of the connected client gives.\<close>

definition in_use :: "environment \<Rightarrow> connector \<Rightarrow> io \<Rightarrow> process \<Rightarrow> bool" where
  "in_use env c tcp p \<longleftrightarrow> (a_window (p_app p) \<and> \<not> exited p \<longrightarrow> used env c tcp (p_app p))"

lemma in_use_run:
  assumes "stable (used env c tcp) m" "in_use env c tcp p" "keeps a_window m" "\<not> exited p"
  shows "in_use env c tcp (gui_run m k p)"
  using assms by (auto simp: in_use_def stable_def keeps_def)

lemma in_use_gui:
  assumes "in_use env c tcp p" "\<not> exited p"
  shows "in_use env c tcp (gui_step is_open f returned p)"
proof -
  have view: "keeps a_window m" if "keeps view m" for m :: "(app, 'x) prog"
    using that by (simp add: keeps_def)
  have w: "keeps a_window (gui_receive n)" "keeps a_window (gui_update f)" "keeps a_window (modp (\<lambda>a. a\<lparr>a_sync := False\<rparr>))" for n f
    unfolding gui_receive_def gui_update_def by (auto intro!: keeps_intros keeps_modp keeps_zoom split: list.split)
  have shut: "in_use env c tcp (gui_run gui_shutdown (\<lambda>_. Joining) p)"
    by (auto simp: in_use_def exited_def gui_run_gui gui_shutdown_def bindp_def get_state_def modp_def liftp_def
        split: outcome.splits prod.splits)
  show ?thesis
    by (rule gui_step_rule)
      (use assms shut in \<open>auto intro!: in_use_run used_input used_view w view [OF keeps_view_input(1)] view [OF keeps_view_input(2)] stable_modp\<close>,
       auto simp: in_use_def exited_def used_def)
qed

lemma in_use_reader:
  assumes "in_use env c tcp p" "\<not> exited p"
  shows "in_use env c tcp (reader_step (map_order env) call p)"
  using assms
  by (auto simp: in_use_def used_def exited_def reader_step_def Let_def split: reader.splits option.splits list.splits outcome.splits error.splits prod.splits
      intro: client_run.reads)

lemma run_in_use: "process_run (map_order env) p q \<Longrightarrow> in_use env c tcp p \<Longrightarrow> in_use env c tcp q"
  by (induction rule: process_run.induct) (auto elim!: process_stepE intro: in_use_gui in_use_reader)

subsection \<open>Progress\<close>

text \<open>A step without the network: no call into it returns.\<close>

inductive silent_step :: "id_order \<Rightarrow> process \<Rightarrow> process \<Rightarrow> bool" for iter where
  reader_alone: "\<not> exited p \<Longrightarrow> silent_step iter p (reader_step iter None p)"
| gui_alone: "\<not> exited p \<Longrightarrow> silent_step iter p (gui_step is_open f False p)"

lemma silent_process_step: "silent_step iter p q \<Longrightarrow> process_step iter p q"
proof (induction rule: silent_step.induct)
  case (reader_alone p)
  then show ?case using reader_moves [of p iter _ None] by simp
qed (rule gui_moves)

text \<open>A thread is in a call into the network: in \<open>select\<close>, in a read or in the writes of the window loop.\<close>

definition awaits_network :: "process \<Rightarrow> bool" where
  "awaits_network p \<longleftrightarrow> p_reader p \<in> {AtHead, Reading} \<or> gui_holds p"

text \<open>The places of the window loop where it needs the lock.\<close>

definition wants_lock :: "gui \<Rightarrow> bool" where
  "wants_lock g = (case g of AtMouse f \<Rightarrow> f_position f \<noteq> None | AtKeyboard f \<Rightarrow> f_keys f \<noteq> None | AtShutdown \<Rightarrow> True | _ \<Rightarrow> False)"

text \<open>A step of a living process that is not blocked moves its thread.\<close>

lemma gui_moves_on:
  assumes "\<not> exited p" "\<not> lock_held p" "\<not> gui_holds p" "p_gui p \<noteq> Joining"
  shows "p_gui (gui_step is_open f returned p) \<noteq> p_gui p"
  using assms
  by (cases "p_gui p") (auto simp: gui_step_def under_lock_def gui_holds_def exited_def gui_run_gui split: nat.split outcome.split if_splits)

lemma gui_returns:
  assumes "gui_holds p"
  shows "p_gui (gui_step is_open f True p) \<noteq> p_gui p"
  using assms by (cases "p_gui p") (auto simp: gui_step_def gui_holds_def gui_run_gui split: outcome.split)

lemma reader_moves_on:
  assumes "sound p" "\<not> gui_holds p" "(\<exists>bs r. p_reader p = Sending bs r) \<or> p_reader p = AtLock"
  shows "reader_step iter call p \<noteq> p"
proof -
  have "p_reader (reader_step iter call p) \<noteq> p_reader p"
    using assms by (auto simp: sound_def reader_step_def Let_def split: list.splits outcome.splits error.splits if_splits)
  then show ?thesis by metis
qed

lemma reader_returns:
  assumes "p_reader p \<in> {AtHead, Reading}"
  shows "reader_step iter (Some ready) p \<noteq> p"
proof -
  have "p_reader (reader_step iter (Some ready) p) \<noteq> p_reader p"
    using assms by (auto simp: reader_step_def Let_def split: prod.splits if_splits)
  then show ?thesis by metis
qed

lemma blocked_awaits:
  assumes "sound p" "exclusive p" "\<not> exited p" "\<And>q. silent_step iter p q \<Longrightarrow> q = p"
  shows "awaits_network p"
proof (rule ccontr)
  assume "\<not> awaits_network p"
  then have n: "p_reader p \<notin> {AtHead, Reading}" "\<not> gui_holds p" by (simp_all add: awaits_network_def)
  show False
  proof (cases "p_reader p = Stopped \<or> p_reader p = Panicked")
    case True
    have "p_gui (gui_step True f False p) \<noteq> p_gui p" for f
    proof (cases "p_gui p = Joining")
      case joining: True
      then show ?thesis using True by (auto simp: gui_step_def)
    next
      case False
      then show ?thesis using True n(2) by (intro gui_moves_on [OF assms(3)]) (auto simp: lock_held_def)
    qed
    then show False using assms(4) [OF gui_alone [OF assms(3)]] by metis
  next
    case False
    then have "(\<exists>bs r. p_reader p = Sending bs r) \<or> p_reader p = AtLock" using n(1) by (cases "p_reader p") auto
    then show False using reader_moves_on [OF assms(1) n(2)] assms(4) [OF reader_alone [OF assms(3)]] by blast
  qed
qed

lemma network_releases:
  assumes "\<not> exited p" "awaits_network p"
  shows "\<exists>q. process_step iter p q \<and> q \<noteq> p"
proof (cases "gui_holds p")
  case True
  then show ?thesis using gui_returns [of p] gui_moves [OF assms(1)] by metis
next
  case False
  then have "p_reader p \<in> {AtHead, Reading}" using assms(2) by (auto simp: awaits_network_def)
  then show ?thesis using reader_returns reader_moves [OF assms(1), of iter _ "Some _"] by (metis option.map(2))
qed

text \<open>A read that does not return keeps the window loop where it needs the lock.\<close>

lemma read_blocks_window:
  assumes "p_reader p = Reading" "wants_lock (p_gui p)" "silent_step iter p q"
  shows "q = p"
  using assms(3)
proof cases
  case reader_alone
  then show ?thesis using assms(1) by (simp add: reader_step_def)
next
  case (gui_alone is_open f)
  then show ?thesis using assms(1,2)
    by (auto simp: gui_step_def under_lock_def lock_held_def wants_lock_def split: gui.splits)
qed

subsection \<open>The end\<close>

definition ending :: "process \<Rightarrow> bool" where
  "ending p \<longleftrightarrow> \<not> a_sync (p_app p) \<and> (p_gui p \<in> {AtShutdown, InShutdown, Joining} \<or> exited p)"

definition gui_left :: "process \<Rightarrow> nat" where
  "gui_left p = (case p_gui p of AtShutdown \<Rightarrow> 3 | InShutdown \<Rightarrow> 2 | Joining \<Rightarrow> 1 | _ \<Rightarrow> 0)"

definition reader_left :: "process \<Rightarrow> nat" where
  "reader_left p = (case p_reader p of AtLock \<Rightarrow> 4 | Reading \<Rightarrow> 3 | Sending bs r \<Rightarrow> 2 | AtHead \<Rightarrow> 1 | _ \<Rightarrow> 0)"

abbreviation steps_left :: "(process \<times> process) set" where
  "steps_left \<equiv> measures [gui_left, reader_left, \<lambda>p. length (unsent p)]"

lemma shutdown_sync: "a_sync (snd (gui_shutdown a)) = a_sync a"
  by (auto simp: gui_shutdown_def bindp_def get_state_def liftp_def modp_def zoom_def split: prod.split outcome.split)

lemma reader_sync [simp]: "a_sync (p_app (reader_step iter call p)) = a_sync (p_app p)"
  by (simp add: reader_step_def Let_def split: reader.split option.split list.split outcome.split error.split prod.split)

lemma reader_left_step:
  assumes "\<not> a_sync (p_app p)" "reader_step iter call p \<noteq> p"
  shows "reader_left (reader_step iter call p) < reader_left p
    \<or> reader_left (reader_step iter call p) = reader_left p \<and> length (unsent (reader_step iter call p)) < length (unsent p)"
proof (cases "p_reader p")
  case (Sending bs r)
  then show ?thesis
  proof (cases bs)
    case Nil
    then show ?thesis using Sending assms(2)
      by (cases r) (simp_all add: reader_step_def reader_left_def unsent_def split: error.split)
  qed (simp add: reader_step_def reader_left_def unsent_def Let_def)
qed (use assms in \<open>auto simp: reader_step_def reader_left_def unsent_def Let_def split: prod.splits option.splits\<close>)

lemma ending_gui:
  assumes "ending p" "\<not> exited p" "gui_step is_open f returned p \<noteq> p"
  shows "ending (gui_step is_open f returned p) \<and> gui_left (gui_step is_open f returned p) < gui_left p"
proof -
  let ?q = "gui_step is_open f returned p"
  have sync: "\<not> a_sync (p_app p)" "p_gui p \<in> {AtShutdown, InShutdown, Joining}" using assms(1,2) by (auto simp: ending_def)
  consider "?q = gui_run gui_shutdown (\<lambda>_. Joining) p" "p_gui p \<in> {AtShutdown, InShutdown}"
    | g where "?q = p\<lparr>p_gui := g\<rparr>" "g = InShutdown \<and> p_gui p = AtShutdown \<or> (\<exists>r. g = Exited r) \<and> p_gui p = Joining"
  proof (cases "p_gui p")
    case AtShutdown
    then show ?thesis using that assms(3) by (simp add: gui_step_def under_lock_def split: if_splits)
  next
    case InShutdown
    then show ?thesis using that(1) assms(3) by (simp add: gui_step_def split: if_splits)
  next
    case Joining
    then show ?thesis using that(2) assms(3) by (simp add: gui_step_def split: reader.splits)
  qed (use sync(2) in simp_all)
  then show ?thesis
  proof cases
    case 1
    then show ?thesis using sync
      by (auto simp: ending_def exited_def gui_left_def gui_run_gui shutdown_sync split: outcome.split)
  next
    case 2
    then show ?thesis using sync by (auto simp: ending_def exited_def gui_left_def)
  qed
qed

lemma ending_step:
  assumes "ending p" "process_step iter p q" "q \<noteq> p"
  shows "ending q \<and> (q, p) \<in> steps_left"
  using assms(2)
proof cases
  case (reader_moves platform call)
  then show ?thesis
    using assms(1,3) reader_left_step [of p iter "map_option (wait_for_fd platform) call"]
    by (auto simp: ending_def exited_def gui_left_def)
next
  case (gui_moves is_open f returned)
  then show ?thesis using ending_gui [of p is_open f returned] assms(1,3) by simp
qed

lemma ending_finite:
  assumes "ending p"
  shows "\<nexists>run. run 0 = p \<and> (\<forall>i. process_step iter (run i) (run (Suc i)) \<and> run (Suc i) \<noteq> run i)"
proof
  assume "\<exists>run. run 0 = p \<and> (\<forall>i. process_step iter (run i) (run (Suc i)) \<and> run (Suc i) \<noteq> run i)"
  then obtain run where run: "run 0 = p" "\<And>i. process_step iter (run i) (run (Suc i)) \<and> run (Suc i) \<noteq> run i" by blast
  have "ending (run i)" for i by (induction i) (use run assms ending_step in auto)
  then have "(run (Suc i), run i) \<in> steps_left" for i using run(2) ending_step by blast
  then show False using wf_no_infinite_down_chainE [OF wf_measures] by metis
qed

subsection \<open>A thread that is not interrupted\<close>

lemma reader_run: "\<not> exited p \<Longrightarrow> process_run iter p (reader_step iter call p)"
proof -
  assume p: "\<not> exited p"
  have "call = map_option (wait_for_fd Linux) (map_option (\<lambda>ready. if ready then 1 else 0) call)"
    by (cases call) (simp_all add: wait_for_fd_def)
  then show ?thesis using process_next [OF process_begin reader_moves [OF p]] by metis
qed

lemma gui_run_step: "\<not> exited p \<Longrightarrow> process_run iter p (gui_step is_open f returned p)"
  by (rule process_next [OF process_begin gui_moves])

lemma sending_done:
  "p_reader p = Sending bs r \<Longrightarrow> a_window (p_app p) \<Longrightarrow> \<not> exited p \<Longrightarrow>
   process_run iter p (p\<lparr>p_app := (p_app p)\<lparr>a_channel := a_channel (p_app p) @ bs\<rparr>, p_reader := Sending [] r\<rparr>)"
proof (induction bs arbitrary: p)
  case Nil
  have "p\<lparr>p_app := (p_app p)\<lparr>a_channel := a_channel (p_app p) @ []\<rparr>, p_reader := Sending [] r\<rparr> = p" using Nil(1) by (cases p) simp
  then show ?case using process_begin by metis
next
  case (Cons b bs)
  let ?q = "p\<lparr>p_app := (p_app p)\<lparr>a_channel := a_channel (p_app p) @ [b]\<rparr>, p_reader := Sending bs r\<rparr>"
  have "reader_step iter None p = ?q" using Cons.prems by (simp add: reader_step_def Let_def)
  then have "process_run iter p ?q" using reader_run [OF Cons.prems(3), of iter None] by simp
  moreover have "process_run iter ?q (?q\<lparr>p_app := (p_app ?q)\<lparr>a_channel := a_channel (p_app ?q) @ bs\<rparr>, p_reader := Sending [] r\<rparr>)"
    by (rule Cons.IH) (use Cons.prems in \<open>simp_all add: exited_def\<close>)
  ultimately show ?case using run_trans by fastforce
qed

text \<open>The steps of the reading thread make a round of its loop, when the lock is free and its calls return.\<close>

lemma round_alone:
  assumes "p_reader p = AtHead" "a_reader (p_app p)" "\<not> exited p" "\<not> gui_holds p" "fst (rdp_read iter (a_client (p_app p))) \<noteq> Diverge"
  shows "\<exists>q. process_run iter p q \<and> p_app q = rdp_thread_round iter ready (p_app p) \<and> p_gui q = p_gui p \<and> p_width q = p_width p
     \<and> (p_reader q = AtHead \<or> p_reader q = Stopped \<or> p_reader q = Panicked)"
proof (cases "ready \<and> a_sync (p_app p)")
  case False
  then show ?thesis using assms
    by (intro exI [of _ "reader_step iter (Some ready) p"] conjI reader_run) (auto simp: reader_step_def Let_def rdp_thread_round_def)
next
  case True
  let ?p = "p\<lparr>p_reader := AtLock\<rparr>"
  have 1: "process_run iter p ?p" using reader_run [OF assms(3), of iter "Some ready"] True assms(1) by (simp add: reader_step_def Let_def)
  have ex: "\<not> exited ?p" using assms(3) by (simp add: exited_def)
  show ?thesis
  proof (cases "a_poisoned (p_app p)")
    case poisoned: True
    then show ?thesis using True assms run_trans [OF reader_run [OF ex, of iter None] 1]
      by (intro exI [of _ "reader_step iter None ?p"]) (auto simp: reader_step_def Let_def rdp_thread_round_def)
  next
    case False
    obtain r c where c: "rdp_read iter (a_client (p_app p)) = (r, c)" by fastforce
    let ?bs = "bitmaps_of (drop (length (s_events (a_client (p_app p)))) (s_events c))"
    let ?w = "?p\<lparr>p_reader := Reading\<rparr>"
    let ?q = "?p\<lparr>p_app := (p_app p)\<lparr>a_client := c\<rparr>, p_reader := Sending ?bs r\<rparr>"
    have "reader_step iter None ?p = ?w" using False assms(4) by (simp add: reader_step_def Let_def)
    then have 2: "process_run iter p ?w" using run_trans [OF reader_run [OF ex, of iter None] 1] by simp
    have "\<not> exited ?w" "reader_step iter (Some ready) ?w = ?q" using assms(3) c by (simp_all add: exited_def reader_step_def Let_def)
    then have 3: "process_run iter p ?q" using run_trans [OF reader_run [of ?w iter "Some ready"] 2] by simp
    have ex: "\<not> exited ?q" using assms(3) by (simp add: exited_def)
    show ?thesis
    proof (cases "?bs = [] \<or> a_window (p_app p)")
      case closed: False
      then show ?thesis using True assms False c run_trans [OF reader_run [OF ex, of iter None] 3]
        by (intro exI [of _ "reader_step iter None ?q"])
          (auto simp: reader_step_def Let_def rdp_thread_round_def split: list.split)
    next
      case sent: True
      let ?s = "?q\<lparr>p_app := (p_app ?q)\<lparr>a_channel := a_channel (p_app p) @ ?bs\<rparr>, p_reader := Sending [] r\<rparr>"
      have "process_run iter ?q ?s"
      proof (cases "?bs = []")
        case True
        then have "?s = ?q" by simp
        then show ?thesis using process_begin by metis
      next
        case False
        then show ?thesis using sending_done [of ?q ?bs r iter] sent ex by simp
      qed
      then have 4: "process_run iter p ?s" using run_trans 3 by blast
      have "\<not> exited ?s" using assms(3) by (simp add: exited_def)
      then have "process_run iter p (reader_step iter None ?s)" using run_trans [OF reader_run 4] by blast
      then show ?thesis using True assms False c sent
        by (intro exI [of _ "reader_step iter None ?s"])
          (auto simp: reader_step_def Let_def rdp_thread_round_def split: outcome.split error.split)
    qed
  qed
qed

text \<open>The steps of the window loop from one place to the next do what a program does, when the lock is free.\<close>

definition ends_at :: "('b \<Rightarrow> gui) \<Rightarrow> 'b outcome \<Rightarrow> gui" where
  "ends_at k r = (case r of Ok b \<Rightarrow> k b | Err e \<Rightarrow> Exited (Panic UnwrapFailed) | Panic x \<Rightarrow> Exited (Panic x) | Diverge \<Rightarrow> Exited Diverge)"

definition performs :: "id_order \<Rightarrow> nat \<Rightarrow> gui \<Rightarrow> (app, 'b) prog \<Rightarrow> ('b \<Rightarrow> gui) \<Rightarrow> bool" where
  "performs iter width g m k \<longleftrightarrow> (\<forall>p. p_gui p = g \<and> \<not> lock_held p \<and> p_width p = width \<longrightarrow>
     process_run iter p (p\<lparr>p_app := snd (m (p_app p)), p_gui := ends_at k (fst (m (p_app p)))\<rparr>))"

lemma performsD:
  "performs iter width g m k \<Longrightarrow> p_gui p = g \<Longrightarrow> \<not> lock_held p \<Longrightarrow> p_width p = width \<Longrightarrow>
   process_run iter p (p\<lparr>p_app := snd (m (p_app p)), p_gui := ends_at k (fst (m (p_app p)))\<rparr>)"
  by (simp add: performs_def)

lemma gui_run_ends: "gui_run m k p = p\<lparr>p_app := snd (m (p_app p)), p_gui := ends_at k (fst (m (p_app p)))\<rparr>"
  by (cases "m (p_app p)") (auto simp: gui_run_def ends_at_def split: outcome.split)

lemma performs_step:
  assumes "\<And>r. g \<noteq> Exited r" "\<And>p. p_gui p = g \<Longrightarrow> \<not> lock_held p \<Longrightarrow> p_width p = width \<Longrightarrow> gui_step is_open f returned p = gui_run m k p"
  shows "performs iter width g m k"
proof -
  have "\<not> exited p" if "p_gui p = g" for p using assms(1) that by (simp add: exited_def split: gui.split)
  then show ?thesis unfolding performs_def using gui_run_step assms(2) gui_run_ends by metis
qed

lemma performs_bindp:
  assumes "performs iter width g m k" "\<And>b. performs iter width (k b) (f b) h"
  shows "performs iter width g (bindp m f) h"
  unfolding performs_def
proof (intro allI impI)
  fix p assume p: "p_gui p = g \<and> \<not> lock_held p \<and> p_width p = width"
  obtain r a where m: "m (p_app p) = (r, a)" by fastforce
  let ?q = "p\<lparr>p_app := a, p_gui := ends_at k r\<rparr>"
  have 1: "process_run iter p ?q" using assms(1) p m by (fastforce simp: performs_def)
  show "process_run iter p (p\<lparr>p_app := snd (bindp m f (p_app p)), p_gui := ends_at h (fst (bindp m f (p_app p)))\<rparr>)"
  proof (cases r)
    case (Ok b)
    then have "process_run iter ?q (?q\<lparr>p_app := snd (f b (p_app ?q)), p_gui := ends_at h (fst (f b (p_app ?q)))\<rparr>)"
      using performsD [OF assms(2) [of b], of ?q] p by (simp add: ends_at_def)
    then show ?thesis using run_trans [OF _ 1] m Ok by (simp add: bindp_def)
  qed (use 1 m in \<open>simp_all add: bindp_def ends_at_def\<close>)
qed

lemma performs_move:
  assumes "\<And>p. p_gui p = g \<Longrightarrow> p_width p = width \<Longrightarrow> \<not> exited p \<and> gui_step is_open f returned p = p\<lparr>p_gui := h\<rparr>" "performs iter width h m k"
  shows "performs iter width g m k"
  unfolding performs_def
proof (intro allI impI)
  fix p assume p: "p_gui p = g \<and> \<not> lock_held p \<and> p_width p = width"
  have 1: "process_run iter p (p\<lparr>p_gui := h\<rparr>)" using gui_run_step [of p iter is_open f returned] assms(1) [of p] p by simp
  have "process_run iter (p\<lparr>p_gui := h\<rparr>) (p\<lparr>p_app := snd (m (p_app p)), p_gui := ends_at k (fst (m (p_app p)))\<rparr>)"
    using performsD [OF assms(2), of "p\<lparr>p_gui := h\<rparr>"] p by simp
  then show "process_run iter p (p\<lparr>p_app := snd (m (p_app p)), p_gui := ends_at k (fst (m (p_app p)))\<rparr>)"
    using run_trans 1 by blast
qed

lemma drain_alone: "performs iter width (AtMouse f) m h \<Longrightarrow> performs iter width (Draining f n) (bindp (gui_drain width n) (\<lambda>_. m)) h"
proof (induction n)
  case 0
  have "bindp (gui_drain width 0) (\<lambda>_. m) = m" by (simp add: bindp_def retp_def)
  then show ?case using 0 performs_move [of "Draining f 0" width False f True "AtMouse f" iter m h] by (simp add: gui_step_def exited_def)
next
  case (Suc n)
  have "performs iter width (Draining f (Suc n)) (gui_receive width) (\<lambda>next_one. if next_one then Draining f n else AtMouse f)"
    by (rule performs_step [of _ _ False f True]) (simp_all add: gui_step_def)
  moreover have "performs iter width (if b then Draining f n else AtMouse f) (bindp (if b then gui_drain width n else retp ()) (\<lambda>_. m)) h" for b
    using Suc by (simp add: bindp_def [of "retp ()"] retp_def)
  ultimately show ?case unfolding gui_drain.simps bindp_assoc by (rule performs_bindp)
qed

text \<open>Where the lock is needed, it is taken first, unless it is poisoned.\<close>

lemma performs_locked:
  assumes "\<And>r. g \<noteq> Exited r" "\<And>r. h \<noteq> Exited r"
    and "\<And>p. p_gui p = g \<Longrightarrow> gui_step is_open f True p = under_lock needed h (gui_run m k) p"
    and "\<And>p. p_gui p = h \<Longrightarrow> gui_step is_open f True p = gui_run m k p"
  shows "performs iter width g m k"
  unfolding performs_def gui_run_ends [symmetric]
proof (intro allI impI)
  fix p assume p: "p_gui p = g \<and> \<not> lock_held p \<and> p_width p = width"
  have ex: "\<not> exited p" "\<not> exited (p\<lparr>p_gui := h\<rparr>)" using assms(1,2) p by (simp_all add: exited_def split: gui.split)
  have "process_run iter p (gui_step is_open f True p)" using gui_run_step [OF ex(1)] .
  moreover have "process_run iter (p\<lparr>p_gui := h\<rparr>) (gui_run m k p)"
  proof -
    have "gui_run m k (p\<lparr>p_gui := h\<rparr>) = gui_run m k p" by (simp add: gui_run_def split: prod.split)
    then show ?thesis using gui_run_step [OF ex(2), of iter is_open f True] assms(4) [of "p\<lparr>p_gui := h\<rparr>"] by simp
  qed
  moreover have "gui_step is_open f True p = gui_run m k p \<or> gui_step is_open f True p = p\<lparr>p_gui := h\<rparr>"
    using p assms(3) [of p] by (simp add: under_lock_def)
  ultimately show "process_run iter p (gui_run m k p)" using run_trans by metis
qed

lemma frame_alone: "performs iter width (Draining f (f_budget f)) (gui_frame width f) (\<lambda>_. LoopHead)"
proof -
  have mouse: "performs iter width (AtMouse f) (gui_mouse f) (\<lambda>_. AtKeyboard f)"
    by (rule performs_locked [of _ "InMouse f" False f "f_position f \<noteq> None"]) (simp_all add: gui_step_def)
  have keys: "performs iter width (AtKeyboard f) (gui_keyboard f) (\<lambda>_. AtUpdate f)"
    by (rule performs_locked [of _ "InKeyboard f" False f "f_keys f \<noteq> None"]) (simp_all add: gui_step_def)
  have update: "performs iter width (AtUpdate f) (gui_update f) (\<lambda>_. LoopHead)"
    by (rule performs_step [of _ _ False f True]) (simp_all add: gui_step_def)
  show ?thesis
    unfolding gui_frame_def
    by (rule drain_alone, rule performs_bindp [OF mouse], rule performs_bindp [OF keys], rule update)
qed

lemma close_alone: "performs iter width Closing gui_close (\<lambda>_. Joining)"
proof -
  have "performs iter width Closing (modp (\<lambda>a. a\<lparr>a_sync := False\<rparr>)) (\<lambda>_. AtShutdown)"
    by (rule performs_step [of _ _ False undefined True]) (simp_all add: gui_step_def)
  moreover have "performs iter width AtShutdown gui_shutdown (\<lambda>_. Joining)"
    by (rule performs_locked [of _ InShutdown False undefined True]) (simp_all add: gui_step_def)
  ultimately show ?thesis unfolding gui_close_def by (intro performs_bindp)
qed

text \<open>The steps of the main thread make its whole loop.\<close>

lemma loop_alone: "performs iter width LoopHead (main_gui_loop width fs) (\<lambda>_. Joining)"
proof (induction fs)
  case Nil
  show ?case using performs_move [OF _ close_alone, of LoopHead width False undefined True] by (simp add: gui_step_def exited_def)
next
  case (Cons f fs)
  show ?case
    unfolding performs_def
  proof (intro allI impI)
    fix p assume p: "p_gui p = LoopHead \<and> \<not> lock_held p \<and> p_width p = width"
    let ?k = "if a_sync (p_app p) then Draining f (f_budget f) else Closing"
    let ?m = "if a_sync (p_app p) then bindp (gui_frame width f) (\<lambda>_. main_gui_loop width fs) else gui_close"
    have same: "main_gui_loop width (f # fs) (p_app p) = ?m (p_app p)" by (simp add: bindp_def getp_def)
    have 1: "process_run iter p (p\<lparr>p_gui := ?k\<rparr>)"
      using gui_run_step [of p iter True f True] p by (simp add: gui_step_def exited_def)
    have "performs iter width ?k ?m (\<lambda>_. Joining)"
      using performs_bindp [OF frame_alone Cons] close_alone by simp
    from performsD [OF this, of "p\<lparr>p_gui := ?k\<rparr>"]
    have 2: "process_run iter (p\<lparr>p_gui := ?k\<rparr>) (p\<lparr>p_app := snd (?m (p_app p)), p_gui := ends_at (\<lambda>_. Joining) (fst (?m (p_app p)))\<rparr>)"
      using p by simp
    show "process_run iter p (p\<lparr>p_app := snd (main_gui_loop width (f # fs) (p_app p)),
        p_gui := ends_at (\<lambda>_. Joining) (fst (main_gui_loop width (f # fs) (p_app p)))\<rparr>)"
      unfolding same by (rule run_trans [OF 2 1])
  qed
qed

subsection \<open>The default command line\<close>

text \<open>What the command line parser returns when only the target is given.\<close>

definition only_target :: "rstring \<Rightarrow> arg_matches \<Rightarrow> bool" where
  "only_target ip args \<longleftrightarrow> (\<forall>s \<in> set mstsc_args.
     value_of args (arg_name s) = (if arg_name s = ''target'' then Some ip else map_option (map of_char) (arg_default s))
     \<and> (\<not> arg_takes_value s \<and> arg_default s = None \<longrightarrow> \<not> is_present args (arg_name s)))"

text \<open>
  Then the program connects to port 3389 with the standard screen, no credentials, network level
  authentication, and without checking the certificate.
\<close>

lemma default_values:
  "parse_unsigned 65536 (map of_char ''1600'') = Some 1600" "parse_unsigned 65536 (map of_char ''1200'') = Some 1200"
  "keyboard_layout_from (map of_char ''us'') = US"
  by (simp_all add: parse_unsigned_def keyboard_layout_from_def)

lemma default_command_line:
  assumes "only_target ip args"
  shows "connector_from_args hex args = Ok (set_name (map of_char ''mstsc-rs'') (screen 1600 1200 connector_new))"
    and "tcp_from_args host args = (case parse_address host (ip @ map of_char '':3389'') of None \<Rightarrow> Err (rdp_err InvalidData)
       | Some addr \<Rightarrow> (case tcp_connect host addr of None \<Rightarrow> Panic UnwrapFailed
         | Some tcp \<Rightarrow> if set_nodelay host tcp then Ok tcp else Err (rdp_err InvalidData)))"
proof -
  have v: "value_of args ''target'' = Some ip" "value_of args ''port'' = Some (map of_char ''3389'')"
      "value_of args ''width'' = Some (map of_char ''1600'')" "value_of args ''height'' = Some (map of_char ''1200'')"
      "value_of args ''domain'' = Some []" "value_of args ''username'' = Some []" "value_of args ''password'' = Some []"
      "value_of args ''hash'' = None" "value_of args ''layout'' = Some (map of_char ''us'')" "value_of args ''name'' = Some (map of_char ''mstsc-rs'')"
      "\<not> is_present args ''admin''" "\<not> is_present args ''auto_logon''" "\<not> is_present args ''blank_creds''"
      "\<not> is_present args ''check_certificate''" "\<not> is_present args ''disable_nla''"
    using assms by (simp_all add: only_target_def mstsc_args_def)
  show "connector_from_args hex args = Ok (set_name (map of_char ''mstsc-rs'') (screen 1600 1200 connector_new))"
    using default_values
    by (simp add: connector_from_args_def arg_u16_def v Let_def) (simp add: connector_new_def screen_def credentials_def set_restricted_admin_mode_def auto_logon_def blank_creds_def
        layout_def check_certificate_def set_name_def use_nla_def)
  show "tcp_from_args host args = (case parse_address host (ip @ map of_char '':3389'') of None \<Rightarrow> Err (rdp_err InvalidData)
       | Some addr \<Rightarrow> (case tcp_connect host addr of None \<Rightarrow> Panic UnwrapFailed
         | Some tcp \<Rightarrow> if set_nodelay host tcp then Ok tcp else Err (rdp_err InvalidData)))"
    by (simp add: tcp_from_args_def v unwrap_option_def split: option.split)
qed

subsection \<open>An example\<close>

definition sample_frame :: frame where
  "sample_frame = \<lparr>f_budget = 0, f_position = Some (1, 1), f_buttons = \<lparr>left_down = False, middle_down = False, right_down = False\<rparr>, f_keys = None, f_pressed = (\<lambda>k. False), f_updated = True\<rparr>"

definition sample_matches :: arg_matches where
  "sample_matches = \<lparr>value_of = map_of [(''target'', map of_char ''10.0.0.1''), (''port'', map of_char ''3389''),
       (''width'', map of_char ''800''), (''height'', map of_char ''600''), (''domain'', [100]), (''username'', [117]),
       (''password'', [112]), (''layout'', map of_char ''us''), (''name'', map of_char ''rdp-rs'')],
     is_present = (\<lambda>name. name = ''check_certificate'' \<or> name = ''disable_nla'')\<rparr>"

definition sample_host :: "rstring host" where
  "sample_host = \<lparr>get_matches = (\<lambda>specs line. Some sample_matches), hex_decode = (\<lambda>text. None), parse_address = Some,
     tcp_connect = (\<lambda>addr. Some (sample_stream (confirm_frame ProtocolSSL))), set_nodelay = (\<lambda>tcp. True),
     new_window = (\<lambda>width height. Some (4, 3))\<rparr>"

lemma sample_numbers:
  "parse_unsigned n (map of_char ''800'') = (if 800 < n then Some 800 else None)"
  "parse_unsigned n (map of_char ''600'') = (if 600 < n then Some 600 else None)"
  by (auto simp: parse_unsigned_def)

lemma sample_starts: "\<exists>client. main_start sample_environment sample_host [] = Ok (Some (process_start client 4 3))"
proof -
  obtain client where c: "connector_connect sample_environment sample_connector (sample_stream (confirm_frame ProtocolSSL)) = Ok client"
    using sample_connects by blast
  have "connector_from_args hex sample_matches = Ok sample_connector" for hex
    by (simp add: connector_from_args_def arg_u16_def sample_matches_def sample_numbers keyboard_layout_from_def Let_def del: list.map)
      (simp add: sample_connector_def connector_new_def screen_def credentials_def set_restricted_admin_mode_def auto_logon_def blank_creds_def
        layout_def check_certificate_def set_name_def use_nla_def)
  moreover have "tcp_from_args sample_host sample_matches = Ok (sample_stream (confirm_frame ProtocolSSL))"
    by (simp add: tcp_from_args_def sample_matches_def sample_host_def unwrap_option_def)
  moreover have "window_from_args sample_host sample_matches = Ok (4, 3)"
    by (simp add: window_from_args_def arg_usize_def sample_matches_def sample_numbers sample_host_def del: list.map)
  moreover have "get_matches sample_host mstsc_args [] = Some sample_matches" by (simp add: sample_host_def)
  ultimately show ?thesis using c unfolding main_start_Some rdp_from_args_def by auto
qed

text \<open>The first read of a program begins and returns.\<close>

lemma start_begins:
  "process_run iter (process_start client w h) ((process_start client w h)\<lparr>p_reader := Reading\<rparr>)"
proof -
  let ?s = "process_start client w h"
  have "process_run iter ?s (reader_step iter None (reader_step iter (Some True) ?s))"
    by (rule run_trans [OF reader_run reader_run]) (simp_all add: exited_def process_start_def)
  then show ?thesis by (simp add: reader_step_def process_start_def app_start_def gui_holds_def)
qed

lemma start_reads:
  "\<exists>p. process_run iter (process_start client w h) p \<and> (\<exists>bs r. p_reader p = Sending bs r) \<and> a_window (p_app p) \<and> \<not> exited p"
proof -
  let ?p = "reader_step iter (Some True) ((process_start client w h)\<lparr>p_reader := Reading\<rparr>)"
  have "process_run iter (process_start client w h) ?p"
    by (rule run_trans [OF reader_run start_begins]) (simp add: exited_def process_start_def)
  moreover have "\<exists>bs r. p_reader ?p = Sending bs r" "a_window (p_app ?p)" "\<not> exited ?p"
    by (auto simp: reader_step_def process_start_def app_start_def exited_def Let_def split: prod.split)
  ultimately show ?thesis by blast
qed

subsection \<open>Properties\<close>

text \<open>
  C8. No bitmap is lost, repeated or overtaken on its way to the screen: after any steps of the
  two threads, until the window is closed or the process is over, the window's buffer is what drawing a prefix of the
  bitmaps gives that the client has delivered; the next ones wait in the channel, and those of the read
  that is going on, still to be sent, are the last, all in their order.
\<close>

theorem process_in_order:
  assumes "main_start env host line = Ok (Some start)" "process_run iter start p" "a_window (p_app p)" "\<not> exited p"
  shows "\<exists>drawn. drawn @ a_channel (p_app p) @ unsent p = bitmaps_of (s_events (a_client (p_app p)))
     \<and> draw_all (p_width start) drawn (a_buffer (p_app start)) = (Ok (), a_buffer (p_app p))"
proof -
  obtain c tcp client width height where c: "connector_connect env c tcp = Ok client" "start = process_start client width height"
    using start_connected [OF assms(1)] .
  have "ordered (p_width start) (a_buffer (p_app start)) start"
    using connector_established [OF c(1)] c(2) by (simp add: ordered_def process_start_def app_start_def unsent_def retp_def)
  then show ?thesis using run_ordered [OF assms(2)] assms(3,4) by (simp add: ordered_def)
qed

theorem process_in_order_witness:
  "\<exists>start p bs r. main_start sample_environment sample_host [] = Ok (Some start) \<and> process_run rev start p \<and> p_reader p = Sending bs r
     \<and> (\<exists>drawn. drawn @ a_channel (p_app p) @ bs = bitmaps_of (s_events (a_client (p_app p)))
       \<and> draw_all 4 drawn (replicate (4 * 3) 0) = (Ok (), a_buffer (p_app p)))"
proof -
  obtain client where s: "main_start sample_environment sample_host [] = Ok (Some (process_start client 4 3))"
    using sample_starts by blast
  let ?s = "process_start client 4 3"
  obtain p where run: "process_run rev ?s p" and p: "\<exists>bs r. p_reader p = Sending bs r" "a_window (p_app p)" "\<not> exited p"
    using start_reads [of rev client 4 3] by auto
  then show ?thesis
    using process_in_order [OF s run p(2,3)] s run by (fastforce simp: unsent_def process_start_def app_start_def)
qed

text \<open>
  C9. What can go wrong in the program: a read that the network lets end gives a value, an error, or the overflow of a
  length; the process is over with success or with a panic, which is
  an overflow, an index, an unwrapped error or a key without a code. While a read holds the lock the window
  loop does not touch the client, and until the shutdown both threads use the client as one client alone could be used, whatever their interleaving.
\<close>

theorem process_safe:
  assumes "main_start env host line = Ok (Some start)" "process_run (map_order env) start p"
  shows "(\<forall>bs r. p_reader p = Sending bs r \<longrightarrow> r = Ok () \<or> (\<exists>e. r = Err e) \<or> r = Panic ArithOverflow)
     \<and> (\<forall>r. p_gui p = Exited r \<longrightarrow> r = Ok () \<or> r \<in> {Panic ArithOverflow, Panic OutOfBounds, Panic UnwrapFailed, Panic ExplicitPanic})
     \<and> (lock_held p \<longrightarrow> a_client (p_app (gui_step is_open f returned p)) = a_client (p_app p))
     \<and> (a_window (p_app p) \<and> \<not> exited p \<longrightarrow> (\<exists>c tcp ps. connector_connect env c tcp = Ok (a_client (p_app start)) \<and> client_run env c tcp ps (a_client (p_app p))))"
proof -
  obtain c tcp client width height where c: "connector_connect env c tcp = Ok client" "start = process_start client width height"
    using start_connected [OF assms(1)] .
  have "a_client (p_app start) = client" using c(2) by (simp add: process_start_def app_start_def)
  moreover have "in_use env c tcp start" using client_run.connected [OF c(1)] c(2) by (auto simp: in_use_def used_def process_start_def app_start_def)
  then have "in_use env c tcp p" using run_in_use [OF assms(2)] by blast
  moreover have "sound p" using run_sound [OF assms(2) start_sound [OF assms(1)]] by blast
  ultimately show ?thesis using c(1) lock_excludes [of p is_open f returned] run_exclusive [OF assms(2) start_exclusive [OF assms(1)]] unfolding in_use_def used_def sound_def calm_iff by auto
qed

theorem process_safe_witness:
  "\<exists>start p bs r. main_start sample_environment sample_host [] = Ok (Some start) \<and> process_run (\<lambda>ids. ids) start p
     \<and> p_reader p = Sending bs r \<and> (r = Ok () \<or> (\<exists>e. r = Err e) \<or> r = Panic ArithOverflow)"
proof -
  obtain client where s: "main_start sample_environment sample_host [] = Ok (Some (process_start client 4 3))"
    using sample_starts by blast
  let ?s = "process_start client 4 3"
  obtain p where run: "process_run (\<lambda>ids. ids) ?s p" and "\<exists>bs r. p_reader p = Sending bs r"
    using start_reads [of "\<lambda>ids. ids" client 4 3] by auto
  then show ?thesis
    using process_safe [OF s, unfolded sample_order, OF run] s run by blast
qed

text \<open>
  C10. The two threads never wait only for each other: while the process is not over, either a step without the network changes
  it, or a thread is in a call into the network (\<open>select\<close>, a read, or the writes of the window loop) and the return of that call
  changes it. But a read that has not returned holds the lock: whatever the window loop does, it then stays where it needs the
  lock, before the mouse, the keyboard or the shutdown, as long as the server sends nothing more. After the window loop has lowered the flag,
  every sequence of steps that change something is finite, so both threads come to their end if the calls into the network return; and
  the process ends with success only after the reading thread has stopped and the client was shut down.
\<close>

theorem process_ends:
  assumes "main_start env host line = Ok (Some start)" "process_run (map_order env) start p"
  shows "(\<not> exited p \<longrightarrow> (\<exists>q. silent_step (map_order env) p q \<and> q \<noteq> p)
        \<or> awaits_network p \<and> (\<exists>q. process_step (map_order env) p q \<and> q \<noteq> p))
     \<and> (p_reader p = Reading \<and> wants_lock (p_gui p) \<longrightarrow> (\<forall>q. silent_step (map_order env) p q \<longrightarrow> q = p))
     \<and> (p_gui p \<in> {AtShutdown, InShutdown, Joining} \<longrightarrow>
        (\<nexists>run. run 0 = p \<and> (\<forall>i. process_step (map_order env) (run i) (run (Suc i)) \<and> run (Suc i) \<noteq> run i)))
     \<and> (p_gui p = Exited (Ok ()) \<longrightarrow> p_reader p = Stopped \<and> \<not> a_window (p_app p))"
proof -
  have p: "sound p" "phased p" using run_sound [OF assms(2) start_sound [OF assms(1)]] by blast+
  have x: "exclusive p" using run_exclusive [OF assms(2)] start_exclusive [OF assms(1)] by blast
  have "ending p" if "p_gui p \<in> {AtShutdown, InShutdown, Joining}" using that p(2) by (auto simp: ending_def phased_def)
  then show ?thesis
    using blocked_awaits [OF p(1) x] network_releases read_blocks_window ending_finite p(2) unfolding phased_def by blast
qed

text \<open>
  Both are possible: the end after a closed window, and a window that stops at its first mouse position because the server has sent
  the first bytes of a message and no more.
\<close>

theorem process_ends_witness:
  "\<exists>start p q. main_start sample_environment sample_host [] = Ok (Some start)
     \<and> process_run (\<lambda>ids. ids) start p \<and> p_gui p = AtShutdown
     \<and> (\<nexists>run. run 0 = p \<and> (\<forall>i. process_step (\<lambda>ids. ids) (run i) (run (Suc i)) \<and> run (Suc i) \<noteq> run i))
     \<and> process_run (\<lambda>ids. ids) start q \<and> p_reader q = Reading \<and> wants_lock (p_gui q) \<and> (\<forall>r. silent_step (\<lambda>ids. ids) q r \<longrightarrow> r = q)"
proof -
  obtain client where s: "main_start sample_environment sample_host [] = Ok (Some (process_start client 4 3))"
    using sample_starts by blast
  let ?step = "gui_step False undefined False" and ?s = "process_start client 4 3"
  have live: "\<not> exited ?s" "\<not> exited (?step ?s)" by (simp_all add: exited_def process_start_def gui_step_def)
  have run: "process_run (\<lambda>ids. ids) ?s (?step (?step ?s))" using run_trans [OF gui_run_step gui_run_step] live by blast
  have at: "p_gui (?step (?step ?s)) = AtShutdown" by (simp add: gui_step_def process_start_def gui_run_gui modp_def)
  let ?move = "gui_step True sample_frame False" and ?r = "?s\<lparr>p_reader := Reading\<rparr>"
  have moves: "?move ?r = ?r\<lparr>p_gui := Draining sample_frame 0\<rparr>" "?move (?r\<lparr>p_gui := Draining sample_frame 0\<rparr>) = ?r\<lparr>p_gui := AtMouse sample_frame\<rparr>"
    by (simp_all add: gui_step_def process_start_def app_start_def sample_frame_def)
  have "\<not> exited ?r" "\<not> exited (?r\<lparr>p_gui := Draining sample_frame 0\<rparr>)" by (simp_all add: exited_def process_start_def)
  then have stalled: "process_run (\<lambda>ids. ids) ?s (?r\<lparr>p_gui := AtMouse sample_frame\<rparr>)"
    using run_trans [OF run_trans [OF gui_run_step gui_run_step] start_begins] moves by metis
  moreover have wants: "wants_lock (p_gui (?r\<lparr>p_gui := AtMouse sample_frame\<rparr>))" by (simp add: wants_lock_def sample_frame_def)
  moreover have "\<forall>q. silent_step (\<lambda>ids. ids) (?r\<lparr>p_gui := AtMouse sample_frame\<rparr>) q \<longrightarrow> q = ?r\<lparr>p_gui := AtMouse sample_frame\<rparr>"
    using process_ends [OF s, unfolded sample_order, OF stalled] wants by simp
  moreover have "\<nexists>run. run 0 = ?step (?step ?s) \<and> (\<forall>i. process_step (\<lambda>ids. ids) (run i) (run (Suc i)) \<and> run (Suc i) \<noteq> run i)"
    using process_ends [OF s, unfolded sample_order, OF run] at by simp
  moreover have "p_reader (?r\<lparr>p_gui := AtMouse sample_frame\<rparr>) = Reading" by simp
  ultimately show ?thesis using s run at by blast
qed

end
