(* ===== verification/Vectors.thy ===== *)
theory Vectors imports Program_Laws begin

section \<open>The repository's own examples\<close>

text \<open>
  The byte strings that the unit tests of the sources, and the examples in their documentation, expect, computed by the model. Only the
  tests of the digests are left out, which are parameters here.
\<close>

lemmas vector_simps = u8_write_def u16_write_def u32_write_def slice_write_def add_filter_def addw_def subw_def mcs_pdu_header_def Let_def
  u16_be_def u32_be_def u16_le_def u32_le_def u32_length_def slice_length_def to_vec_def sized_def dyn_options_def write_length_bytes
  u8_length_def u16_length_def unat_word_ariths option_write_def
lemmas header_simps = pdu_from_stream_bytes data_pdu_bytes le_u16_def le_u32_def Let_def data_pdu_from_pdu_def pdu_type2_of_def pdu_types2_def cast_u8_def cast_slice_def
lemmas body_simps = ts_synchronize_pdu_def ts_control_pdu_def ts_font_map_pdu_def on_buffer_def read_defs option_read_def cast_u16_def
  val_eq_def dyn_options_def le_u16_def le_u32_def

subsection \<open>Transport\<close>

lemma test_write_tpkt_header:
  "bindo (tpkt_header 4) (\<lambda>header. write_msg (MTrame [header, MU32 (BE 1)])) = Ok [3, 0, 0, 8, 0, 0, 0, 1]"
  by (simp add: vector_simps tpkt_header_def)

lemma test_rdp_neg_req: "write_msg (rdp_neg_req (Some TypeRDPNegRsp) (Some 1) (Some 0)) = Ok [2, 0, 8, 0, 1, 0, 0, 0]"
  by code_simp

lemma test_x224_crq: "bindo (x224_crq 20 X224TPDUData) write_msg = Ok [26, 240, 0, 0, 0, 0, 0]"
  by code_simp

lemma test_x224_header: "write_msg x224_header = Ok [2, 240, 128]"
  by code_simp

lemma test_x224_connection_pdu:
  "bindo (x224_connection_pdu (Some TypeRDPNegReq) (Some 0) (Some 3)) write_msg = Ok [14, 224, 0, 0, 0, 0, 0, 1, 0, 8, 0, 3, 0, 0, 0]"
  by code_simp

subsection \<open>The packed encoding rules\<close>

text \<open>The examples in the documentation of the functions.\<close>

lemma example_read_length: "fst (read_length [0x10]) = Ok 0x10" "fst (read_length [0x81, 0x10]) = Ok 0x110"
  by (simp_all add: read_length_one read_length_two)

lemma example_write_length: "write_msg (write_length 0x10) = Ok [0x10]" "write_msg (write_length 0x110) = Ok [0x81, 0x10]"
  by (simp_all add: write_length_bytes u16_be_def)

lemma example_choices:
  "fst (read_choice [1]) = Ok 1" "fst (read_selection [1]) = Ok 1" "fst (read_number_of_set [1]) = Ok 1" "fst (read_enumerates [1]) = Ok 1"
  "write_choice 1 = Ok [1]" "write_selection 1 = Ok [1]" "write_number_of_set 1 = Ok [1]" "to_vec (write_enumerates 1) = Ok [1]"
  by (simp_all add: read_choice_def read_selection_def read_number_of_set_def read_enumerates_def u8_read_def bindp_def retp_def
      write_choice_def write_selection_def write_number_of_set_def write_enumerates_def u8_write_def to_vec_def)

lemma example_read_integer:
  "fst (read_integer [1, 1]) = Ok 1" "fst (read_integer [2, 0, 1]) = Ok 1" "fst (read_integer [4, 0, 0, 0, 1]) = Ok 1"
  "\<exists>e. fst (read_integer [0x67]) = Err e"
  by (simp_all add: read_integer_def read_length_one u8_read_def u16_read_def u32_read_def bindp_def retp_def failp_def be_u16_def be_u32_def)

lemma example_write_integer:
  "write_integer 1 = Ok [1, 1]" "write_integer 256 = Ok [2, 1, 0]" "write_integer 65536 = Ok [4, 0, 1, 0, 0]"
  by (simp_all add: write_integer_def write_length_bytes vector_simps)

lemma example_integer_16: "fst (read_integer_16 5 [0, 1]) = Ok 6" "write_integer_16 4 2 = Ok [0, 2]"
  by (simp_all add: read_integer_16_bytes write_integer_16_def be_u16_def vector_simps)

lemma example_object_identifier:
  "fst (read_object_identifier [0, 0, 20, 124, 0, 1] [5, 0, 20, 124, 0, 1]) = Ok True"
  "\<exists>e. fst (read_object_identifier [0, 0, 20, 124, 0, 1] [6, 0, 20, 124, 0, 1]) = Err e"
  "fst (read_object_identifier [1, 1, 20, 124, 0, 1] [5, 0x11, 20, 124, 0, 1]) = Ok True"
  "write_object_identifier [1, 2, 3, 4, 5, 6] = Ok [5, 0x12, 3, 4, 5, 6]"
  by (simp_all add: read_object_identifier_def write_object_identifier_def read_length_one u8_read_def bindp_def retp_def failp_def u8_write_def)
    (simp_all add: eval_nat_numeral)

lemma example_octet_stream:
  "fst (read_octet_stream [1, 2, 3] 0 [3, 1, 2, 3]) = Ok ()" "\<exists>e. fst (read_octet_stream [1, 2, 3] 0 [3, 1, 2, 4]) = Err e"
  by (simp_all add: read_octet_stream_def read_length_one u8_read_def bindp_def retp_def failp_def)

subsection \<open>MCS\<close>

lemma test_read_attach_user_confirm: "read_attach_user_confirm [46, 0, 0, 3] = Ok 1004"
  by (simp add: attach_confirm_bytes addw_def be_u16_def)

lemma test_attach_user_request: "write_msg attach_user_request = Ok [40]"
  by code_simp

lemma test_erect_domain_request: "bindo erect_domain_request to_vec = Ok [4, 1, 0, 1, 0]"
  by (simp add: vector_simps erect_domain_request_def write_integer_def)

lemma test_channel_join_request: "bindo (channel_join_request None None) to_vec = Ok [56, 0, 0, 0, 0]"
  by (simp add: vector_simps channel_join_request_def)

subsection \<open>The global channel\<close>

lemma test_confirm_active_pdu:
  "bindo (capability_set (Some ts_brush_capability_set)) (\<lambda>c. bindo (ts_confirm_active_pdu (Some 4) (Some (map of_char ''rdp-rs'')) (Some ([c], None)))
     (\<lambda>p. write_msg (pdu_message p)))
   = Ok [4, 0, 0, 0, 234, 3, 6, 0, 12, 0, 114, 100, 112, 45, 114, 115, 1, 0, 0, 0, 15, 0, 8, 0, 0, 0, 0, 0]"
  by (simp add: vector_simps capability_set_def ts_brush_capability_set_def ts_confirm_active_pdu_def)

lemma test_share_control_header:
  "bindo (capability_set (Some ts_brush_capability_set)) (\<lambda>c. bindo (ts_confirm_active_pdu (Some 4) (Some (map of_char ''rdp-rs'')) (Some ([c], None)))
     (\<lambda>p. bindo (to_vec (pdu_message p)) (\<lambda>bs. bindo (share_control_header (Some PdutypeConfirmactivepdu) (Some 12) (Some bs)) write_msg)))
   = Ok [34, 0, 19, 0, 12, 0, 4, 0, 0, 0, 234, 3, 6, 0, 12, 0, 114, 100, 112, 45, 114, 115, 1, 0, 0, 0, 15, 0, 8, 0, 0, 0, 0, 0]"
  by (simp add: vector_simps capability_set_def ts_brush_capability_set_def ts_confirm_active_pdu_def share_control_header_def slice_length_def)

lemma test_read_synchronize_pdu:
  "read_synchronize_pdu [22, 0, 23, 0, 234, 3, 234, 3, 1, 0, 0, 2, 22, 0, 31, 0, 0, 0, 1, 0, 0, 0] = Ok True"
  by (simp add: read_synchronize_pdu_def header_simps) (simp add: body_simps)

lemma test_read_control_cooperate_pdu:
  "read_control_pdu [26, 0, 23, 0, 234, 3, 234, 3, 1, 0, 0, 2, 26, 0, 20, 0, 0, 0, 4, 0, 0, 0, 0, 0, 0, 0] CtrlactionCooperate = Ok True"
  by (simp add: read_control_pdu_def header_simps) (simp add: body_simps)

lemma test_read_control_granted_pdu:
  "read_control_pdu [26, 0, 23, 0, 234, 3, 234, 3, 1, 0, 0, 2, 26, 0, 20, 0, 0, 0, 2, 0, 236, 3, 234, 3, 0, 0] CtrlactionGrantedControl = Ok True"
  by (simp add: read_control_pdu_def header_simps) (simp add: body_simps)

lemma test_read_font_map_pdu:
  "read_font_map_pdu [26, 0, 23, 0, 234, 3, 234, 3, 1, 0, 0, 2, 26, 0, 40, 0, 0, 0, 0, 0, 0, 0, 3, 0, 4, 0] = Ok True"
  by (simp add: read_font_map_pdu_def header_simps) (simp add: body_simps)

subsection \<open>ASN.1\<close>

text \<open>The trees of the model as bytes, with the writer of the theory \<open>Der\<close>.\<close>

lemmas tree_simps = der_simps domain_parameters_def

lemma test_domain_parameters:
  "to_der der_writer (domain_parameters 1 2 3 4 5 6 7 8)
   = [48, 24, 2, 1, 1, 2, 1, 2, 2, 1, 3, 2, 1, 4, 2, 1, 5, 2, 1, 6, 2, 1, 7, 2, 1, 8]"
  by (simp add: tree_simps)

lemma test_connect_initial:
  "to_der der_writer (connect_initial (Some [1, 2, 3]))
   = [127, 101, 103, 4, 1, 1, 4, 1, 1, 1, 1, 255, 48, 26, 2, 1, 34, 2, 1, 2, 2, 1, 0, 2, 1, 1, 2, 1, 0, 2, 1, 1, 2, 3, 0, 255, 255, 2, 1, 2,
     48, 25, 2, 1, 1, 2, 1, 1, 2, 1, 1, 2, 1, 1, 2, 1, 0, 2, 1, 1, 2, 2, 4, 32, 2, 1, 2, 48, 32, 2, 3, 0, 255, 255, 2, 3, 0, 252, 23,
     2, 3, 0, 255, 255, 2, 1, 1, 2, 1, 0, 2, 1, 1, 2, 3, 0, 255, 255, 2, 1, 2, 4, 3, 1, 2, 3]"
  by (simp add: tree_simps connect_initial_def)

lemma test_connect_response:
  "to_der der_writer (connect_response (Some [1, 2, 3]))
   = [127, 102, 39, 10, 1, 0, 2, 1, 0, 48, 26, 2, 1, 22, 2, 1, 3, 2, 1, 0, 2, 1, 1, 2, 1, 0, 2, 1, 1, 2, 3, 0, 255, 248, 2, 1, 2, 4, 3, 1, 2, 3]"
  by (simp add: tree_simps connect_response_def)

lemma test_create_ts_credentials:
  "create_ts_credentials der_writer (map (of_nat \<circ> of_char) ''domain'') (map (of_nat \<circ> of_char) ''user'') (map (of_nat \<circ> of_char) ''password'')
   = [48, 41, 160, 3, 2, 1, 1, 161, 34, 4, 32, 48, 30, 160, 8, 4, 6, 100, 111, 109, 97, 105, 110, 161, 6, 4, 4, 117, 115, 101, 114,
     162, 10, 4, 8, 112, 97, 115, 115, 119, 111, 114, 100]"
  by (simp add: tree_simps create_ts_credentials_def)

lemma test_create_ts_authinfo:
  "create_ts_authinfo der_writer [102, 111, 111] = [48, 12, 160, 3, 2, 1, 2, 162, 5, 4, 3, 102, 111, 111]"
  by (simp add: tree_simps create_ts_authinfo_def)

subsection \<open>NTLM\<close>

lemma test_ntlmv2_negotiate_message:
  "fst (create_negotiate_message s) = Ok [78, 84, 76, 77, 83, 83, 80, 0, 1, 0, 0, 0, 53, 130, 8, 96, 0, 0, 0, 0, 0, 0, 0, 0, 0, 0, 0, 0, 0, 0, 0, 0]"
  by (simp add: create_negotiate_message_def negotiate_message_def vector_simps version_option_def NTLMSSP_def bindp_def liftp_def zoom_def modp_def retp_def)

lemma test_unicode: "unicode (map of_char ''foo'') = [0x66, 0x00, 0x6F, 0x00, 0x6F, 0x00]"
  by (simp add: unicode_def encode_utf16_def u16_le_def)

lemma test_auth_message:
  defines "text \<equiv> map (of_nat \<circ> of_char)"
  shows "bindo (authenticate_message (text ''foo'') (text ''foo'') (text ''domain'') (text ''user'') (text ''workstation'') (text ''foo'') 0)
     (\<lambda>(m, payload). bindo (to_vec m) (\<lambda>bs. Ok (bs @ replicate 16 0 @ payload)))
   = Ok ([78, 84, 76, 77, 83, 83, 80, 0, 3, 0, 0, 0, 3, 0, 3, 0, 80, 0, 0, 0, 3, 0, 3, 0, 83, 0, 0, 0, 6, 0, 6, 0,
     86, 0, 0, 0, 4, 0, 4, 0, 92, 0, 0, 0, 11, 0, 11, 0, 96, 0, 0, 0, 3, 0, 3, 0, 107, 0, 0, 0, 0, 0, 0, 0] @ replicate 16 0
     @ [102, 111, 111, 102, 111, 111, 100, 111, 109, 97, 105, 110, 117, 115, 101, 114,
     119, 111, 114, 107, 115, 116, 97, 116, 105, 111, 110, 102, 111, 111])"
proof -
  obtain m p where m: "authenticate_message (text ''foo'') (text ''foo'') (text ''domain'') (text ''user'') (text ''workstation'') (text ''foo'') 0
      = Ok (m, p)"
    by (simp add: authenticate_message_def text_def addw_def Let_def)
  show ?thesis
    unfolding m using authenticate_written [OF m]
    by (simp add: text_def to_vec_def auth_header_def field_bytes_def version_bytes_def NTLMSSP_def u16_le_def u32_le_def Let_def)
qed

end
