(* ===== verification/Spec2Isabelle.thy ===== *)
theory Spec2Isabelle
  imports Prelude Bytes Message Message_Laws Message_Types Loops Per Rle Link Tpkt Channel X224 Asn1 Der Gcc Mcs License Mcs_Session Sec Capability Event Global Global_Laws Global_Machine Global_Events Rc4 Sspi Ntlm Ntlm_Laws Cssp Cssp_Laws Client Client_Laws Mstsc Mstsc_Laws Program Program_Laws Vectors
begin

text \<open>
  A model of rdp-rs, a client library of the Remote Desktop Protocol written in Rust, and of the
  window program that comes with it. Paths below are relative to the repository: the code is
  under \<^verbatim>\<open>src/src\<close>. Every operation is a function that computes, so concrete packets can be
  evaluated by the simplifier, and the statements marked C1 to C40 in the theories are the
  properties the development is about.

  \<^bold>\<open>The program.\<close> A connector takes a byte stream and builds the layers of the protocol one on the
  other. The link (\<^verbatim>\<open>model/link.rs\<close>) reads and writes bytes, raw or through TLS; TPKT
  (\<^verbatim>\<open>core/tpkt.rs\<close>) frames packets; X.224 (\<^verbatim>\<open>core/x224.rs\<close>) negotiates the security of the
  connection and may run CredSSP (\<^verbatim>\<open>nla/cssp.rs\<close>) with NTLM (\<^verbatim>\<open>nla/ntlm.rs\<close>, \<^verbatim>\<open>nla/rc4.rs\<close>) over
  TLS; MCS (\<^verbatim>\<open>core/mcs.rs\<close>) exchanges the conference blocks of GCC (\<^verbatim>\<open>core/gcc.rs\<close>) and joins the
  channels; the security layer (\<^verbatim>\<open>core/sec.rs\<close>) sends the user's data and reads the license
  (\<^verbatim>\<open>core/license.rs\<close>); the global channel (\<^verbatim>\<open>core/global.rs\<close>, \<^verbatim>\<open>core/capability.rs\<close>) finalises the
  connection by a state machine and then turns fast path updates into events and events into
  input PDUs; bitmaps are decompressed by \<^verbatim>\<open>core/event.rs\<close> and \<^verbatim>\<open>codec/rle.rs\<close>. Packets are values of
  the message trait (\<^verbatim>\<open>model/data.rs\<close>), or ASN.1 values (\<^verbatim>\<open>nla/asn1.rs\<close>), or written by the packed
  encoding rules (\<^verbatim>\<open>core/per.rs\<close>). The client (\<^verbatim>\<open>core/client.rs\<close>) is what a user of the library
  sees, and \<^verbatim>\<open>bin/mstsc-rs.rs\<close> shares one between a reading thread and a window.

  \<^bold>\<open>How the code is modelled.\<close>
  \<^item> A Rust function that may fail is an \<open>outcome\<close>: \<open>Ok\<close>, \<open>Err\<close> with the error of
    \<^verbatim>\<open>model/error.rs\<close>, \<open>Panic\<close> with its cause, or \<open>Diverge\<close> for a loop that does not end. A method
    that changes its receiver or reads from a stream is a \<open>prog\<close>: a function from the state to an
    outcome and the new state, composed by \<open>bindp\<close> as the code is by \<open>?\<close>; what was done before an
    error stays done. A part of a structure is worked on through \<open>zoom\<close>.
  \<^item> Machine integers are words. Arithmetic of the code that is not explicitly wrapping is checked
    (\<open>addw\<close>, \<open>subw\<close>, \<open>mulw\<close>, on sizes \<open>subn\<close>): an overflow is the panic of a debug build.
    Sizes of type \<open>usize\<close> are natural numbers. Indexing and slicing check their bounds. Strings are
    lists of code points, a map whose order matters is an association list, and the order in
    which a hash map is walked is a parameter.
  \<^item> A \<open>while\<close> loop is \<open>loop\<close> with a measure as fuel, and the loop that reads array elements has one
    unit of fuel for every byte and one more; running out is \<open>Diverge\<close>. That the measure is enough is
    what the termination theorems show, none of which assumes that a result exists.
  \<^item> The network is data: the arrivals still to come, in pieces or with errors, the bytes sent,
    and how much each write accepts.

  \<^bold>\<open>Parameters.\<close> Code that is not in the repository is an argument of the definitions: the TLS
  library (\<open>tls_connector\<close>), the DER and BER codec (\<open>yasna\<close>), the certificate parser and the
  big numbers of CredSSP (\<open>crates\<close>), the digests and the upper casing of NTLM (\<open>crypto\<close>), the
  random bytes, the iteration order of a map, and the window, its keys and the clock
  of the program. What is assumed of them stands in the theorems that need it, such as
  \<open>digests\<close>, the lengths of the digests, or \<open>served\<close>, that the encoding of the one tree which the client sends
  fits into a frame and that the server's answer is parsed, and has witnesses.

  \<^bold>\<open>Theories\<close>, in the order in which they build on each other:
  \<^item> \<open>Prelude\<close>, \<open>Bytes\<close>, \<open>Loops\<close>: outcomes, programs, integers and their byte images, cursors,
    loops; weakest preconditions (\<open>wp\<close> for outcomes and panics, \<open>post\<close>, \<open>keeps\<close> for what is
    left alone) with their collections of rules.
  \<^item> \<open>Message\<close>, \<open>Message_Laws\<close>, \<open>Message_Types\<close>: the message trait with every implementation; a
    message read back with a template of its shape, announced lengths, layouts of what is read,
    termination, and templates whose reads cannot panic (C39, C40).
  \<^item> \<open>Per\<close>, \<open>Asn1\<close>: the encodings and their round trips (C22, C25). \<open>Der\<close> is a writer of the distinguished
    encoding rules, which the examples use in the place of the ASN.1 library.
  \<^item> \<open>Rle\<close>, \<open>Event\<close>: both decompressors, the pixel conversion and the events; memory safety,
    termination, the exact pixels, and what becomes of every bitmap of 16 bits and every compressed one (C17 to C21, C29, C30).
  \<^item> \<open>Link\<close>, \<open>Tpkt\<close>, \<open>Channel\<close>, \<open>X224\<close>: the transport. The locales \<open>transport\<close>, \<open>channel\<close> and
    \<open>duplex\<close> state what each layer promises to the next; each is interpreted on the layer's own
    operations, the upper one by the facts of the one below (C14 to C16).
  \<^item> \<open>Gcc\<close>, \<open>Mcs\<close>, \<open>Mcs_Session\<close>, \<open>License\<close>, \<open>Sec\<close>: the connection sequence, the joined
    session that the layers above rely on, and the license (C12, C13, C23, C24, C26, C27).
  \<^item> \<open>Capability\<close>, \<open>Global\<close>, \<open>Global_Laws\<close>, \<open>Global_Machine\<close>, \<open>Global_Events\<close>: the capability
    sets, every PDU, the state machine as a refinement of an abstract handshake, and the
    events (C28, C31, C32).
  \<^item> \<open>Sspi\<close>, \<open>Rc4\<close>, \<open>Ntlm\<close>, \<open>Ntlm_Laws\<close>, \<open>Cssp\<close>, \<open>Cssp_Laws\<close>: the authentication. The traits
    are records of operations, their contracts locales that NTLM fulfils (C11, C33 to C37).
  \<^item> \<open>Client\<close>, \<open>Client_Laws\<close>: the connector and the client. The properties of the layers compose
    to the way from the server's bytes to an active client, to what any run of a client may
    do, and to the input events on the wire (C1 to C6).
  \<^item> \<open>Mstsc\<close>, \<open>Mstsc_Laws\<close>: the parts of the window program: drawing through raw pointers, the rounds of
    the reading thread, the frames of the window loop, mouse and keyboard, the connector
    made of the arguments (C7, C38).
  \<^item> \<open>Program\<close>, \<open>Program_Laws\<close>: \<open>main\<close> from the command line to the end of both threads, which run
    as the steps of one process, each up to where the other thread can see something or a call into the network
    begins: the order of the bitmaps, what the lock protects, what can go wrong, for what a thread may wait, and
    when both threads end (C8 to C10). When a call into the network returns is free: a step may say that it has not, and
    a server that stalls is a run in which it never does. A
    thread that is not interrupted, and whose calls return, does the round, the frame or the loop of \<open>Mstsc\<close>.
  \<^item> \<open>Vectors\<close>: the byte strings that the unit tests of the repository expect, computed by the model
    with the writer of \<open>Der\<close>.

  \<^bold>\<open>Bounds.\<close> The theorems on packets that are sent bound their payloads by what the length
  fields can carry: below 32768 bytes for a data request of MCS, 65535 with the headers for a TPKT frame.
  The other theorems hold for every input.

  \<^bold>\<open>Not modelled.\<close> Texts of error messages and debug output. In the window program: what the command line
  parser, the address parser, the sockets and the window do, which are functions the program is given;
  how long a call into the network takes: in the layers the arrivals still to come are known, and
  the end of them is the end of the stream; that a call waits for them is modelled where it matters to another thread,
  in \<open>Program\<close>, and there a call returns as a whole. The alignment and the
  allocation size that the cast of a vector of bytes to a vector of words gets wrong: the
  model takes the words as the little endian ones. Release builds, where the arithmetic wraps instead of
  panicking. The module files hold declarations only.
\<close>

end
